(* ===== verification/Prelude.thy ===== *)
theory Prelude
  imports Main "HOL-Library.AList"
begin

text \<open>
  What the components of the model share.

  Go errors are values of \<open>go_error\<close>; the code tells one class of them apart, the ones for which
  \<open>apierrors.IsNotFound\<close> holds, and that class is the constructor \<open>NotFound\<close>. A Go map is an
  association list whose order is the order in which a \<open>range\<close> loop happens to visit it: it is
  read with \<open>map_of\<close>, written with \<open>AList.update\<close> and \<open>AList.delete\<close>. The body of a \<open>for\<close> loop
  ends in one of three ways, the constructors of \<open>ctl\<close>: it goes on to the next element with its
  loop variables, it returns from the enclosing function, or it panics. \<open>for_loop\<close> is the Go loop
  over a slice. The lemmas are the two ways a property of a body becomes a property of the
  loop: a state invariant, and a relation between the states before and after.
\<close>

named_theorems go_defs \<open>definitions of constants and small helpers of the program\<close>
named_theorems frame_simps \<open>what an operation leaves unchanged\<close>

section \<open>Errors, maps\<close>

datatype go_error = NotFound | Failure string

text \<open>How a function that returns an error ends: with the error, or in a panic.\<close>

datatype outcome = Done "go_error option" | Panicked string

type_synonym ('k, 'v) gomap = "('k \<times> 'v) list"

lemma map_of_update [simp]: "map_of (AList.update k v m) = (map_of m)(k \<mapsto> v)"
  by (simp add: update_conv')

lemma map_of_delete [simp]: "map_of (AList.delete k m) = (map_of m)(k := None)"
  by (simp add: delete_conv')

section \<open>Loops that return early\<close>

datatype 's ctl = Continue 's | Return "go_error option" | Panic string

fun for_loop :: "('a \<Rightarrow> 's \<Rightarrow> 'w \<Rightarrow> 's ctl \<times> 'w) \<Rightarrow> 'a list \<Rightarrow> 's \<Rightarrow> 'w \<Rightarrow> 's ctl \<times> 'w" where
  "for_loop body [] s w = (Continue s, w)"
| "for_loop body (x # xs) s w =
     (case body x s w of
        (Continue s', w') \<Rightarrow> for_loop body xs s' w'
      | (Return e, w') \<Rightarrow> (Return e, w')
      | (Panic m, w') \<Rightarrow> (Panic m, w'))"

text \<open>A property of the state that every iteration keeps is kept by the loop, however it ends.\<close>

lemma for_loop_invariant:
  assumes "for_loop body xs s w = (r, w')" and "I w"
    and "\<And>x s w r w'. x \<in> set xs \<Longrightarrow> body x s w = (r, w') \<Longrightarrow> I w \<Longrightarrow> I w'"
  shows "I w'"
  using assms
proof (induction xs arbitrary: s w)
  case Nil
  then show ?case by simp
next
  case (Cons x xs)
  obtain c u where b: "body x s w = (c, u)" by (cases "body x s w")
  have u: "I u" using Cons.prems(3)[OF _ b Cons.prems(2)] by simp
  show ?case
  proof (cases c)
    case (Continue s')
    with Cons.prems(1) b have "for_loop body xs s' u = (r, w')" by simp
    then show ?thesis
      by (rule Cons.IH[OF _ u Cons.prems(3)]) simp_all
  qed (use Cons.prems b u in auto)
qed

text \<open>
  The same with the loop variables in the invariant, for the runs that reach the end: the
  invariant speaks of the elements already visited.
\<close>

lemma for_loop_continue:
  assumes "for_loop body xs s w = (Continue t, w')" and "I [] s w"
    and "\<And>pre x s w s' w'. \<exists>post. xs = pre @ x # post \<Longrightarrow> body x s w = (Continue s', w') \<Longrightarrow>
      I pre s w \<Longrightarrow> I (pre @ [x]) s' w'"
  shows "I xs t w'"
proof -
  have "for_loop body ys s w = (Continue t, w') \<Longrightarrow> xs = pre @ ys \<Longrightarrow> I pre s w \<Longrightarrow> I xs t w'"
    for pre ys s w
  proof (induction ys arbitrary: pre s w)
    case Nil
    then show ?case by simp
  next
    case (Cons y ys)
    from Cons.prems(1) obtain s' u
      where b: "body y s w = (Continue s', u)" and l: "for_loop body ys s' u = (Continue t, w')"
      by (auto split: prod.splits ctl.splits)
    have "I (pre @ [y]) s' u"
      using assms(3)[OF _ b Cons.prems(3)] Cons.prems(2) by blast
    with Cons.IH[OF l, of "pre @ [y]"] Cons.prems(2) show ?case by simp
  qed
  from this[OF assms(1), of "[]"] assms(2) show ?thesis by simp
qed

lemma for_loop_append:
  "for_loop body (xs @ ys) s w =
     (case for_loop body xs s w of
        (Continue s', w') \<Rightarrow> for_loop body ys s' w'
      | (Return e, w') \<Rightarrow> (Return e, w')
      | (Panic m, w') \<Rightarrow> (Panic m, w'))"
  by (induction xs arbitrary: s w) (auto split: prod.splits ctl.splits)

text \<open>A loop that ends early ends in one of its iterations.\<close>

lemma for_loop_stopped:
  assumes "for_loop body xs s w = (r, w')" and "\<And>t. r \<noteq> Continue t"
  shows "\<exists>pre x post s1 w1. xs = pre @ x # post \<and>
    for_loop body pre s w = (Continue s1, w1) \<and> body x s1 w1 = (r, w')"
  using assms(1)
proof (induction xs arbitrary: s w)
  case Nil
  with assms(2) show ?case by auto
next
  case (Cons x xs)
  obtain c u where b: "body x s w = (c, u)" by (cases "body x s w")
  show ?case
  proof (cases "\<exists>s'. c = Continue s'")
    case False
    with Cons.prems b have "body x s w = (r, w')" by (cases c) auto
    then show ?thesis
      by (intro exI[of _ "[]"] exI[of _ x] exI[of _ xs] exI[of _ s] exI[of _ w]) simp
  next
    case True
    then obtain s' where c: "c = Continue s'" by blast
    with Cons.prems b have "for_loop body xs s' u = (r, w')" by simp
    from Cons.IH[OF this] obtain pre y post s1 w1
      where "xs = pre @ y # post" "for_loop body pre s' u = (Continue s1, w1)"
        "body y s1 w1 = (r, w')" by blast
    with b c show ?thesis
      by (intro exI[of _ "x # pre"] exI[of _ y] exI[of _ post] exI[of _ s1] exI[of _ w1]) simp
  qed
qed

end
