(* ===== verification/Api_Types.thy ===== *)
theory Api_Types
  imports Prelude
begin

text \<open>
  The data of the program: the constants of \<open>pkg/constants/constants.go\<close>, and the two versions of
  the custom resource, \<open>api/v1beta1\<close> and \<open>api/v1beta2\<close>. Field and type names are those of the Go
  structs; where both versions have a name, the one of v1beta1 carries the suffix \<open>1\<close>.
  \<open>ObjectMeta\<close> is the part of the Kubernetes metadata the program reads or writes on these
  objects.
\<close>

section \<open>Constants\<close>

definition RetrainTypeLimitsCpu :: string where [go_defs]: "RetrainTypeLimitsCpu = ''limits.cpu''"
definition RetrainTypeLimitsMemory :: string where
  [go_defs]: "RetrainTypeLimitsMemory = ''limits.memory''"
definition RetrainTypeRequestsCpu :: string where
  [go_defs]: "RetrainTypeRequestsCpu = ''requests.cpu''"
definition RetrainTypeRequestsMemory :: string where
  [go_defs]: "RetrainTypeRequestsMemory = ''requests.memory''"

definition IgnoreKubeSystem :: string where [go_defs]: "IgnoreKubeSystem = ''kube-system''"
definition IgnoreKubePublic :: string where [go_defs]: "IgnoreKubePublic = ''kube-public''"

definition DefaultFinalizer :: string where [go_defs]: "DefaultFinalizer = ''resourcelimiter.finalizer''"
definition MutateNamespaceLabel :: string where
  [go_defs]: "MutateNamespaceLabel = ''resourcelimiter-mutate''"
definition ValidateNamespaceLabel :: string where
  [go_defs]: "ValidateNamespaceLabel = ''resourcelimiter-validate''"

definition Ready :: string where [go_defs]: "Ready = ''ready''"
definition Stopped :: string where [go_defs]: "Stopped = ''stopped''"

section \<open>Object metadata\<close>

record ObjectMeta =
  Name :: string
  Finalizers :: "string list"
  DeletionTimestamp :: "string option"

definition empty_meta :: ObjectMeta where
  "empty_meta = \<lparr>Name = '''', Finalizers = [], DeletionTimestamp = None\<rparr>"

section \<open>v1beta2\<close>

record ResourceLimiterQuota =
  NamespaceName :: string
  CpuRequest :: string
  MemRequest :: string
  CpuLimit :: string
  MemLimit :: string

record ResourceLimiterSpec =
  Quotas :: "ResourceLimiterQuota list"
  Applied :: bool

record ResourceLimiterStatus =
  State :: string
  StatusQuotas :: "ResourceLimiterQuota list"

record ResourceLimiter =
  Meta :: ObjectMeta
  Spec :: ResourceLimiterSpec
  Status :: ResourceLimiterStatus

text \<open>The zero values that \<open>ResourceLimiterQuota{}\<close> and \<open>ResourceLimiter{}\<close> denote.\<close>

definition empty_quota :: ResourceLimiterQuota where
  "empty_quota = \<lparr>NamespaceName = '''', CpuRequest = '''', MemRequest = '''', CpuLimit = '''', MemLimit = ''''\<rparr>"

definition empty_rl :: ResourceLimiter where
  "empty_rl = \<lparr>Meta = empty_meta, Spec = \<lparr>Quotas = [], Applied = False\<rparr>,
     Status = \<lparr>State = '''', StatusQuotas = []\<rparr>\<rparr>"

section \<open>v1beta1\<close>

type_synonym ResourceLimiterNamespace = string
type_synonym ResourceLimiterType = string

record ResourceLimiterSpec1 =
  Targets :: "ResourceLimiterNamespace list"
  Types :: "(ResourceLimiterType, string) gomap"
  Applied1 :: bool

record ResourceLimiterQuotas1 =
  Namespace1 :: string
  CpuRequests1 :: string
  MemRequests1 :: string
  CpuLimits1 :: string
  MemLimits1 :: string

record ResourceLimiterStatus1 =
  State1 :: string
  StatusQuotas1 :: "(string, ResourceLimiterQuotas1) gomap"

record ResourceLimiter1 =
  Meta1 :: ObjectMeta
  Spec1 :: ResourceLimiterSpec1
  Status1 :: ResourceLimiterStatus1

definition empty_rl1 :: ResourceLimiter1 where
  "empty_rl1 = \<lparr>Meta1 = empty_meta, Spec1 = \<lparr>Targets = [], Types = [], Applied1 = False\<rparr>,
     Status1 = \<lparr>State1 = '''', StatusQuotas1 = []\<rparr>\<rparr>"

end
