(* ===== verification/Hub_Conversion.thy ===== *)
theory Hub_Conversion
  imports Api_Types
begin

text \<open>
  The conversion between the two versions, \<open>api/v1beta1/resourcelimiter_conversion.go\<close>: v1beta2 is
  the hub. Both methods write through a pointer and return an error, so their models return the
  error (if any) and the object as it is left behind, also when the method fails half way.
\<close>

section \<open>The two methods\<close>

text \<open>
  \<open>conversion.Hub\<close> is an interface; the methods accept it only when its dynamic type is
  \<open>*v1beta2.ResourceLimiter\<close>.
\<close>

datatype hub = HubV1beta2 ResourceLimiter | OtherHub

text \<open>Reading a missing key of a \<open>map[..]string\<close> gives the empty string.\<close>

definition get_str :: "(string, string) gomap \<Rightarrow> string \<Rightarrow> string" where
  "get_str m k = (case map_of m k of None \<Rightarrow> '''' | Some v \<Rightarrow> v)"

definition quota_for :: "(string, string) gomap \<Rightarrow> string \<Rightarrow> ResourceLimiterQuota" where
  "quota_for types ns =
     \<lparr>NamespaceName = ns,
      CpuRequest = get_str types ''requests.cpu'',
      MemRequest = get_str types ''requests.memory'',
      CpuLimit = get_str types ''limits.cpu'',
      MemLimit = get_str types ''limits.memory''\<rparr>"

text \<open>
  \<open>make([]Quota, n)\<close> is a slice of length \<open>n\<close> holding zero values, and the loop appends to it.
\<close>

fun ConvertTo :: "ResourceLimiter1 \<Rightarrow> hub \<Rightarrow> go_error option \<times> hub" where
  "ConvertTo src OtherHub = (Some (Failure ''the dst type is wroong''), OtherHub)"
| "ConvertTo src (HubV1beta2 dst) =
     (let made = replicate (length (Targets (Spec1 src))) empty_quota;
          quotas = foldl (\<lambda>qs ns. qs @ [quota_for (Types (Spec1 src)) ns]) made (Targets (Spec1 src))
      in (None, HubV1beta2
            (dst\<lparr>Spec := (Spec dst)\<lparr>Quotas := quotas, Applied := Applied1 (Spec1 src)\<rparr>,
                 Meta := (Meta dst)\<lparr>Name := Name (Meta1 src)\<rparr>\<rparr>)))"

text \<open>One round of the loop of \<open>ConvertFrom\<close>: append the namespace, overwrite the four types.\<close>

definition put_types :: "ResourceLimiterQuota \<Rightarrow> (string, string) gomap \<Rightarrow> (string, string) gomap" where
  "put_types v m0 =
     (let m1 = AList.update ''limits.cpu'' (CpuLimit v) m0;
          m2 = AList.update ''requests.cpu'' (CpuRequest v) m1;
          m3 = AList.update ''limits.memory'' (MemLimit v) m2
      in AList.update ''requests.memory'' (MemRequest v) m3)"

definition add_quota :: "ResourceLimiterSpec1 \<Rightarrow> ResourceLimiterQuota \<Rightarrow> ResourceLimiterSpec1" where
  "add_quota sp v = sp\<lparr>Targets := Targets sp @ [NamespaceName v], Types := put_types v (Types sp)\<rparr>"

fun ConvertFrom :: "ResourceLimiter1 \<Rightarrow> hub \<Rightarrow> go_error option \<times> ResourceLimiter1" where
  "ConvertFrom dst OtherHub = (Some (Failure ''the dst type is wroong''), dst)"
| "ConvertFrom dst (HubV1beta2 src) =
     (let sp = (Spec1 dst)\<lparr>Targets := [], Types := [], Applied1 := Applied (Spec src)\<rparr>
      in if Quotas (Spec src) = [] then (Some (Failure ''the quotas field is 0''), dst\<lparr>Spec1 := sp\<rparr>)
         else (None, dst\<lparr>Spec1 := foldl add_quota sp (Quotas (Spec src))\<rparr>))"

section \<open>What they compute\<close>

lemma NamespaceName_quota_for [simp]: "NamespaceName (quota_for types ns) = ns"
  by (simp add: quota_for_def)

lemma NamespaceName_comp_quota_for [simp]: "NamespaceName \<circ> quota_for types = id"
  by (rule ext) simp

lemma foldl_snoc_map: "foldl (\<lambda>ys x. ys @ [f x]) acc xs = acc @ map f xs"
  by (induction xs arbitrary: acc) auto

lemma foldl_add_quota_targets:
  "Targets (foldl add_quota sp qs) = Targets sp @ map NamespaceName qs"
  by (induction qs arbitrary: sp) (auto simp: add_quota_def)

lemma foldl_add_quota_applied [simp]: "Applied1 (foldl add_quota sp qs) = Applied1 sp"
  by (induction qs arbitrary: sp) (auto simp: add_quota_def)

text \<open>The four keys a quota is stored under; \<open>type_value q\<close> is what it stores there.\<close>

definition type_value :: "ResourceLimiterQuota \<Rightarrow> string \<rightharpoonup> string" where
  "type_value q = [''limits.cpu'' \<mapsto> CpuLimit q, ''requests.cpu'' \<mapsto> CpuRequest q,
     ''limits.memory'' \<mapsto> MemLimit q, ''requests.memory'' \<mapsto> MemRequest q]"

lemma map_of_put_types: "map_of (put_types q m) = map_of m ++ type_value q"
  by (rule ext) (simp add: put_types_def type_value_def map_add_def)

lemma type_value_absorb: "m ++ type_value q ++ type_value q' = m ++ type_value q'"
  by (rule ext) (simp add: type_value_def map_add_def)

lemma foldl_add_quota_types:
  "qs \<noteq> [] \<Longrightarrow> map_of (Types (foldl add_quota sp qs)) = map_of (Types sp) ++ type_value (last qs)"
proof (induction qs rule: rev_induct)
  case Nil
  then show ?case by simp
next
  case (snoc q qs)
  then show ?case
    by (cases "qs = []") (simp_all add: add_quota_def map_of_put_types type_value_absorb)
qed

lemma quota_for_type_value:
  "map_of m = m0 ++ type_value q \<Longrightarrow> quota_for m ns = q\<lparr>NamespaceName := ns\<rparr>"
  by (cases q) (simp add: quota_for_def get_str_def type_value_def map_add_def)

text \<open>\<open>ConvertTo\<close> never fails on a v1beta2 destination, copies name and \<open>applied\<close>, and leaves
  twice as many quotas as there are targets: one zero quota per target, then the real ones.\<close>

theorem ConvertTo_result:
  "ConvertTo src (HubV1beta2 dst) =
     (None, HubV1beta2
        (dst\<lparr>Spec := \<lparr>Quotas = replicate (length (Targets (Spec1 src))) empty_quota
                        @ map (quota_for (Types (Spec1 src))) (Targets (Spec1 src)),
                      Applied = Applied1 (Spec1 src)\<rparr>,
             Meta := (Meta dst)\<lparr>Name := Name (Meta1 src)\<rparr>\<rparr>))"
  by (cases "Spec dst") (simp add: foldl_snoc_map)

text \<open>\<open>ConvertFrom\<close> fails exactly when there is no quota or the source is no v1beta2 object; when
  it succeeds it lists every namespace in order and keeps the four values of the last quota only.\<close>

theorem ConvertFrom_result:
  "case ConvertFrom dst (HubV1beta2 src) of (e, out) \<Rightarrow>
     Applied1 (Spec1 out) = Applied (Spec src) \<and> Meta1 out = Meta1 dst \<and> Status1 out = Status1 dst \<and>
     Targets (Spec1 out) = map NamespaceName (Quotas (Spec src)) \<and>
     (if Quotas (Spec src) = [] then e = Some (Failure ''the quotas field is 0'') \<and> Types (Spec1 out) = []
      else e = None \<and> map_of (Types (Spec1 out)) = type_value (last (Quotas (Spec src))))"
  by (simp add: Let_def foldl_add_quota_targets foldl_add_quota_types)

text \<open>C39: from v1beta1, with targets, to v1beta2 and back, the targets come back behind as many empty names, the four
  known types come back (one that was missing as an empty string), any other type is dropped, and \<open>applied\<close> comes back.\<close>

theorem roundtrip_v1beta1:
  assumes "Targets (Spec1 src) \<noteq> []" and "ConvertTo src (HubV1beta2 dst2) = (e1, h)"
    and "ConvertFrom dst1 h = (e2, out)"
  shows "e1 = None \<and> e2 = None \<and> Applied1 (Spec1 out) = Applied1 (Spec1 src) \<and>
    Targets (Spec1 out) = replicate (length (Targets (Spec1 src))) '''' @ Targets (Spec1 src) \<and>
    (\<forall>k. map_of (Types (Spec1 out)) k =
       (if k \<in> {''limits.cpu'', ''requests.cpu'', ''limits.memory'', ''requests.memory''}
        then Some (get_str (Types (Spec1 src)) k) else None))"
proof -
  let ?T = "Targets (Spec1 src)" and ?Y = "Types (Spec1 src)"
  let ?qs = "replicate (length ?T) empty_quota @ map (quota_for ?Y) ?T"
  from assms(2) have e1: "e1 = None" and h: "\<exists>v. h = HubV1beta2 v \<and> Quotas (Spec v) = ?qs \<and>
      Applied (Spec v) = Applied1 (Spec1 src)"
    by (auto simp: ConvertTo_result simp del: ConvertTo.simps)
  then obtain v where h: "h = HubV1beta2 v" and q: "Quotas (Spec v) = ?qs"
    and a: "Applied (Spec v) = Applied1 (Spec1 src)" by blast
  have "last ?qs = quota_for ?Y (last ?T)"
    using assms(1) by (simp add: last_map)
  moreover have "?qs \<noteq> []" using assms(1) by simp
  ultimately show ?thesis
    using ConvertFrom_result[where dst = dst1 and src = v] assms(3) h q a e1
    by (auto simp: type_value_def quota_for_def empty_quota_def simp del: ConvertFrom.simps)
qed

theorem roundtrip_v1beta1_witness:
  "\<exists>e1 e2 h out. ConvertTo (empty_rl1\<lparr>Spec1 := \<lparr>Targets = [''default''],
       Types = [(''limits.cpu'', ''2''), (''storage'', ''1Gi'')], Applied1 = True\<rparr>\<rparr>)
       (HubV1beta2 empty_rl) = (e1, h) \<and> ConvertFrom empty_rl1 h = (e2, out) \<and>
     e1 = None \<and> e2 = None \<and> Targets (Spec1 out) = ['''', ''default''] \<and>
     map_of (Types (Spec1 out)) ''limits.cpu'' = Some ''2'' \<and>
     map_of (Types (Spec1 out)) ''storage'' = None"
proof -
  let ?src = "empty_rl1\<lparr>Spec1 := \<lparr>Targets = [''default''],
       Types = [(''limits.cpu'', ''2''), (''storage'', ''1Gi'')], Applied1 = True\<rparr>\<rparr>"
  obtain e1 h where to: "ConvertTo ?src (HubV1beta2 empty_rl) = (e1, h)"
    by (cases "ConvertTo ?src (HubV1beta2 empty_rl)") blast
  obtain e2 out where rev: "ConvertFrom empty_rl1 h = (e2, out)"
    by (cases "ConvertFrom empty_rl1 h") blast
  have "Targets (Spec1 ?src) \<noteq> []" by simp
  from roundtrip_v1beta1[OF this to rev] to rev show ?thesis
    by (simp add: get_str_def del: ConvertTo.simps ConvertFrom.simps)
qed

text \<open>C40: from v1beta2 to v1beta1 and back, a non-empty list of quotas comes back behind as many zero
  quotas, every quota with the values of the last one; so the values survive exactly when all
  quotas agree on them.\<close>

theorem roundtrip_v1beta2:
  assumes "Quotas (Spec src) \<noteq> []" and "ConvertFrom dst1 (HubV1beta2 src) = (e1, mid)"
    and "ConvertTo mid (HubV1beta2 dst2) = (e2, HubV1beta2 out)"
  shows "e1 = None \<and> e2 = None \<and> Applied (Spec out) = Applied (Spec src) \<and>
    Quotas (Spec out) = replicate (length (Quotas (Spec src))) empty_quota
      @ map (\<lambda>q. (last (Quotas (Spec src)))\<lparr>NamespaceName := NamespaceName q\<rparr>) (Quotas (Spec src))"
proof -
  let ?Q = "Quotas (Spec src)"
  have "Targets (Spec1 mid) = map NamespaceName ?Q" "e1 = None"
    "Applied1 (Spec1 mid) = Applied (Spec src)"
    and t: "map_of (Types (Spec1 mid)) = Map.empty ++ type_value (last ?Q)"
    using ConvertFrom_result[where dst = dst1 and src = src] assms(1,2) by (simp_all del: ConvertFrom.simps)
  with assms(3) show ?thesis
    by (auto simp: ConvertTo_result quota_for_type_value[OF t] simp del: ConvertTo.simps)
qed

theorem roundtrip_v1beta2_witness:
  "\<exists>e1 e2 mid out. ConvertFrom empty_rl1 (HubV1beta2 (empty_rl\<lparr>Spec := \<lparr>Quotas =
       [empty_quota\<lparr>NamespaceName := ''a'', CpuLimit := ''1''\<rparr>,
        empty_quota\<lparr>NamespaceName := ''b'', CpuLimit := ''2''\<rparr>], Applied = True\<rparr>\<rparr>)) = (e1, mid) \<and>
     ConvertTo mid (HubV1beta2 empty_rl) = (e2, HubV1beta2 out) \<and>
     Quotas (Spec out) = [empty_quota, empty_quota,
        empty_quota\<lparr>NamespaceName := ''a'', CpuLimit := ''2''\<rparr>,
        empty_quota\<lparr>NamespaceName := ''b'', CpuLimit := ''2''\<rparr>]"
proof -
  let ?src = "empty_rl\<lparr>Spec := \<lparr>Quotas =
       [empty_quota\<lparr>NamespaceName := ''a'', CpuLimit := ''1''\<rparr>,
        empty_quota\<lparr>NamespaceName := ''b'', CpuLimit := ''2''\<rparr>], Applied = True\<rparr>\<rparr>"
  obtain e1 mid where rev: "ConvertFrom empty_rl1 (HubV1beta2 ?src) = (e1, mid)"
    by (cases "ConvertFrom empty_rl1 (HubV1beta2 ?src)") blast
  obtain e2 out where to: "ConvertTo mid (HubV1beta2 empty_rl) = (e2, HubV1beta2 out)"
    using ConvertTo_result[of mid empty_rl] by blast
  have "Quotas (Spec ?src) \<noteq> []" by simp
  from roundtrip_v1beta2[OF this rev to] rev to show ?thesis
    by (simp add: numeral_2_eq_2 del: ConvertTo.simps ConvertFrom.simps)
qed

end
