(* ===== verification/Json.thy ===== *)
theory Json
  imports Prelude
begin

text \<open>
  JSON values, and what \<open>encoding/json\<close> does with them where the program uses it: decoding a value
  into a struct, by the names in the tags of its fields. A decoder gets the value the field holds
  so far and answers \<open>None\<close> when the kinds do not match (an \<open>UnmarshalTypeError\<close>); \<open>null\<close> leaves a
  scalar as it is and empties a slice or a map; a struct takes the members of an object one after
  the other, a name matching a field exactly or else up to (ASCII) case, and ignores the others.
  Numbers are kept as their literals: the program reads none.

  Two contracts describe a struct decoder: \<open>json_struct\<close>, that whether a member is refused does not
  depend on what the struct holds, and \<open>json_field\<close>, that a field is set by its member only. Their
  lemmas give the value of a field after decoding any object that has each member at most once.
\<close>

datatype json =
    JNull
  | JBool bool
  | JNum string
  | JStr string
  | JArr "json list"
  | JObj "(string \<times> json) list"

section \<open>Decoding\<close>

fun decode_string :: "string \<Rightarrow> json \<Rightarrow> string option" where
  "decode_string cur JNull = Some cur"
| "decode_string cur (JStr s) = Some s"
| "decode_string cur _ = None"

fun decode_bool :: "bool \<Rightarrow> json \<Rightarrow> bool option" where
  "decode_bool cur JNull = Some cur"
| "decode_bool cur (JBool b) = Some b"
| "decode_bool cur _ = None"

fun decode_list :: "(json \<Rightarrow> 'a option) \<Rightarrow> json \<Rightarrow> 'a list option" where
  "decode_list f JNull = Some []"
| "decode_list f (JArr xs) = those (map f xs)"
| "decode_list f _ = None"

fun decode_members :: "(json \<Rightarrow> 'v option) \<Rightarrow> (string, 'v) gomap \<Rightarrow> (string \<times> json) list \<Rightarrow>
    (string, 'v) gomap option" where
  "decode_members f m [] = Some m"
| "decode_members f m ((k, j) # js) =
     (case f j of None \<Rightarrow> None | Some v \<Rightarrow> decode_members f (AList.update k v m) js)"

fun decode_map :: "(json \<Rightarrow> 'v option) \<Rightarrow> (string, 'v) gomap \<Rightarrow> json \<Rightarrow> (string, 'v) gomap option" where
  "decode_map f cur JNull = Some []"
| "decode_map f cur (JObj ms) = decode_members f cur ms"
| "decode_map f cur _ = None"

definition lower :: "char \<Rightarrow> char" where
  "lower c = (if of_char c \<ge> (65 :: nat) \<and> of_char c \<le> (90 :: nat) then char_of (of_char c + 32 :: nat) else c)"

definition field_of :: "string list \<Rightarrow> string \<Rightarrow> string option" where
  "field_of names k =
     (if k \<in> set names then Some k else List.find (\<lambda>n. map lower n = map lower k) names)"

fun set_members :: "string list \<Rightarrow> (string \<Rightarrow> json \<Rightarrow> 'r \<Rightarrow> 'r option) \<Rightarrow> 'r \<Rightarrow> (string \<times> json) list \<Rightarrow>
    'r option" where
  "set_members names put r [] = Some r"
| "set_members names put r ((k, v) # ms) =
     (case field_of names k of
        None \<Rightarrow> set_members names put r ms
      | Some f \<Rightarrow> (case put f v r of None \<Rightarrow> None | Some r' \<Rightarrow> set_members names put r' ms))"

fun decode_struct :: "string list \<Rightarrow> (string \<Rightarrow> json \<Rightarrow> 'r \<Rightarrow> 'r option) \<Rightarrow> 'r \<Rightarrow> json \<Rightarrow> 'r option" where
  "decode_struct names put r JNull = Some r"
| "decode_struct names put r (JObj ms) = set_members names put r ms"
| "decode_struct names put r _ = None"

lemma field_of_name [simp]: "k \<in> set names \<Longrightarrow> field_of names k = Some k"
  by (simp add: field_of_def)

section \<open>Objects with each member once\<close>

definition plain :: "string list \<Rightarrow> (string \<times> json) list \<Rightarrow> bool" where
  "plain names ms \<longleftrightarrow> distinct (map fst ms) \<and> fst ` set ms \<subseteq> set names"

lemma plain_update: "plain names ms \<Longrightarrow> k \<in> set names \<Longrightarrow> plain names (AList.update k v ms)"
  by (auto simp: plain_def distinct_update dom_update)

lemma set_update_plain:
  "plain names ms \<Longrightarrow> (k', v') \<in> set (AList.update k v ms) \<Longrightarrow> (k', v') = (k, v) \<or> (k', v') \<in> set ms \<and> k' \<noteq> k"
  by (metis Pair_inject distinct_update fun_upd_apply map_of_SomeD map_of_eq_Some_iff map_of_update
      option.inject plain_def)

locale json_struct =
  fixes names :: "string list" and put :: "string \<Rightarrow> json \<Rightarrow> 'r \<Rightarrow> 'r option"
  assumes put_refused: "put f v r = None \<longleftrightarrow> put f v r' = None"
begin

lemma accepts_iff:
  "plain names ms \<Longrightarrow>
     decode_struct names put r (JObj ms) \<noteq> None \<longleftrightarrow> (\<forall>k v. (k, v) \<in> set ms \<longrightarrow> put k v r \<noteq> None)"
proof (induction ms arbitrary: r)
  case Nil
  then show ?case by simp
next
  case (Cons m ms)
  obtain k v where m: "m = (k, v)" by (cases m)
  from Cons.prems m have k: "k \<in> set names" and p: "plain names ms" by (auto simp: plain_def)
  show ?case
  proof (cases "put k v r")
    case None
    with m k show ?thesis by auto
  next
    case (Some r')
    have "put j u r' \<noteq> None \<longleftrightarrow> put j u r \<noteq> None" for j u
      by (simp only: put_refused[of j u r' r])
    with Cons.IH[OF p, of r'] m k Some show ?thesis by auto
  qed
qed

text \<open>Replacing one member by a value the field takes keeps the object decodable.\<close>

lemma accepts_update:
  assumes "plain names ms" and "decode_struct names put r (JObj ms) \<noteq> None"
    and "k \<in> set names" and "put k v r \<noteq> None"
  shows "decode_struct names put r (JObj (AList.update k v ms)) \<noteq> None"
  unfolding accepts_iff[OF plain_update[OF assms(1,3)]]
  using set_update_plain[OF assms(1)] assms(2,4) accepts_iff[OF assms(1), of r] by blast

end

locale json_field = json_struct names put
  for names :: "string list" and put :: "string \<Rightarrow> json \<Rightarrow> 'r \<Rightarrow> 'r option" +
  fixes field :: string and get :: "'r \<Rightarrow> 'a" and dec :: "'a \<Rightarrow> json \<Rightarrow> 'a option"
  assumes put_this: "put field v r = Some r' \<Longrightarrow> dec (get r) v = Some (get r')"
    and put_other: "f \<noteq> field \<Longrightarrow> put f v r = Some r' \<Longrightarrow> get r' = get r"
begin

lemma decoded:
  assumes "decode_struct names put r (JObj ms) = Some r'" and "plain names ms"
  shows "case map_of ms field of None \<Rightarrow> get r' = get r | Some v \<Rightarrow> dec (get r) v = Some (get r')"
  using assms
proof (induction ms arbitrary: r)
  case Nil
  then show ?case by simp
next
  case (Cons m ms)
  obtain k v where m: "m = (k, v)" by (cases m)
  from Cons.prems(2) m have k: "k \<in> set names" and p: "plain names ms" and d: "k \<notin> fst ` set ms"
    by (auto simp: plain_def)
  from Cons.prems(1) m k obtain r1 where r1: "put k v r = Some r1"
    and l: "decode_struct names put r1 (JObj ms) = Some r'" by (auto split: option.splits)
  show ?case
  proof (cases "k = field")
    case True
    then have "map_of ms field = None" using d by (simp add: map_of_eq_None_iff)
    with Cons.IH[OF l p] put_this[of v r r1] r1 m True show ?thesis by auto
  next
    case False
    with Cons.IH[OF l p] put_other[OF False r1] m show ?thesis by (simp split: option.splits)
  qed
qed

end

section \<open>JSON patch\<close>

text \<open>
  The \<open>add\<close> operation of RFC 6902, as far as the patches of the program use it: a member of an
  object is set, \<open>-\<close> appends to an array. \<open>None\<close>: the path leads nowhere and the API server refuses
  the patch (and with it the request).
\<close>

fun split_path :: "string \<Rightarrow> string list" where
  "split_path [] = [[]]"
| "split_path (c # cs) =
     (if c = CHR ''/'' then [] # split_path cs
      else case split_path cs of [] \<Rightarrow> [[c]] | t # ts \<Rightarrow> (c # t) # ts)"

fun add_at :: "string list \<Rightarrow> json \<Rightarrow> json \<Rightarrow> json option" where
  "add_at [] v j = Some v"
| "add_at [k] v (JArr xs) = (if k = ''-'' then Some (JArr (xs @ [v])) else None)"
| "add_at [k] v (JObj ms) = Some (JObj (AList.update k v ms))"
| "add_at (k # k' # ks) v (JObj ms) =
     (case map_of ms k of None \<Rightarrow> None
      | Some j \<Rightarrow> map_option (\<lambda>j'. JObj (AList.update k j' ms)) (add_at (k' # ks) v j))"
| "add_at (k # ks) v j = None"

definition json_add :: "string \<Rightarrow> json \<Rightarrow> json \<Rightarrow> json option" where
  "json_add path v j = add_at (tl (split_path path)) v j"

end
