(* ===== verification/Api_Json.thy ===== *)
theory Api_Json
  imports Json Api_Types
begin

text \<open>
  The two versions of the custom resource as JSON: \<open>json.Unmarshal\<close> into the Go structs, by the
  \<open>json\<close> tags of \<open>api/v1beta1/resourcelimiter_types.go\<close> and \<open>api/v1beta2/resourcelimiter_types.go\<close>,
  and the values \<open>json.Marshal\<close> makes of the parts that patches contain. Decoding the Kubernetes
  metadata (\<open>metav1.ObjectMeta\<close>) is a parameter \<open>dm\<close>.
\<close>

section \<open>v1beta2\<close>

definition put_quota :: "string \<Rightarrow> json \<Rightarrow> ResourceLimiterQuota \<Rightarrow> ResourceLimiterQuota option" where
  "put_quota f v q =
     (if f = ''name'' then map_option (\<lambda>s. q\<lparr>NamespaceName := s\<rparr>) (decode_string (NamespaceName q) v)
      else if f = ''cpu_requests'' then map_option (\<lambda>s. q\<lparr>CpuRequest := s\<rparr>) (decode_string (CpuRequest q) v)
      else if f = ''mem_requests'' then map_option (\<lambda>s. q\<lparr>MemRequest := s\<rparr>) (decode_string (MemRequest q) v)
      else if f = ''cpu_limits'' then map_option (\<lambda>s. q\<lparr>CpuLimit := s\<rparr>) (decode_string (CpuLimit q) v)
      else if f = ''mem_limits'' then map_option (\<lambda>s. q\<lparr>MemLimit := s\<rparr>) (decode_string (MemLimit q) v)
      else Some q)"

definition quota_fields :: "string list" where
  "quota_fields = [''name'', ''cpu_requests'', ''mem_requests'', ''cpu_limits'', ''mem_limits'']"

definition decode_quota :: "json \<Rightarrow> ResourceLimiterQuota option" where
  "decode_quota = decode_struct quota_fields put_quota empty_quota"

definition put_spec :: "string \<Rightarrow> json \<Rightarrow> ResourceLimiterSpec \<Rightarrow> ResourceLimiterSpec option" where
  "put_spec f v sp =
     (if f = ''targets'' then map_option (\<lambda>qs. sp\<lparr>Quotas := qs\<rparr>) (decode_list decode_quota v)
      else if f = ''applied'' then map_option (\<lambda>b. sp\<lparr>Applied := b\<rparr>) (decode_bool (Applied sp) v)
      else Some sp)"

definition spec_fields :: "string list" where
  "spec_fields = [''targets'', ''applied'']"

definition put_status :: "string \<Rightarrow> json \<Rightarrow> ResourceLimiterStatus \<Rightarrow> ResourceLimiterStatus option" where
  "put_status f v st =
     (if f = ''state'' then map_option (\<lambda>s. st\<lparr>State := s\<rparr>) (decode_string (State st) v)
      else if f = ''quotas'' then map_option (\<lambda>qs. st\<lparr>StatusQuotas := qs\<rparr>) (decode_list decode_quota v)
      else Some st)"

definition status_fields :: "string list" where
  "status_fields = [''state'', ''quotas'']"

definition rl_fields :: "string list" where
  "rl_fields = [''kind'', ''apiVersion'', ''metadata'', ''spec'', ''status'']"

definition put_rl ::
  "(ObjectMeta \<Rightarrow> json \<Rightarrow> ObjectMeta option) \<Rightarrow> string \<Rightarrow> json \<Rightarrow> ResourceLimiter \<Rightarrow> ResourceLimiter option"
where
  "put_rl dm f v rl =
     (if f = ''metadata'' then map_option (\<lambda>m. rl\<lparr>Meta := m\<rparr>) (dm (Meta rl) v)
      else if f = ''spec''
        then map_option (\<lambda>sp. rl\<lparr>Spec := sp\<rparr>) (decode_struct spec_fields put_spec (Spec rl) v)
      else if f = ''status''
        then map_option (\<lambda>st. rl\<lparr>Status := st\<rparr>) (decode_struct status_fields put_status (Status rl) v)
      else if f = ''kind'' \<or> f = ''apiVersion'' then map_option (\<lambda>_. rl) (decode_string '''' v)
      else Some rl)"

definition decode_rl :: "(ObjectMeta \<Rightarrow> json \<Rightarrow> ObjectMeta option) \<Rightarrow> json \<Rightarrow> ResourceLimiter option" where
  "decode_rl dm = decode_struct rl_fields (put_rl dm) empty_rl"

section \<open>v1beta1\<close>

definition put_spec1 :: "string \<Rightarrow> json \<Rightarrow> ResourceLimiterSpec1 \<Rightarrow> ResourceLimiterSpec1 option" where
  "put_spec1 f v sp =
     (if f = ''targets'' then map_option (\<lambda>ts. sp\<lparr>Targets := ts\<rparr>) (decode_list (decode_string '''') v)
      else if f = ''types''
        then map_option (\<lambda>m. sp\<lparr>Types := m\<rparr>) (decode_map (decode_string '''') (Types sp) v)
      else if f = ''applied'' then map_option (\<lambda>b. sp\<lparr>Applied1 := b\<rparr>) (decode_bool (Applied1 sp) v)
      else Some sp)"

definition spec1_fields :: "string list" where
  "spec1_fields = [''targets'', ''types'', ''applied'']"

definition put_quotas1 :: "string \<Rightarrow> json \<Rightarrow> ResourceLimiterQuotas1 \<Rightarrow> ResourceLimiterQuotas1 option" where
  "put_quotas1 f v q =
     (if f = ''namespace'' then map_option (\<lambda>s. q\<lparr>Namespace1 := s\<rparr>) (decode_string (Namespace1 q) v)
      else if f = ''cpu_requests'' then map_option (\<lambda>s. q\<lparr>CpuRequests1 := s\<rparr>) (decode_string (CpuRequests1 q) v)
      else if f = ''mem_requests'' then map_option (\<lambda>s. q\<lparr>MemRequests1 := s\<rparr>) (decode_string (MemRequests1 q) v)
      else if f = ''cpu_limits'' then map_option (\<lambda>s. q\<lparr>CpuLimits1 := s\<rparr>) (decode_string (CpuLimits1 q) v)
      else if f = ''mem_limits'' then map_option (\<lambda>s. q\<lparr>MemLimits1 := s\<rparr>) (decode_string (MemLimits1 q) v)
      else Some q)"

definition decode_quotas1 :: "json \<Rightarrow> ResourceLimiterQuotas1 option" where
  "decode_quotas1 =
     decode_struct [''namespace'', ''cpu_requests'', ''mem_requests'', ''cpu_limits'', ''mem_limits'']
       put_quotas1 \<lparr>Namespace1 = '''', CpuRequests1 = '''', MemRequests1 = '''', CpuLimits1 = '''', MemLimits1 = ''''\<rparr>"

definition put_status1 :: "string \<Rightarrow> json \<Rightarrow> ResourceLimiterStatus1 \<Rightarrow> ResourceLimiterStatus1 option" where
  "put_status1 f v st =
     (if f = ''state'' then map_option (\<lambda>s. st\<lparr>State1 := s\<rparr>) (decode_string (State1 st) v)
      else if f = ''quotas''
        then map_option (\<lambda>m. st\<lparr>StatusQuotas1 := m\<rparr>) (decode_map decode_quotas1 (StatusQuotas1 st) v)
      else Some st)"

definition put_rl1 ::
  "(ObjectMeta \<Rightarrow> json \<Rightarrow> ObjectMeta option) \<Rightarrow> string \<Rightarrow> json \<Rightarrow> ResourceLimiter1 \<Rightarrow> ResourceLimiter1 option"
where
  "put_rl1 dm f v rl =
     (if f = ''metadata'' then map_option (\<lambda>m. rl\<lparr>Meta1 := m\<rparr>) (dm (Meta1 rl) v)
      else if f = ''spec''
        then map_option (\<lambda>sp. rl\<lparr>Spec1 := sp\<rparr>) (decode_struct spec1_fields put_spec1 (Spec1 rl) v)
      else if f = ''status''
        then map_option (\<lambda>st. rl\<lparr>Status1 := st\<rparr>) (decode_struct status_fields put_status1 (Status1 rl) v)
      else if f = ''kind'' \<or> f = ''apiVersion'' then map_option (\<lambda>_. rl) (decode_string '''' v)
      else Some rl)"

definition decode_rl1 :: "(ObjectMeta \<Rightarrow> json \<Rightarrow> ObjectMeta option) \<Rightarrow> json \<Rightarrow> ResourceLimiter1 option" where
  "decode_rl1 dm = decode_struct rl_fields (put_rl1 dm) empty_rl1"

section \<open>Marshalling\<close>

text \<open>\<open>omitempty\<close> leaves an empty string out.\<close>

definition opt_member :: "string \<Rightarrow> string \<Rightarrow> (string \<times> json) list" where
  "opt_member k s = (if s = '''' then [] else [(k, JStr s)])"

definition json_of_quota :: "ResourceLimiterQuota \<Rightarrow> json" where
  "json_of_quota q = JObj ([(''name'', JStr (NamespaceName q))] @ opt_member ''cpu_requests'' (CpuRequest q)
     @ opt_member ''mem_requests'' (MemRequest q) @ opt_member ''cpu_limits'' (CpuLimit q)
     @ opt_member ''mem_limits'' (MemLimit q))"

definition json_of_types :: "(string, string) gomap \<Rightarrow> json" where
  "json_of_types m = JObj (map (\<lambda>(k, v). (k, JStr v)) m)"

text \<open>The spec of v1beta1: \<open>omitempty\<close> leaves out empty slices and maps and the value \<open>false\<close>.\<close>

definition json_of_spec1 :: "ResourceLimiterSpec1 \<Rightarrow> json" where
  "json_of_spec1 sp = JObj
     ((if Targets sp = [] then [] else [(''targets'', JArr (map JStr (Targets sp)))]) @
      (if Types sp = [] then [] else [(''types'', json_of_types (Types sp))]) @
      (if Applied1 sp then [(''applied'', JBool True)] else []))"

lemmas field_list_defs = quota_fields_def spec_fields_def status_fields_def rl_fields_def spec1_fields_def

text \<open>What is marshalled is decoded again.\<close>

lemma decode_json_of_quota [simp]: "decode_quota (json_of_quota q) = Some q"
  by (cases q) (simp add: json_of_quota_def decode_quota_def opt_member_def put_quota_def
    quota_fields_def empty_quota_def)

lemma those_decode_strings [simp]: "those (map (decode_string '''') (map JStr ss)) = Some ss"
  by (induction ss) auto

lemma those_decode_quotas [simp]: "those (map decode_quota (map json_of_quota qs)) = Some qs"
  by (induction qs) auto

lemma decode_members_strings:
  "distinct (map fst ms) \<Longrightarrow> fst ` set ms \<inter> fst ` set m = {} \<Longrightarrow>
     decode_members (decode_string '''') m (map (\<lambda>(k, v). (k, JStr v)) ms) = Some (m @ ms)"
proof (induction ms arbitrary: m)
  case Nil
  then show ?case by simp
next
  case (Cons x ms)
  obtain k v where x: "x = (k, v)" by (cases x)
  with Cons.prems have "k \<notin> fst ` set m" by auto
  then have u: "AList.update k v m = m @ [(k, v)]" by (induction m) auto
  from Cons.prems x have "fst ` set ms \<inter> fst ` set (m @ [(k, v)]) = {}" by auto
  with Cons.IH[of "m @ [(k, v)]"] Cons.prems(1) x u show ?case by simp
qed

lemma decode_json_of_types:
  "distinct (map fst ts) \<Longrightarrow> decode_map (decode_string '''') [] (json_of_types ts) = Some ts"
  by (simp add: json_of_types_def decode_members_strings)

section \<open>The contracts of the struct decoders\<close>

lemma decode_string_refused: "decode_string c v = None \<longleftrightarrow> decode_string c' v = None"
  by (cases v) simp_all

lemma decode_bool_refused: "decode_bool c v = None \<longleftrightarrow> decode_bool c' v = None"
  by (cases v) simp_all

lemma decode_members_refused: "decode_members f m ms = None \<longleftrightarrow> (\<exists>x \<in> set ms. f (snd x) = None)"
  by (induction f m ms rule: decode_members.induct) (auto split: option.splits)

lemma decode_map_refused: "decode_map f c v = None \<longleftrightarrow> decode_map f c' v = None"
  by (cases v) (simp_all add: decode_members_refused)

lemma set_members_refused:
  assumes "\<And>f v r r'. put f v r = None \<longleftrightarrow> put f v r' = None"
  shows "set_members names put r ms = None \<longleftrightarrow> set_members names put r' ms = None"
proof (induction ms arbitrary: r r')
  case Nil
  then show ?case by simp
next
  case (Cons m ms)
  obtain k v where m: "m = (k, v)" by (cases m)
  show ?case
  proof (cases "field_of names k")
    case None
    with Cons m show ?thesis by simp
  next
    case (Some f)
    with Cons assms[of f v r r'] m show ?thesis by (auto split: option.splits)
  qed
qed

lemma decode_struct_refused:
  assumes "\<And>f v r r'. put f v r = None \<longleftrightarrow> put f v r' = None"
  shows "decode_struct names put r v = None \<longleftrightarrow> decode_struct names put r' v = None"
  using set_members_refused[of put, OF assms] by (cases v) simp_all

lemma put_spec_refused: "put_spec f v r = None \<longleftrightarrow> put_spec f v r' = None"
  using decode_bool_refused[of "Applied r" v "Applied r'"] by (simp add: put_spec_def)

lemma put_spec1_refused: "put_spec1 f v r = None \<longleftrightarrow> put_spec1 f v r' = None"
  using decode_bool_refused[of "Applied1 r" v "Applied1 r'"]
    decode_map_refused[of _ "Types r" v "Types r'"] by (simp add: put_spec1_def)

lemma put_status_refused: "put_status f v r = None \<longleftrightarrow> put_status f v r' = None"
  using decode_string_refused[of "State r" v "State r'"] by (simp add: put_status_def)

lemma put_status1_refused: "put_status1 f v r = None \<longleftrightarrow> put_status1 f v r' = None"
  using decode_string_refused[of "State1 r" v "State1 r'"]
    decode_map_refused[of _ "StatusQuotas1 r" v "StatusQuotas1 r'"] by (simp add: put_status1_def)

interpretation spec: json_struct spec_fields put_spec
  by unfold_locales (rule put_spec_refused)

interpretation spec1: json_struct spec1_fields put_spec1
  by unfold_locales (rule put_spec1_refused)

interpretation targets: json_field spec_fields put_spec "''targets''" Quotas "\<lambda>_. decode_list decode_quota"
  by unfold_locales (auto simp: put_spec_def split: if_splits)

interpretation applied: json_field spec_fields put_spec "''applied''" Applied decode_bool
  by unfold_locales (auto simp: put_spec_def split: if_splits)

interpretation targets1: json_field spec1_fields put_spec1 "''targets''" Targets
  "\<lambda>_. decode_list (decode_string '''')"
  by unfold_locales (auto simp: put_spec1_def split: if_splits)

interpretation types1: json_field spec1_fields put_spec1 "''types''" Types "decode_map (decode_string '''')"
  by unfold_locales (auto simp: put_spec1_def split: if_splits)

interpretation applied1: json_field spec1_fields put_spec1 "''applied''" Applied1 decode_bool
  by unfold_locales (auto simp: put_spec1_def split: if_splits)

text \<open>
  The metadata decoder is a parameter; what is relied on is that whether it refuses a value does not
  depend on what the struct holds.
\<close>

locale meta_decoder =
  fixes dm :: "ObjectMeta \<Rightarrow> json \<Rightarrow> ObjectMeta option"
  assumes dm_refused: "dm m v = None \<longleftrightarrow> dm m' v = None"

sublocale meta_decoder \<subseteq> rl: json_struct rl_fields "put_rl dm"
proof unfold_locales
  show "put_rl dm f v r = None \<longleftrightarrow> put_rl dm f v r' = None" for f v r r'
    using dm_refused[of "Meta r" v "Meta r'"]
      decode_struct_refused[where names = spec_fields and r = "Spec r" and v = v and r' = "Spec r'", OF put_spec_refused]
      decode_struct_refused[where names = status_fields and r = "Status r" and v = v and r' = "Status r'", OF put_status_refused]
    by (simp add: put_rl_def)
qed

sublocale meta_decoder \<subseteq> rl1: json_struct rl_fields "put_rl1 dm"
proof unfold_locales
  show "put_rl1 dm f v r = None \<longleftrightarrow> put_rl1 dm f v r' = None" for f v r r'
    using dm_refused[of "Meta1 r" v "Meta1 r'"]
      decode_struct_refused[where names = spec1_fields and r = "Spec1 r" and v = v and r' = "Spec1 r'", OF put_spec1_refused]
      decode_struct_refused[where names = status_fields and r = "Status1 r" and v = v and r' = "Status1 r'", OF put_status1_refused]
    by (simp add: put_rl1_def)
qed

sublocale meta_decoder \<subseteq> rl_spec: json_field rl_fields "put_rl dm" "''spec''" Spec
  "decode_struct spec_fields put_spec"
  by unfold_locales (auto simp: put_rl_def split: if_splits)

sublocale meta_decoder \<subseteq> rl1_spec: json_field rl_fields "put_rl1 dm" "''spec''" Spec1
  "decode_struct spec1_fields put_spec1"
  by unfold_locales (auto simp: put_rl1_def split: if_splits)

sublocale meta_decoder \<subseteq> rl_meta: json_field rl_fields "put_rl dm" "''metadata''" Meta dm
  by unfold_locales (auto simp: put_rl_def split: if_splits)

sublocale meta_decoder \<subseteq> rl1_meta: json_field rl_fields "put_rl1 dm" "''metadata''" Meta1 dm
  by unfold_locales (auto simp: put_rl1_def split: if_splits)

sublocale meta_decoder \<subseteq> rl_status: json_field rl_fields "put_rl dm" "''status''" Status
  "decode_struct status_fields put_status"
  by unfold_locales (auto simp: put_rl_def split: if_splits)

sublocale meta_decoder \<subseteq> rl1_status: json_field rl_fields "put_rl1 dm" "''status''" Status1
  "decode_struct status_fields put_status1"
  by unfold_locales (auto simp: put_rl1_def split: if_splits)

text \<open>A decoder of the metadata by its two members that are strings or lists of strings.\<close>

definition put_meta :: "string \<Rightarrow> json \<Rightarrow> ObjectMeta \<Rightarrow> ObjectMeta option" where
  "put_meta f v m =
     (if f = ''name'' then map_option (\<lambda>s. m\<lparr>Name := s\<rparr>) (decode_string (Name m) v)
      else if f = ''finalizers'' then map_option (\<lambda>fs. m\<lparr>Finalizers := fs\<rparr>) (decode_list (decode_string '''') v)
      else Some m)"

definition mem_meta :: "ObjectMeta \<Rightarrow> json \<Rightarrow> ObjectMeta option" where
  "mem_meta = decode_struct [''name'', ''finalizers''] put_meta"

lemma put_meta_refused: "put_meta f v r = None \<longleftrightarrow> put_meta f v r' = None"
  using decode_string_refused[of "Name r" v "Name r'"] by (simp add: put_meta_def)

interpretation memmeta: meta_decoder mem_meta
  by unfold_locales (auto simp: mem_meta_def intro: decode_struct_refused[OF put_meta_refused, THEN iffD1])

end
