(* ===== verification/Kube_Client.thy ===== *)
theory Kube_Client
  imports Api_Types
begin

text \<open>
  What the controller uses of code that is not its own: the client of controller-runtime through
  which it talks to the API server (\<open>client.Client\<close>, embedded in \<open>ResourceLimiterReconciler\<close>), and
  the helpers of controllerutil and of the quantity package. Both are parameters of the model,
  records of functions.

  A client works on a world of any type \<open>'w\<close>. What the code may rely on is stated once, in the
  locale \<open>kube_api\<close>, over an abstraction of that world, the \<open>cluster\<close>: the stored objects by key.
  Reads return the stored object; a write that succeeds has its documented effect; a write that
  fails has either not happened or has happened completely (the answer got lost). The locale
  \<open>reliable_api\<close> adds that no call fails without a reason in the cluster, which only the
  progress properties need. \<open>kube_lib\<close> holds the laws of the helpers. All three are interpreted on
  an in-memory API server, which the witnesses run.

  Not in this picture: reads are not stale, nobody else writes while a reconciliation runs, and
  resource versions and generations do not occur (the controller never reads them).
\<close>

section \<open>Objects of the core API\<close>

record Namespace =
  NsName :: string
  Labels :: "(string, string) gomap"

text \<open>\<open>Owner\<close> is the owner reference with \<open>controller: true\<close>, by the owner's name.\<close>

record 'q ResourceQuota =
  QuotaName :: string
  QuotaNamespace :: string
  Owner :: "string option"
  Hard :: "(string, 'q) gomap"
  Used :: "(string, 'q) gomap"

definition empty_rq :: "'q ResourceQuota" where
  "empty_rq = \<lparr>QuotaName = '''', QuotaNamespace = '''', Owner = None, Hard = [], Used = []\<rparr>"

text \<open>\<open>types.NamespacedName\<close>: the namespace, then the name.\<close>

type_synonym NamespacedName = "string \<times> string"

section \<open>The client and the helpers\<close>

text \<open>
  \<open>patch_rl C base obj\<close> sends the merge patch that leads from \<open>base\<close> to \<open>obj\<close>. \<open>client.MergeFrom\<close>
  is handed a pointer; whether the patch keeps the pointer or a copy of what it points to is the
  library's choice, so \<open>MergeFrom\<close> is a parameter that answers with one or the other.
\<close>

datatype merge_base = BaseRef nat | BaseCopy ResourceLimiter

record ('q, 'w) client =
  get_rl :: "string \<Rightarrow> 'w \<Rightarrow> (go_error + ResourceLimiter) \<times> 'w"
  patch_rl :: "ResourceLimiter \<Rightarrow> ResourceLimiter \<Rightarrow> 'w \<Rightarrow> go_error option \<times> 'w"
  update_status :: "ResourceLimiter \<Rightarrow> 'w \<Rightarrow> go_error option \<times> 'w"
  get_ns :: "NamespacedName \<Rightarrow> 'w \<Rightarrow> (go_error + Namespace) \<times> 'w"
  update_ns :: "Namespace \<Rightarrow> 'w \<Rightarrow> go_error option \<times> 'w"
  get_rq :: "NamespacedName \<Rightarrow> 'w \<Rightarrow> (go_error + 'q ResourceQuota) \<times> 'w"
  create_rq :: "'q ResourceQuota \<Rightarrow> 'w \<Rightarrow> go_error option \<times> 'w"
  update_rq :: "'q ResourceQuota \<Rightarrow> 'w \<Rightarrow> go_error option \<times> 'w"
  delete_rq :: "'q ResourceQuota \<Rightarrow> 'w \<Rightarrow> go_error option \<times> 'w"

text \<open>\<open>MustParse\<close> answers with the quantity or panics with a message (\<open>Inl\<close>).\<close>

record 'q lib =
  MustParse :: "string \<Rightarrow> string + 'q"
  QuantityString :: "'q \<Rightarrow> string"
  QuantityZero :: 'q
  ContainsFinalizer :: "ResourceLimiter \<Rightarrow> string \<Rightarrow> bool"
  AddFinalizer :: "ResourceLimiter \<Rightarrow> string \<Rightarrow> ResourceLimiter"
  RemoveFinalizer :: "ResourceLimiter \<Rightarrow> string \<Rightarrow> ResourceLimiter"
  MergeFrom :: "nat \<Rightarrow> ResourceLimiter \<Rightarrow> merge_base"
  SetControllerReference :: "ResourceLimiter \<Rightarrow> 'q ResourceQuota \<Rightarrow> go_error + 'q ResourceQuota"

section \<open>The cluster and the effect of the writes\<close>

record 'q cluster =
  Rls :: "string \<rightharpoonup> ResourceLimiter"
  Nss :: "string \<rightharpoonup> Namespace"
  Rqs :: "NamespacedName \<rightharpoonup> 'q ResourceQuota"

abbreviation key_of :: "'q ResourceQuota \<Rightarrow> NamespacedName" where
  "key_of rq \<equiv> (QuotaNamespace rq, QuotaName rq)"

abbreviation rl_name :: "ResourceLimiter \<Rightarrow> string" where
  "rl_name rl \<equiv> Name (Meta rl)"

definition set_finalizers :: "string list \<Rightarrow> ResourceLimiter \<Rightarrow> ResourceLimiter" where
  "set_finalizers fs rl = rl\<lparr>Meta := (Meta rl)\<lparr>Finalizers := fs\<rparr>\<rparr>"

definition eff_update_ns :: "Namespace \<Rightarrow> 'q cluster \<Rightarrow> 'q cluster" where
  "eff_update_ns n c = c\<lparr>Nss := (Nss c)(NsName n \<mapsto> n)\<rparr>"

definition eff_create_rq :: "'q ResourceQuota \<Rightarrow> 'q cluster \<Rightarrow> 'q cluster" where
  "eff_create_rq rq c = c\<lparr>Rqs := (Rqs c)(key_of rq \<mapsto> rq)\<rparr>"

text \<open>An update of a quota does not write its status.\<close>

definition eff_update_rq :: "'q ResourceQuota \<Rightarrow> 'q cluster \<Rightarrow> 'q cluster" where
  "eff_update_rq rq c =
     (case Rqs c (key_of rq) of None \<Rightarrow> c
      | Some old \<Rightarrow> c\<lparr>Rqs := (Rqs c)(key_of rq \<mapsto> rq\<lparr>Used := Used old\<rparr>)\<rparr>)"

definition eff_delete_rq :: "'q ResourceQuota \<Rightarrow> 'q cluster \<Rightarrow> 'q cluster" where
  "eff_delete_rq rq c = c\<lparr>Rqs := (Rqs c)(key_of rq := None)\<rparr>"

text \<open>A status update writes the status and nothing else.\<close>

definition eff_status :: "ResourceLimiter \<Rightarrow> 'q cluster \<Rightarrow> 'q cluster" where
  "eff_status rl c =
     (case Rls c (rl_name rl) of None \<Rightarrow> c
      | Some old \<Rightarrow> c\<lparr>Rls := (Rls c)(rl_name rl \<mapsto> old\<lparr>Status := Status rl\<rparr>)\<rparr>)"

text \<open>
  A merge patch between two objects that differ in their finalizers at most: no difference, no
  change; otherwise the list is replaced, and an object under deletion whose last finalizer went
  away is gone.
\<close>

definition eff_patch :: "ResourceLimiter \<Rightarrow> ResourceLimiter \<Rightarrow> 'q cluster \<Rightarrow> 'q cluster" where
  "eff_patch base obj c =
     (case Rls c (rl_name obj) of None \<Rightarrow> c
      | Some old \<Rightarrow>
          if Finalizers (Meta base) = Finalizers (Meta obj) then c
          else if DeletionTimestamp (Meta old) \<noteq> None \<and> Finalizers (Meta obj) = []
               then c\<lparr>Rls := (Rls c)(rl_name obj := None)\<rparr>
               else c\<lparr>Rls := (Rls c)(rl_name obj \<mapsto> set_finalizers (Finalizers (Meta obj)) old)\<rparr>)"

lemmas eff_defs = eff_update_ns_def eff_create_rq_def eff_update_rq_def eff_delete_rq_def
  eff_status_def eff_patch_def

lemma set_finalizers_sel [simp]:
  "Finalizers (Meta (set_finalizers fs rl)) = fs"
  "rl_name (set_finalizers fs rl) = rl_name rl"
  "DeletionTimestamp (Meta (set_finalizers fs rl)) = DeletionTimestamp (Meta rl)"
  "Spec (set_finalizers fs rl) = Spec rl"
  "Status (set_finalizers fs rl) = Status rl"
  by (simp_all add: set_finalizers_def)

lemma set_finalizers_id [simp]: "set_finalizers (Finalizers (Meta rl)) rl = rl"
  by (simp add: set_finalizers_def)

end
