(* ===== verification/Admission.thy ===== *)
theory Admission
  imports Api_Json Kube_Client
begin

text \<open>
  What the two admission webhooks of \<open>pkg/cmd/webhook.go\<close> share: the admission API, the HTTP side of
  a handler, and the code outside the repository they call, the record \<open>wire\<close>.

  The raw object of a request is a \<open>json.RawMessage\<close>: it has been checked to be JSON when the
  review was decoded, so it is a JSON value, or nothing. Decoding the review itself, encoding the
  answer, and the structs of the core API with their quantities are parameters. A handler writes to
  a \<open>ResponseWriter\<close>: a status code, sent once, and the pieces of the body. A panic that leaves the
  handler is caught by the HTTP server, which drops the connection (\<open>Aborted\<close>).
\<close>

section \<open>The admission API\<close>

record AdmissionRequest =
  UID :: string
  Kind :: string
  Version :: string
  ReqName :: string
  ObjectRaw :: "json option"

text \<open>\<open>Result\<close> is used for its message only.\<close>

record AdmissionResponse =
  RespUID :: string
  Allowed :: bool
  Message :: "string option"
  Patch :: "json option"
  PatchType :: "string option"

record AdmissionReview =
  APIVersion :: string
  ReviewKind :: string
  Request :: "AdmissionRequest option"
  Response :: "AdmissionResponse option"

definition empty_response :: AdmissionResponse where
  "empty_response = \<lparr>RespUID = '''', Allowed = False, Message = None, Patch = None, PatchType = None\<rparr>"

text \<open>\<open>&AdmissionResponse{Result: &metav1.Status{Message: m}}\<close>: the zero value of \<open>Allowed\<close> denies.\<close>

definition denied :: "string \<Rightarrow> AdmissionResponse" where
  "denied m = empty_response\<lparr>Message := Some m\<rparr>"

lemma denied_sel [simp]: "Allowed (denied m) = False" "Message (denied m) = Some m"
  "RespUID (denied m) = ''''" "Patch (denied m) = None" "PatchType (denied m) = None"
  by (simp_all add: denied_def empty_response_def)

section \<open>Workloads and the code outside\<close>

record 'q Container =
  Limits :: "(string, 'q) gomap option"
  Requests :: "(string, 'q) gomap option"

record 'q Workload =
  WorkloadName :: string
  Containers :: "'q Container list"

record 'q wire =
  decode_review :: "string \<Rightarrow> string option \<times> AdmissionReview"
  encode_review :: "AdmissionReview \<Rightarrow> string + string"
  write_error :: "string \<Rightarrow> string option"
  decode_meta :: "ObjectMeta \<Rightarrow> json \<Rightarrow> ObjectMeta option"
  unmarshal_error :: "json option \<Rightarrow> string"
  unmarshal_pod :: "json option \<Rightarrow> string + 'q Workload"
  unmarshal_deployment :: "json option \<Rightarrow> string + 'q Workload"
  unmarshal_daemonset :: "json option \<Rightarrow> string + 'q Workload"
  cpu_of :: "(string, 'q) gomap \<Rightarrow> 'q"
  memory_of :: "(string, 'q) gomap \<Rightarrow> 'q"

text \<open>\<open>json.Unmarshal(req.Object.Raw, &rl)\<close>; the text of the error is the library's.\<close>

definition unmarshal_rl :: "'q wire \<Rightarrow> json option \<Rightarrow> string + ResourceLimiter" where
  "unmarshal_rl D raw =
     (case Option.bind raw (decode_rl (decode_meta D)) of
        None \<Rightarrow> Inl (unmarshal_error D raw) | Some rl \<Rightarrow> Inr rl)"

definition unmarshal_rl1 :: "'q wire \<Rightarrow> json option \<Rightarrow> string + ResourceLimiter1" where
  "unmarshal_rl1 D raw =
     (case Option.bind raw (decode_rl1 (decode_meta D)) of
        None \<Rightarrow> Inl (unmarshal_error D raw) | Some rl \<Rightarrow> Inr rl)"

section \<open>The HTTP side\<close>

text \<open>\<open>ReqBody\<close> is \<open>None\<close> for a request without a body, \<open>Inl\<close> when reading it fails.\<close>

record http_request =
  ReqBody :: "(string + string) option"
  ContentType :: string

record ResponseWriter =
  StatusCode :: "nat option"
  Written :: "string list"

definition empty_writer :: ResponseWriter where
  "empty_writer = \<lparr>StatusCode = None, Written = []\<rparr>"

definition WriteHeader :: "nat \<Rightarrow> ResponseWriter \<Rightarrow> ResponseWriter" where
  "WriteHeader code w = (if StatusCode w = None then w\<lparr>StatusCode := Some code\<rparr> else w)"

definition write_body :: "string \<Rightarrow> ResponseWriter \<Rightarrow> ResponseWriter" where
  "write_body s w = (let w' = WriteHeader 200 w in w'\<lparr>Written := Written w' @ [s]\<rparr>)"

definition http_Error :: "string \<Rightarrow> nat \<Rightarrow> ResponseWriter \<Rightarrow> ResponseWriter" where
  "http_Error msg code w = write_body (msg @ [CHR 0x0A]) (WriteHeader code w)"

datatype handled = Served ResponseWriter | Aborted string

definition nil_deref :: string where
  "nil_deref = ''runtime error: invalid memory address or nil pointer dereference''"

definition read_body :: "http_request \<Rightarrow> string" where
  "read_body r = (case ReqBody r of Some (Inr data) \<Rightarrow> data | _ \<Rightarrow> '''')"

text \<open>The review that answers \<open>ar\<close>, and the end of both handlers: it is encoded and written.\<close>

definition answer :: "AdmissionReview \<Rightarrow> AdmissionResponse option \<Rightarrow> AdmissionReview" where
  "answer ar admissionResponse =
     \<lparr>APIVersion = ''admission.k8s.io/v1'', ReviewKind = ''AdmissionReview'', Request = None,
      Response = (case admissionResponse of None \<Rightarrow> None
        | Some resp \<Rightarrow> Some (case Request ar of None \<Rightarrow> resp | Some req \<Rightarrow> resp\<lparr>RespUID := UID req\<rparr>))\<rparr>"

definition send_answer ::
  "'q wire \<Rightarrow> AdmissionReview \<Rightarrow> AdmissionResponse option \<Rightarrow> ResponseWriter \<Rightarrow> ResponseWriter" where
  "send_answer D ar admissionResponse w =
     (let (resp, w1) = (case encode_review D (answer ar admissionResponse) of
            Inl err \<Rightarrow> ('''', http_Error (''could not encode response: '' @ err) 500 w)
          | Inr resp \<Rightarrow> (resp, w))
      in case write_error D resp of
           None \<Rightarrow> write_body resp w1
         | Some err \<Rightarrow> http_Error (''could not write response: '' @ err) 500 (WriteHeader 200 w1))"

text \<open>When the encoder and the connection work, exactly the encoded answer is written.\<close>

lemma send_answer_ok:
  assumes "encode_review D (answer ar r) = Inr s" and "write_error D s = None"
  shows "send_answer D ar r empty_writer = \<lparr>StatusCode = Some 200, Written = [s]\<rparr>"
  using assms by (simp add: send_answer_def write_body_def WriteHeader_def empty_writer_def)

end
