(* ===== verification/Conversion_Service.thy ===== *)
theory Conversion_Service
  imports Hub_Conversion Admission
begin

text \<open>
  The conversion webhook, \<open>pkg/conversion/conversion.go\<close>: the two converters, \<open>doConversion\<close>, the
  choice of serializers, and the handler \<open>serveConvert\<close>. The code works on the untyped form of an
  object (\<open>unstructured.Unstructured\<close>), a Go map of \<open>interface{}\<close> values, and takes it apart with
  type assertions that panic when the value is missing or of another kind. Here such a map is a
  JSON object whose keys are distinct; a type assertion answers with the value or \<open>Inl\<close>, the panic.
  Parsing the raw object, decoding and encoding the review and parsing the Accept header are
  library code, the record \<open>converter\<close>.
\<close>

section \<open>Statuses and the two converters\<close>

record ConvStatus =
  ConvState :: string
  ConvMessage :: string

definition StatusSuccess :: string where [go_defs]: "StatusSuccess = ''Success''"
definition StatusFailure :: string where [go_defs]: "StatusFailure = ''Failure''"

definition statusErrorWithMessage :: "string \<Rightarrow> ConvStatus" where
  "statusErrorWithMessage msg = \<lparr>ConvState = StatusFailure, ConvMessage = msg\<rparr>"

definition statusSucceed :: ConvStatus where
  "statusSucceed = \<lparr>ConvState = StatusSuccess, ConvMessage = ''''\<rparr>"

text \<open>The verb \<open>%q\<close>, for names without special characters.\<close>

definition quoted :: "string \<Rightarrow> string" where
  "quoted s = [CHR 0x22] @ s @ [CHR 0x22]"

definition convertV1beta1IntoV1beta2 :: "ResourceLimiter1 \<Rightarrow> hub option \<times> ConvStatus" where
  "convertV1beta1IntoV1beta2 oldObject =
     (let fromVersion = ''resources.resourcelimiter.io/v1beta1'';
          toVersion = ''resources.resourcelimiter.io/v1beta2''
      in if toVersion = fromVersion
         then (None, statusErrorWithMessage
           (''conversion from a version to itself should not call the webhook: '' @ toVersion))
         else case ConvertTo oldObject (HubV1beta2 empty_rl) of
                (Some err, _) \<Rightarrow> (None, statusErrorWithMessage
                  (''failed to convert from '' @ quoted fromVersion @ '' into '' @ quoted toVersion))
              | (None, newObject) \<Rightarrow> (Some newObject, statusSucceed))"

definition convertV1beta2IntoV1beta1 :: "ResourceLimiter \<Rightarrow> ResourceLimiter1 option \<times> ConvStatus" where
  "convertV1beta2IntoV1beta1 newObject =
     (let fromVersion = ''resources.resourcelimiter.io/v1beta2'';
          toVersion = ''resources.resourcelimiter.io/v1beta1''
      in if toVersion = fromVersion
         then (None, statusErrorWithMessage
           (''conversion from a version to itself should not call the webhook: '' @ toVersion))
         else case ConvertFrom empty_rl1 (HubV1beta2 newObject) of
                (Some err, _) \<Rightarrow> (None, statusErrorWithMessage
                  (''failed to convert from '' @ quoted fromVersion @ '' into '' @ quoted toVersion))
              | (None, oldObject) \<Rightarrow> (Some oldObject, statusSucceed))"

section \<open>Type assertions\<close>

type_synonym 'a guarded_value = "string + 'a"

definition and_then :: "'a guarded_value \<Rightarrow> ('a \<Rightarrow> 'b guarded_value) \<Rightarrow> 'b guarded_value" where
  "and_then x f = (case x of Inl p \<Rightarrow> Inl p | Inr a \<Rightarrow> f a)"

definition bad_assertion :: string where
  "bad_assertion = ''interface conversion: interface {} is of another type''"

fun as_map :: "json option \<Rightarrow> (string \<times> json) list guarded_value" where
  "as_map (Some (JObj m)) = Inr m" | "as_map _ = Inl bad_assertion"

fun as_slice :: "json option \<Rightarrow> json list guarded_value" where
  "as_slice (Some (JArr xs)) = Inr xs" | "as_slice _ = Inl bad_assertion"

fun as_string :: "json option \<Rightarrow> string guarded_value" where
  "as_string (Some (JStr s)) = Inr s" | "as_string _ = Inl bad_assertion"

fun as_bool :: "json option \<Rightarrow> bool guarded_value" where
  "as_bool (Some (JBool b)) = Inr b" | "as_bool _ = Inl bad_assertion"

fun each :: "('a \<Rightarrow> 'b guarded_value) \<Rightarrow> 'a list \<Rightarrow> 'b list guarded_value" where
  "each f [] = Inr []"
| "each f (x # xs) = and_then (f x) (\<lambda>y. and_then (each f xs) (\<lambda>ys. Inr (y # ys)))"

text \<open>Lines 197 to 214 and 234 to 253.\<close>

definition read_v1beta1 :: "(string \<times> json) list \<Rightarrow> ResourceLimiter1 guarded_value" where
  "read_v1beta1 unstructuredCR =
     and_then (as_map (map_of unstructuredCR ''spec'')) (\<lambda>specObject.
     and_then (as_slice (map_of specObject ''targets'')) (\<lambda>items.
     and_then (each (\<lambda>item. as_string (Some item)) items) (\<lambda>targets.
     and_then (as_map (map_of specObject ''types'')) (\<lambda>members.
     and_then (each (\<lambda>(k, v). and_then (as_string (Some v)) (\<lambda>s. Inr (k, s))) members) (\<lambda>types.
     and_then (as_bool (map_of specObject ''applied'')) (\<lambda>applied.
       Inr (empty_rl1\<lparr>Spec1 := \<lparr>Targets = targets, Types = types, Applied1 = applied\<rparr>\<rparr>)))))))"

definition read_quota :: "json \<Rightarrow> ResourceLimiterQuota guarded_value" where
  "read_quota item =
     and_then (as_map (Some item)) (\<lambda>itemMap.
     and_then (as_string (map_of itemMap ''name'')) (\<lambda>name.
     and_then (as_string (map_of itemMap ''cpu_requests'')) (\<lambda>cpuRequest.
     and_then (as_string (map_of itemMap ''cpu_limits'')) (\<lambda>cpuLimit.
     and_then (as_string (map_of itemMap ''mem_requests'')) (\<lambda>memRequest.
     and_then (as_string (map_of itemMap ''mem_limits'')) (\<lambda>memLimit.
       Inr \<lparr>NamespaceName = name, CpuRequest = cpuRequest, MemRequest = memRequest,
            CpuLimit = cpuLimit, MemLimit = memLimit\<rparr>))))))"

definition read_v1beta2 :: "(string \<times> json) list \<Rightarrow> ResourceLimiter guarded_value" where
  "read_v1beta2 unstructuredCR =
     and_then (as_map (map_of unstructuredCR ''spec'')) (\<lambda>specObject.
     and_then (as_slice (map_of specObject ''targets'')) (\<lambda>items.
     and_then (each read_quota items) (\<lambda>quotas.
     and_then (as_bool (map_of specObject ''applied'')) (\<lambda>applied.
       Inr (empty_rl\<lparr>Spec := \<lparr>Quotas = quotas, Applied = applied\<rparr>\<rparr>)))))"

section \<open>doConversion\<close>

datatype converted = AsV1beta2 hub | AsV1beta1 ResourceLimiter1

record ConversionRequest =
  ConvReqUID :: string
  DesiredAPIVersion :: string
  Objects :: "json option list"

record ConversionResponse =
  ConvRespUID :: string
  ConvertedObjects :: "converted list"
  ConvResult :: ConvStatus

datatype serializer = JsonSerializer | YamlSerializer

record converter =
  UnmarshalJSON :: "json option \<Rightarrow> string + (string \<times> json) list"
  raw_text :: "json option \<Rightarrow> string"
  decode_conversion :: "serializer \<Rightarrow> string \<Rightarrow> string option \<times> ConversionRequest option"
  encode_conversion :: "serializer \<Rightarrow> ConversionResponse \<Rightarrow> string + string"
  ParseAccept :: "string \<Rightarrow> (string \<times> string) list"

definition conversionResponseFailureWithMessagef :: "string \<Rightarrow> ConversionResponse" where
  "conversionResponseFailureWithMessagef msg = \<lparr>ConvRespUID = '''', ConvertedObjects = [],
     ConvResult = \<lparr>ConvState = StatusFailure, ConvMessage = msg\<rparr>\<rparr>"

definition unmarshal_failure :: "converter \<Rightarrow> json option \<Rightarrow> string \<Rightarrow> ConversionResponse" where
  "unmarshal_failure V obj err = conversionResponseFailureWithMessagef
     (''failed to unmarshall object ('' @ raw_text V obj @ '') with error: '' @ err)"

text \<open>The two loops: a panic, an early response (\<open>Inr (Inl _)\<close>), or the objects converted so far.\<close>

fun convert_all_to_v1beta2 ::
  "converter \<Rightarrow> json option list \<Rightarrow> converted list \<Rightarrow> (ConversionResponse + converted list) guarded_value" where
  "convert_all_to_v1beta2 V [] convertedObjects = Inr (Inr convertedObjects)"
| "convert_all_to_v1beta2 V (obj # objs) convertedObjects =
     (case UnmarshalJSON V obj of
        Inl err \<Rightarrow> Inr (Inl (unmarshal_failure V obj err))
      | Inr unstructuredCR \<Rightarrow>
          and_then (read_v1beta1 unstructuredCR) (\<lambda>cr.
            case convertV1beta1IntoV1beta2 cr of
              (Some newVer, status) \<Rightarrow>
                if ConvState status \<noteq> StatusSuccess
                then Inr (Inl \<lparr>ConvRespUID = '''', ConvertedObjects = [], ConvResult = status\<rparr>)
                else convert_all_to_v1beta2 V objs (convertedObjects @ [AsV1beta2 newVer])
            | (None, status) \<Rightarrow>
                Inr (Inl \<lparr>ConvRespUID = '''', ConvertedObjects = [], ConvResult = status\<rparr>)))"

fun convert_all_to_v1beta1 ::
  "converter \<Rightarrow> json option list \<Rightarrow> converted list \<Rightarrow> (ConversionResponse + converted list) guarded_value" where
  "convert_all_to_v1beta1 V [] convertedObjects = Inr (Inr convertedObjects)"
| "convert_all_to_v1beta1 V (obj # objs) convertedObjects =
     (case UnmarshalJSON V obj of
        Inl err \<Rightarrow> Inr (Inl (unmarshal_failure V obj err))
      | Inr unstructuredCR \<Rightarrow>
          and_then (read_v1beta2 unstructuredCR) (\<lambda>cr.
            case convertV1beta2IntoV1beta1 cr of
              (Some oldVer, status) \<Rightarrow>
                if ConvState status \<noteq> StatusSuccess
                then Inr (Inl \<lparr>ConvRespUID = '''', ConvertedObjects = [], ConvResult = status\<rparr>)
                else convert_all_to_v1beta1 V objs (convertedObjects @ [AsV1beta1 oldVer])
            | (None, status) \<Rightarrow>
                Inr (Inl \<lparr>ConvRespUID = '''', ConvertedObjects = [], ConvResult = status\<rparr>)))"

definition finish_conversion ::
  "(ConversionResponse + converted list) guarded_value \<Rightarrow> ConversionResponse guarded_value" where
  "finish_conversion r = and_then r (\<lambda>x. case x of
       Inl response \<Rightarrow> Inr response
     | Inr convertedObjects \<Rightarrow> Inr \<lparr>ConvRespUID = '''', ConvertedObjects = convertedObjects,
         ConvResult = statusSucceed\<rparr>)"

definition doConversion :: "converter \<Rightarrow> ConversionRequest option \<Rightarrow> ConversionResponse guarded_value" where
  "doConversion V convertRequest =
     (case convertRequest of
        None \<Rightarrow> Inl nil_deref
      | Some req \<Rightarrow>
          if DesiredAPIVersion req = ''resources.resourcelimiter.io/v1beta2''
          then finish_conversion (convert_all_to_v1beta2 V (Objects req) [])
          else if DesiredAPIVersion req = ''resources.resourcelimiter.io/v1beta1''
          then finish_conversion (convert_all_to_v1beta1 V (Objects req) [])
          else Inr \<lparr>ConvRespUID = '''', ConvertedObjects = [],
                 ConvResult = statusErrorWithMessage ''failed to do the conversion''\<rparr>)"

section \<open>The serializers and the handler\<close>

definition serializers :: "((string \<times> string) \<times> serializer) list" where
  "serializers = [((''application'', ''json''), JsonSerializer), ((''application'', ''yaml''), YamlSerializer)]"

text \<open>\<open>strings.SplitN(contentType, "/", 2)\<close> gives two parts when there is a slash.\<close>

definition getInputSerializer :: "string \<Rightarrow> serializer option" where
  "getInputSerializer contentType =
     (case dropWhile (\<lambda>c. c \<noteq> CHR ''/'') contentType of
        [] \<Rightarrow> None
      | _ # rest \<Rightarrow> map_of serializers (takeWhile (\<lambda>c. c \<noteq> CHR ''/'') contentType, rest))"

text \<open>The range over the map \<open>serializers\<close> visits its entries in some order, \<open>order\<close>.\<close>

definition clause_matches :: "string \<times> string \<Rightarrow> string \<times> string \<Rightarrow> bool" where
  "clause_matches clause k \<longleftrightarrow>
     fst clause = fst k \<and> snd clause = snd k \<or>
     fst clause = fst k \<and> snd clause = ''*'' \<or>
     fst clause = ''*'' \<and> snd clause = ''*''"

fun pick_serializer ::
  "(string \<times> string) list \<Rightarrow> ((string \<times> string) \<times> serializer) list \<Rightarrow> serializer option" where
  "pick_serializer [] order = None"
| "pick_serializer (clause # clauses) order =
     (case List.find (\<lambda>(k, v). clause_matches clause k) order of
        Some (k, v) \<Rightarrow> Some v
      | None \<Rightarrow> pick_serializer clauses order)"

definition getOutputSerializer ::
  "converter \<Rightarrow> ((string \<times> string) \<times> serializer) list \<Rightarrow> string \<Rightarrow> serializer option" where
  "getOutputSerializer V order accept =
     (if length accept = 0 then map_of serializers (''application'', ''json'')
      else pick_serializer (ParseAccept V accept) order)"

definition serveConvert ::
  "converter \<Rightarrow> ((string \<times> string) \<times> serializer) list \<Rightarrow> http_request \<Rightarrow> string \<Rightarrow> handled" where
  "serveConvert V order r accept =
     (let w = empty_writer; body = read_body r; contentType = ContentType r
      in case getInputSerializer contentType of
           None \<Rightarrow> Served (http_Error (''invalid Content-Type header `'' @ contentType @ ''`'') 400 w)
         | Some serializer \<Rightarrow>
             let (err, request) = decode_conversion V serializer body;
                 response = (case err of
                     Some e \<Rightarrow> Inr (conversionResponseFailureWithMessagef
                       (''failed to deserialize body ('' @ body @ '') with error '' @ e))
                   | None \<Rightarrow> and_then (doConversion V request) (\<lambda>response.
                       Inr (response\<lparr>ConvRespUID := ConvReqUID (the request)\<rparr>)))
             in case response of
                  Inl p \<Rightarrow> Aborted p
                | Inr response \<Rightarrow>
                    (case getOutputSerializer V order accept of
                       None \<Rightarrow> Served (http_Error (''invalid accept header `'' @ accept @ ''`'') 400 w)
                     | Some outSerializer \<Rightarrow>
                         (case encode_conversion V outSerializer response of
                            Inl e \<Rightarrow> Served (http_Error e 500 w)
                          | Inr text \<Rightarrow> Served (write_body text w))))"

end
