(* ===== verification/Mutate.thy ===== *)
theory Mutate
  imports Admission
begin

text \<open>
  The mutating webhook of \<open>pkg/cmd/webhook.go\<close>: \<open>createPatchV1beta1\<close> and \<open>createPatchV1beta2\<close> with
  what they call, \<open>mutate\<close>, and the handler \<open>ServeMutate\<close>. A patch value is an \<open>interface{}\<close>: the
  constructors of \<open>patch_value\<close> are the five types the code puts there. A nil slice of operations
  marshals as \<open>null\<close>.
\<close>

section \<open>Patches\<close>

datatype patch_value =
    TypesValue "(string, string) gomap"
  | TargetsValue "string list"
  | TargetValue string
  | QuotasValue "ResourceLimiterQuota list"
  | QuotaValue ResourceLimiterQuota

record patchOperation =
  Op :: string
  Path :: string
  Value :: patch_value

fun json_of_value :: "patch_value \<Rightarrow> json" where
  "json_of_value (TypesValue m) = json_of_types m"
| "json_of_value (TargetsValue ts) = JArr (map JStr ts)"
| "json_of_value (TargetValue t) = JStr t"
| "json_of_value (QuotasValue qs) = JArr (map json_of_quota qs)"
| "json_of_value (QuotaValue q) = json_of_quota q"

definition json_of_operation :: "patchOperation \<Rightarrow> json" where
  "json_of_operation p =
     JObj [(''op'', JStr (Op p)), (''path'', JStr (Path p)), (''value'', json_of_value (Value p))]"

definition marshal_patch :: "patchOperation list \<Rightarrow> string + json" where
  "marshal_patch patch = Inr (if patch = [] then JNull else JArr (map json_of_operation patch))"

section \<open>v1beta1\<close>

definition mutationRequiredV1beta1 :: "ResourceLimiter1 \<Rightarrow> bool \<times> bool" where
  "mutationRequiredV1beta1 rl =
     (let requiredTypes = False; requiredTargets = False;
          requiredTargets = (if length (Targets (Spec1 rl)) = 0 then True else requiredTargets);
          requiredTypes = (if length (Types (Spec1 rl)) = 0 then True else requiredTypes);
          requiredTypes = (if map_of (Types (Spec1 rl)) RetrainTypeLimitsCpu = None then True else requiredTypes);
          requiredTypes = (if map_of (Types (Spec1 rl)) RetrainTypeLimitsMemory = None then True else requiredTypes);
          requiredTypes = (if map_of (Types (Spec1 rl)) RetrainTypeRequestsCpu = None then True else requiredTypes);
          requiredTypes = (if map_of (Types (Spec1 rl)) RetrainTypeRequestsMemory = None then True else requiredTypes)
      in (requiredTypes, requiredTargets))"

definition updateResourceLimiterTypesV1beta1 :: "(string, string) gomap \<Rightarrow> patchOperation list" where
  "updateResourceLimiterTypesV1beta1 added =
     [\<lparr>Op = ''add'', Path = ''/spec/types'', Value = TypesValue added\<rparr>]"

text \<open>The loop variables are \<open>target\<close> and \<open>patch\<close>; an empty \<open>target\<close> stays empty.\<close>

definition updateResourceLimiterTargetsV1beta1 :: "string list \<Rightarrow> string list \<Rightarrow> patchOperation list" where
  "updateResourceLimiterTargetsV1beta1 target added =
     snd (foldl (\<lambda>(target, patch) item.
       if length target = 0
       then ([], patch @ [\<lparr>Op = ''add'', Path = ''/spec/targets'', Value = TargetsValue [item]\<rparr>])
       else (target, patch @ [\<lparr>Op = ''add'', Path = ''/spec/targets/-'', Value = TargetValue item\<rparr>]))
       (target, []) added)"

definition createPatchV1beta1 :: "ResourceLimiter1 \<Rightarrow> ResourceLimiter1 \<Rightarrow> string + json" where
  "createPatchV1beta1 rl desired =
     (let (requiredTypes, requiredTargets) = mutationRequiredV1beta1 rl;
          patch = [];
          patch = (if requiredTypes
            then patch @ updateResourceLimiterTypesV1beta1 (Types (Spec1 desired)) else patch);
          patch = (if requiredTargets
            then patch @ updateResourceLimiterTargetsV1beta1 (Targets (Spec1 rl)) (Targets (Spec1 desired))
            else patch)
      in marshal_patch patch)"

section \<open>v1beta2\<close>

definition mutationRequiredV1beta2 :: "ResourceLimiter \<Rightarrow> (string, bool) gomap" where
  "mutationRequiredV1beta2 rl =
     (if length (Quotas (Spec rl)) = 0 then [(''default'', True)]
      else foldl (\<lambda>requiredQuotas v.
        if CpuLimit v = '''' \<or> CpuRequest v = '''' \<or> MemLimit v = '''' \<or> MemRequest v = ''''
        then AList.update (NamespaceName v) True requiredQuotas else requiredQuotas) [] (Quotas (Spec rl)))"

definition updateResourceLimiterQuotasV1beta2 ::
  "ResourceLimiterQuota list \<Rightarrow> ResourceLimiterQuota list \<Rightarrow> patchOperation list" where
  "updateResourceLimiterQuotasV1beta2 target added =
     snd (foldl (\<lambda>(target, patch) item.
       if length target = 0
       then ([], patch @ [\<lparr>Op = ''add'', Path = ''/spec/targets'', Value = QuotasValue [item]\<rparr>])
       else (target, patch @ [\<lparr>Op = ''add'', Path = ''/spec/targets/-'', Value = QuotaValue item\<rparr>]))
       (target, []) added)"

definition createPatchV1beta2 :: "ResourceLimiter \<Rightarrow> ResourceLimiter \<Rightarrow> string + json" where
  "createPatchV1beta2 rl desired =
     (let rl = rl\<lparr>Spec := (Spec rl)\<lparr>Quotas := []\<rparr>\<rparr>;
          requiredQuotas = mutationRequiredV1beta2 rl;
          patch = foldl (\<lambda>patch (k, v).
            foldl (\<lambda>patch quota.
              if v \<and> k = NamespaceName quota
              then patch @ updateResourceLimiterQuotasV1beta2 (Quotas (Spec rl))
                [\<lparr>NamespaceName = NamespaceName quota, CpuRequest = ''1'', MemRequest = ''150Mi'',
                   CpuLimit = ''2'', MemLimit = ''200Mi''\<rparr>]
              else patch) patch (Quotas (Spec desired))) [] requiredQuotas
      in marshal_patch patch)"

section \<open>mutate\<close>

text \<open>\<open>Inl\<close>: the code panics, on a review without a request.\<close>

definition patched :: "json \<Rightarrow> AdmissionResponse" where
  "patched patchBytes = empty_response\<lparr>Allowed := True, Patch := Some patchBytes, PatchType := Some ''JSONPatch''\<rparr>"

definition desired_v1beta1 :: ResourceLimiter1 where
  "desired_v1beta1 = empty_rl1\<lparr>Spec1 :=
     \<lparr>Targets = [''default''],
      Types = [(RetrainTypeLimitsCpu, ''2''), (RetrainTypeLimitsMemory, ''200Mi''),
               (RetrainTypeRequestsCpu, ''1''), (RetrainTypeRequestsMemory, ''150Mi'')],
      Applied1 = False\<rparr>\<rparr>"

definition desired_v1beta2 :: "ResourceLimiter \<Rightarrow> ResourceLimiter" where
  "desired_v1beta2 rl =
     (let desired = empty_rl\<lparr>Spec := \<lparr>Quotas = [], Applied = False\<rparr>\<rparr>
      in foldl (\<lambda>desired item. desired\<lparr>Spec := (Spec desired)\<lparr>Quotas :=
           Quotas (Spec desired) @ [empty_quota\<lparr>NamespaceName := NamespaceName item\<rparr>]\<rparr>\<rparr>)
         desired (Quotas (Spec rl)))"

definition mutate :: "'q wire \<Rightarrow> AdmissionReview \<Rightarrow> string + AdmissionResponse" where
  "mutate D ar =
     (case Request ar of
        None \<Rightarrow> Inl nil_deref
      | Some req \<Rightarrow> Inr (
          if Version req = ''v1beta1'' then
            (case unmarshal_rl1 D (ObjectRaw req) of
               Inl err \<Rightarrow> denied err
             | Inr rl \<Rightarrow>
                 (case createPatchV1beta1 rl desired_v1beta1 of
                    Inl err \<Rightarrow> denied err
                  | Inr patchBytes \<Rightarrow> patched patchBytes))
          else if Version req = ''v1beta2'' then
            (case unmarshal_rl D (ObjectRaw req) of
               Inl err \<Rightarrow> denied err
             | Inr rl \<Rightarrow>
                 (case createPatchV1beta2 rl (desired_v1beta2 rl) of
                    Inl err \<Rightarrow> denied err
                  | Inr patchBytes \<Rightarrow> patched patchBytes))
          else denied (''Unsupported version '' @ Version req)))"

section \<open>The handler\<close>

definition ServeMutate :: "'q wire \<Rightarrow> http_request \<Rightarrow> handled" where
  "ServeMutate D r =
     (let w = empty_writer; body = read_body r
      in if length body = 0 then Served (http_Error ''empty body'' 400 w)
         else if ContentType r \<noteq> ''application/json''
         then Served (http_Error ''invalid Content-Type, expect `application/json`'' 415 w)
         else case decode_review D body of
                (Some err, ar) \<Rightarrow> Served (send_answer D ar (Some (denied err)) w)
              | (None, ar) \<Rightarrow>
                  (case mutate D ar of
                     Inl m \<Rightarrow> Aborted m
                   | Inr admissionResponse \<Rightarrow> Served (send_answer D ar (Some admissionResponse) w)))"

end
