(* ===== verification/Mutate_Laws.thy ===== *)
theory Mutate_Laws
  imports Mutate
begin

text \<open>
  What the API server does with the answer of the mutating webhook, and how that changes the object:
  the patch is applied to the JSON of the object, which is then decoded again. Objects are taken as
  the API server sends them for a structural schema: known members only, each once
  (\<open>shaped\<close>, \<open>shaped1\<close>), with a \<open>spec\<close>.
\<close>

section \<open>Applying a patch\<close>

fun apply_operations :: "json list \<Rightarrow> json \<Rightarrow> json option" where
  "apply_operations [] doc = Some doc"
| "apply_operations (JObj ms # ops) doc =
     (case (map_of ms ''op'', map_of ms ''path'', map_of ms ''value'') of
        (Some (JStr op), Some (JStr path), Some v) \<Rightarrow>
          if op = ''add'' then Option.bind (json_add path v doc) (apply_operations ops) else None
      | _ \<Rightarrow> None)"
| "apply_operations (_ # ops) doc = None"

fun apply_patch :: "json \<Rightarrow> json \<Rightarrow> json option" where
  "apply_patch JNull doc = Some doc"
| "apply_patch (JArr ops) doc = apply_operations ops doc"
| "apply_patch _ doc = None"

lemma apply_operations_Cons [simp]:
  "apply_operations (json_of_operation p # ops) doc =
     (if Op p = ''add'' then Option.bind (json_add (Path p) (json_of_value (Value p)) doc) (apply_operations ops)
      else None)"
  by (simp add: json_of_operation_def)

lemma apply_marshalled:
  "marshal_patch ps = Inr j \<Longrightarrow> apply_patch j doc = apply_operations (map json_of_operation ps) doc"
  by (auto simp: marshal_patch_def split: if_splits)

lemma paths [simp]:
  "json_add ''/spec/types'' = add_at [''spec'', ''types'']"
  "json_add ''/spec/targets'' = add_at [''spec'', ''targets'']"
  by (simp_all add: json_add_def fun_eq_iff)

section \<open>Objects on the wire\<close>

definition shaped1 ::
  "(ObjectMeta \<Rightarrow> json \<Rightarrow> ObjectMeta option) \<Rightarrow> (string \<times> json) list \<Rightarrow> ResourceLimiter1 \<Rightarrow> bool" where
  "shaped1 dm ms rl \<longleftrightarrow> plain rl_fields ms \<and> decode_rl1 dm (JObj ms) = Some rl \<and>
     (\<exists>sp. map_of ms ''spec'' = Some (JObj sp) \<and> plain spec1_fields sp)"

definition shaped ::
  "(ObjectMeta \<Rightarrow> json \<Rightarrow> ObjectMeta option) \<Rightarrow> (string \<times> json) list \<Rightarrow> ResourceLimiter \<Rightarrow> bool" where
  "shaped dm ms rl \<longleftrightarrow> plain rl_fields ms \<and> decode_rl dm (JObj ms) = Some rl \<and>
     (\<exists>sp. map_of ms ''spec'' = Some (JObj sp) \<and> plain spec_fields sp)"

text \<open>One member of the spec replaced.\<close>

lemma spec1_set_types:
  assumes "plain spec1_fields ms" and "decode_struct spec1_fields put_spec1 z (JObj ms) = Some s"
    and "decode_map (decode_string '''') (Types z) v = Some ts"
  shows "decode_struct spec1_fields put_spec1 z (JObj (AList.update ''types'' v ms)) = Some (s\<lparr>Types := ts\<rparr>)"
proof -
  let ?ms = "AList.update ''types'' v ms"
  have k: "''types'' \<in> set spec1_fields" by (simp add: spec1_fields_def)
  have "put_spec1 ''types'' v z \<noteq> None" using assms(3) by (simp add: put_spec1_def)
  with spec1.accepts_update[OF assms(1) _ k] assms(2)
  obtain s' where s': "decode_struct spec1_fields put_spec1 z (JObj ?ms) = Some s'" by fastforce
  note p = plain_update[OF assms(1) k, of v]
  have "Targets s' = Targets s"
    using targets1.decoded[OF s' p] targets1.decoded[OF assms(2,1)] by (auto split: option.splits)
  moreover have "Applied1 s' = Applied1 s"
    using applied1.decoded[OF s' p] applied1.decoded[OF assms(2,1)] by (auto split: option.splits)
  moreover have "Types s' = ts" using types1.decoded[OF s' p] assms(3) by simp
  ultimately have "s' = s\<lparr>Types := ts\<rparr>" by simp
  with s' show ?thesis by simp
qed

lemma spec1_set_targets:
  assumes "plain spec1_fields ms" and "decode_struct spec1_fields put_spec1 z (JObj ms) = Some s"
    and "decode_list (decode_string '''') v = Some ts"
  shows "decode_struct spec1_fields put_spec1 z (JObj (AList.update ''targets'' v ms)) = Some (s\<lparr>Targets := ts\<rparr>)"
proof -
  let ?ms = "AList.update ''targets'' v ms"
  have k: "''targets'' \<in> set spec1_fields" by (simp add: spec1_fields_def)
  have "put_spec1 ''targets'' v z \<noteq> None" using assms(3) by (simp add: put_spec1_def)
  with spec1.accepts_update[OF assms(1) _ k] assms(2)
  obtain s' where s': "decode_struct spec1_fields put_spec1 z (JObj ?ms) = Some s'" by fastforce
  note p = plain_update[OF assms(1) k, of v]
  have "Types s' = Types s"
    using types1.decoded[OF s' p] types1.decoded[OF assms(2,1)] by (auto split: option.splits)
  moreover have "Applied1 s' = Applied1 s"
    using applied1.decoded[OF s' p] applied1.decoded[OF assms(2,1)] by (auto split: option.splits)
  moreover have "Targets s' = ts" using targets1.decoded[OF s' p] assms(3) by simp
  ultimately have "s' = s\<lparr>Targets := ts\<rparr>" by simp
  with s' show ?thesis by simp
qed

lemma spec_set_targets:
  assumes "plain spec_fields ms" and "decode_struct spec_fields put_spec z (JObj ms) = Some s"
    and "decode_list decode_quota v = Some qs"
  shows "decode_struct spec_fields put_spec z (JObj (AList.update ''targets'' v ms)) = Some (s\<lparr>Quotas := qs\<rparr>)"
proof -
  let ?ms = "AList.update ''targets'' v ms"
  have k: "''targets'' \<in> set spec_fields" by (simp add: spec_fields_def)
  have "put_spec ''targets'' v z \<noteq> None" using assms(3) by (simp add: put_spec_def)
  with spec.accepts_update[OF assms(1) _ k] assms(2)
  obtain s' where s': "decode_struct spec_fields put_spec z (JObj ?ms) = Some s'" by fastforce
  note p = plain_update[OF assms(1) k, of v]
  have "Applied s' = Applied s"
    using applied.decoded[OF s' p] applied.decoded[OF assms(2,1)] by (auto split: option.splits)
  moreover have "Quotas s' = qs" using targets.decoded[OF s' p] assms(3) by simp
  ultimately have "s' = s\<lparr>Quotas := qs\<rparr>" by simp
  with s' show ?thesis by simp
qed

context meta_decoder
begin

lemma rl1_set_spec:
  assumes "plain rl_fields ms" and "decode_rl1 dm (JObj ms) = Some r"
    and "decode_struct spec1_fields put_spec1 (Spec1 empty_rl1) j = Some sp"
  shows "decode_rl1 dm (JObj (AList.update ''spec'' j ms)) = Some (r\<lparr>Spec1 := sp\<rparr>)"
proof -
  let ?ms = "AList.update ''spec'' j ms"
  have k: "''spec'' \<in> set rl_fields" by (simp add: rl_fields_def)
  note d = assms(2)[unfolded decode_rl1_def]
  have "put_rl1 dm ''spec'' j empty_rl1 \<noteq> None" using assms(3) by (simp add: put_rl1_def)
  with rl1.accepts_update[OF assms(1) _ k] d
  obtain r' where r': "decode_struct rl_fields (put_rl1 dm) empty_rl1 (JObj ?ms) = Some r'" by fastforce
  note p = plain_update[OF assms(1) k, of j]
  have "Meta1 r' = Meta1 r"
    using rl1_meta.decoded[OF r' p] rl1_meta.decoded[OF d assms(1)] by (auto split: option.splits)
  moreover have "Status1 r' = Status1 r"
    using rl1_status.decoded[OF r' p] rl1_status.decoded[OF d assms(1)] by (auto split: option.splits)
  moreover have "Spec1 r' = sp" using rl1_spec.decoded[OF r' p] assms(3) by simp
  ultimately have "r' = r\<lparr>Spec1 := sp\<rparr>" by simp
  with r' show ?thesis by (simp add: decode_rl1_def)
qed

lemma rl_set_spec:
  assumes "plain rl_fields ms" and "decode_rl dm (JObj ms) = Some r"
    and "decode_struct spec_fields put_spec (Spec empty_rl) j = Some sp"
  shows "decode_rl dm (JObj (AList.update ''spec'' j ms)) = Some (r\<lparr>Spec := sp\<rparr>)"
proof -
  let ?ms = "AList.update ''spec'' j ms"
  have k: "''spec'' \<in> set rl_fields" by (simp add: rl_fields_def)
  note d = assms(2)[unfolded decode_rl_def]
  have "put_rl dm ''spec'' j empty_rl \<noteq> None" using assms(3) by (simp add: put_rl_def)
  with rl.accepts_update[OF assms(1) _ k] d
  obtain r' where r': "decode_struct rl_fields (put_rl dm) empty_rl (JObj ?ms) = Some r'" by fastforce
  note p = plain_update[OF assms(1) k, of j]
  have "Meta r' = Meta r"
    using rl_meta.decoded[OF r' p] rl_meta.decoded[OF d assms(1)] by (auto split: option.splits)
  moreover have "Status r' = Status r"
    using rl_status.decoded[OF r' p] rl_status.decoded[OF d assms(1)] by (auto split: option.splits)
  moreover have "Spec r' = sp" using rl_spec.decoded[OF r' p] assms(3) by simp
  ultimately have "r' = r\<lparr>Spec := sp\<rparr>" by simp
  with r' show ?thesis by (simp add: decode_rl_def)
qed

text \<open>One operation of a patch.\<close>

lemma shaped1_add_types:
  assumes "shaped1 dm ms r" and "distinct (map fst ts)"
  shows "\<exists>ms'. add_at [''spec'', ''types''] (json_of_types ts) (JObj ms) = Some (JObj ms') \<and>
    shaped1 dm ms' (r\<lparr>Spec1 := (Spec1 r)\<lparr>Types := ts\<rparr>\<rparr>)"
proof -
  from assms(1) obtain sp where sp: "map_of ms ''spec'' = Some (JObj sp)" "plain spec1_fields sp"
    and p: "plain rl_fields ms" and d: "decode_rl1 dm (JObj ms) = Some r" by (auto simp: shaped1_def)
  have "decode_struct spec1_fields put_spec1 (Spec1 empty_rl1) (JObj sp) = Some (Spec1 r)"
    using rl1_spec.decoded[OF d[unfolded decode_rl1_def] p] sp(1) by simp
  from spec1_set_types[OF sp(2) this, of "json_of_types ts" ts] decode_json_of_types[OF assms(2)]
  have "decode_struct spec1_fields put_spec1 (Spec1 empty_rl1)
      (JObj (AList.update ''types'' (json_of_types ts) sp)) = Some ((Spec1 r)\<lparr>Types := ts\<rparr>)"
    by (simp add: empty_rl1_def)
  from rl1_set_spec[OF p d this] sp p show ?thesis
    by (auto simp: shaped1_def plain_update rl_fields_def spec1_fields_def)
qed

lemma shaped1_add_targets:
  assumes "shaped1 dm ms r"
  shows "\<exists>ms'. add_at [''spec'', ''targets''] (JArr (map JStr ts)) (JObj ms) = Some (JObj ms') \<and>
    shaped1 dm ms' (r\<lparr>Spec1 := (Spec1 r)\<lparr>Targets := ts\<rparr>\<rparr>)"
proof -
  from assms(1) obtain sp where sp: "map_of ms ''spec'' = Some (JObj sp)" "plain spec1_fields sp"
    and p: "plain rl_fields ms" and d: "decode_rl1 dm (JObj ms) = Some r" by (auto simp: shaped1_def)
  have "decode_struct spec1_fields put_spec1 (Spec1 empty_rl1) (JObj sp) = Some (Spec1 r)"
    using rl1_spec.decoded[OF d[unfolded decode_rl1_def] p] sp(1) by simp
  from spec1_set_targets[OF sp(2) this, of "JArr (map JStr ts)" ts]
  have "decode_struct spec1_fields put_spec1 (Spec1 empty_rl1)
      (JObj (AList.update ''targets'' (JArr (map JStr ts)) sp)) = Some ((Spec1 r)\<lparr>Targets := ts\<rparr>)"
    by (simp del: map_map)
  from rl1_set_spec[OF p d this] sp p show ?thesis
    by (auto simp: shaped1_def plain_update rl_fields_def spec1_fields_def)
qed

lemma shaped_add_targets:
  assumes "shaped dm ms r"
  shows "\<exists>ms'. add_at [''spec'', ''targets''] (JArr (map json_of_quota qs)) (JObj ms) = Some (JObj ms') \<and>
    shaped dm ms' (r\<lparr>Spec := (Spec r)\<lparr>Quotas := qs\<rparr>\<rparr>)"
proof -
  from assms(1) obtain sp where sp: "map_of ms ''spec'' = Some (JObj sp)" "plain spec_fields sp"
    and p: "plain rl_fields ms" and d: "decode_rl dm (JObj ms) = Some r" by (auto simp: shaped_def)
  have "decode_struct spec_fields put_spec (Spec empty_rl) (JObj sp) = Some (Spec r)"
    using rl_spec.decoded[OF d[unfolded decode_rl_def] p] sp(1) by simp
  from spec_set_targets[OF sp(2) this, of "JArr (map json_of_quota qs)" qs]
  have "decode_struct spec_fields put_spec (Spec empty_rl)
      (JObj (AList.update ''targets'' (JArr (map json_of_quota qs)) sp)) = Some ((Spec r)\<lparr>Quotas := qs\<rparr>)"
    by (simp del: map_map)
  from rl_set_spec[OF p d this] sp p show ?thesis
    by (auto simp: shaped_def plain_update rl_fields_def spec_fields_def)
qed

end

end
