(* ===== verification/Mutate_Props.thy ===== *)
theory Mutate_Props
  imports Mutate_Laws
begin

text \<open>
  What the mutating webhook does to an object, in terms of the object before and after: the answer
  is taken apart the way the API server does, by applying its patch to the JSON of the object. The
  witnesses use a wire whose reviews are fixed (\<open>mem_wire\<close>).
\<close>

section \<open>v1beta1\<close>

definition all_types :: "(string, string) gomap \<Rightarrow> bool" where
  "all_types m \<longleftrightarrow> (\<forall>k \<in> {''limits.cpu'', ''limits.memory'', ''requests.cpu'', ''requests.memory''}.
     map_of m k \<noteq> None)"

definition default_types :: "(string, string) gomap" where
  "default_types = [(''limits.cpu'', ''2''), (''limits.memory'', ''200Mi''), (''requests.cpu'', ''1''),
     (''requests.memory'', ''150Mi'')]"

definition completed1 :: "ResourceLimiterSpec1 \<Rightarrow> ResourceLimiterSpec1" where
  "completed1 sp = sp\<lparr>Types := (if all_types (Types sp) then Types sp else default_types),
     Targets := (if Targets sp = [] then [''default''] else Targets sp)\<rparr>"

lemma mutationRequiredV1beta1_iff:
  "mutationRequiredV1beta1 rl = (\<not> all_types (Types (Spec1 rl)), Targets (Spec1 rl) = [])"
  by (cases "Types (Spec1 rl)") (auto simp: mutationRequiredV1beta1_def all_types_def go_defs)

lemma desired_types [simp]: "Types (Spec1 desired_v1beta1) = default_types"
  "Targets (Spec1 desired_v1beta1) = [''default'']"
  by (simp_all add: desired_v1beta1_def default_types_def go_defs)

definition patch1 :: "ResourceLimiter1 \<Rightarrow> patchOperation list" where
  "patch1 rl =
     (if all_types (Types (Spec1 rl)) then []
      else [\<lparr>Op = ''add'', Path = ''/spec/types'', Value = TypesValue default_types\<rparr>]) @
     (if Targets (Spec1 rl) = []
      then [\<lparr>Op = ''add'', Path = ''/spec/targets'', Value = TargetsValue [''default'']\<rparr>] else [])"

lemma createPatchV1beta1_eq: "createPatchV1beta1 rl desired_v1beta1 = marshal_patch (patch1 rl)"
  by (simp add: createPatchV1beta1_def mutationRequiredV1beta1_iff patch1_def
    updateResourceLimiterTypesV1beta1_def updateResourceLimiterTargetsV1beta1_def)

lemma distinct_default_types: "distinct (map fst default_types)"
  by (simp add: default_types_def)

context meta_decoder
begin

lemma apply_patch1:
  assumes "shaped1 dm ms rl"
  shows "\<exists>ms'. apply_operations (map json_of_operation (patch1 rl)) (JObj ms) = Some (JObj ms') \<and>
    shaped1 dm ms' (rl\<lparr>Spec1 := completed1 (Spec1 rl)\<rparr>)"
proof -
  let ?sp = "Spec1 rl" and ?rl1 = "rl\<lparr>Spec1 := (Spec1 rl)\<lparr>Types := default_types\<rparr>\<rparr>"
  obtain ms1 where 1: "add_at [''spec'', ''types''] (json_of_types default_types) (JObj ms) = Some (JObj ms1)"
    "shaped1 dm ms1 ?rl1" using shaped1_add_types[OF assms distinct_default_types] by blast
  note targets = shaped1_add_targets[where ts = "[''default'']", simplified]
  from targets[OF assms] targets[OF 1(2)] 1 assms show ?thesis
    by (cases "all_types (Types ?sp)"; cases "Targets ?sp = []")
      (auto simp: patch1_def completed1_def)
qed

end

lemma mutate_completes1:
  assumes "meta_decoder (decode_meta D)" and "Request ar = Some req" and "Version req = ''v1beta1''"
    and "ObjectRaw req = Some (JObj ms)" and "shaped1 (decode_meta D) ms rl"
  shows "\<exists>patch ms'. mutate D ar = Inr (patched patch) \<and> apply_patch patch (JObj ms) = Some (JObj ms') \<and>
    shaped1 (decode_meta D) ms' (rl\<lparr>Spec1 := completed1 (Spec1 rl)\<rparr>)"
proof -
  have "unmarshal_rl1 D (ObjectRaw req) = Inr rl"
    using assms(4,5) by (simp add: unmarshal_rl1_def shaped1_def)
  moreover obtain j where j: "marshal_patch (patch1 rl) = Inr j" by (simp add: marshal_patch_def)
  ultimately have "mutate D ar = Inr (patched j)"
    using assms(2,3) by (simp add: mutate_def createPatchV1beta1_eq)
  with apply_marshalled[OF j] meta_decoder.apply_patch1[OF assms(1,5)] show ?thesis
    by (intro exI[of _ j]) simp
qed

text \<open>C22: the mutating webhook admits a v1beta1 object with a patch that completes it. Let the JSON of the object decode, have a
  \<open>spec\<close>, and give each known member at most once and no other. The patch applied to it gives an object that decodes to the same
  one with \<open>default\<close> as the target if it had none, and with the four default quantities if one of the four types
  was missing - then all types of the object are replaced, also the ones it had.\<close>

theorem mutate_v1beta1:
  assumes "meta_decoder (decode_meta D)" and "Request ar = Some req" and "Version req = ''v1beta1''"
    and "ObjectRaw req = Some (JObj ms)" and "shaped1 (decode_meta D) ms rl"
  shows "\<exists>patch ms'. mutate D ar = Inr (patched patch) \<and> apply_patch patch (JObj ms) = Some (JObj ms') \<and>
    shaped1 (decode_meta D) ms' (rl\<lparr>Spec1 := completed1 (Spec1 rl)\<rparr>)"
  by (rule mutate_completes1[OF assms])

definition mem_wire :: "string wire" where
  "mem_wire = \<lparr>decode_review = (\<lambda>_. (Some ''no review'', \<lparr>APIVersion = '''', ReviewKind = '''',
       Request = None, Response = None\<rparr>)),
     encode_review = (\<lambda>r. Inr ''answer''), write_error = (\<lambda>_. None), decode_meta = mem_meta,
     unmarshal_error = (\<lambda>_. ''cannot unmarshal''),
     unmarshal_pod = (\<lambda>_. Inl ''no pod''), unmarshal_deployment = (\<lambda>_. Inl ''no deployment''),
     unmarshal_daemonset = (\<lambda>_. Inr \<lparr>WorkloadName = ''d'', Containers = [\<lparr>Limits = None, Requests = None\<rparr>]\<rparr>),
     cpu_of = (\<lambda>m. case map_of m ''cpu'' of None \<Rightarrow> ''0'' | Some q \<Rightarrow> q),
     memory_of = (\<lambda>m. case map_of m ''memory'' of None \<Rightarrow> ''0'' | Some q \<Rightarrow> q)\<rparr>"

definition review :: "string \<Rightarrow> string \<Rightarrow> json option \<Rightarrow> AdmissionReview" where
  "review kind version raw = \<lparr>APIVersion = ''admission.k8s.io/v1'', ReviewKind = ''AdmissionReview'',
     Request = Some \<lparr>UID = ''u1'', Kind = kind, Version = version, ReqName = ''rl'', ObjectRaw = raw\<rparr>,
     Response = None\<rparr>"

lemma decode_meta_mem [simp]: "decode_meta mem_wire = mem_meta"
  by (simp add: mem_wire_def)

text \<open>A v1beta1 object with one of the four types and no target.\<close>

definition ex_ms1 :: "(string \<times> json) list" where
  "ex_ms1 = [(''metadata'', JObj [(''name'', JStr ''rl'')]),
     (''spec'', JObj [(''types'', JObj [(''limits.cpu'', JStr ''8'')]), (''applied'', JBool True)])]"

definition ex_obj1 :: ResourceLimiter1 where
  "ex_obj1 = empty_rl1\<lparr>Meta1 := empty_meta\<lparr>Name := ''rl''\<rparr>,
     Spec1 := \<lparr>Targets = [], Types = [(''limits.cpu'', ''8'')], Applied1 = True\<rparr>\<rparr>"

lemma shaped_ex_ms1: "shaped1 mem_meta ex_ms1 ex_obj1"
  by (simp add: shaped1_def plain_def ex_ms1_def field_list_defs decode_rl1_def put_rl1_def
    mem_meta_def put_meta_def put_spec1_def ex_obj1_def empty_rl1_def)

theorem mutate_v1beta1_witness:
  "\<exists>patch ms' rl'. mutate mem_wire (review ''ResourceLimiter'' ''v1beta1'' (Some (JObj ex_ms1))) = Inr (patched patch) \<and>
     apply_patch patch (JObj ex_ms1) = Some (JObj ms') \<and> decode_rl1 mem_meta (JObj ms') = Some rl' \<and>
     Targets (Spec1 rl') = [''default''] \<and> map_of (Types (Spec1 rl')) ''limits.cpu'' = Some ''2'' \<and>
     Applied1 (Spec1 rl')"
proof -
  let ?ar = "review ''ResourceLimiter'' ''v1beta1'' (Some (JObj ex_ms1))"
  have h: "Request ?ar = Some (the (Request ?ar))" "Version (the (Request ?ar)) = ''v1beta1''"
    "ObjectRaw (the (Request ?ar)) = Some (JObj ex_ms1)" by (simp_all add: review_def)
  have m: "meta_decoder (decode_meta mem_wire)" by (simp add: memmeta.meta_decoder_axioms)
  have s: "shaped1 (decode_meta mem_wire) ex_ms1 ex_obj1" by (simp add: shaped_ex_ms1)
  have "completed1 (Spec1 ex_obj1) = \<lparr>Targets = [''default''], Types = default_types, Applied1 = True\<rparr>"
    by (simp add: completed1_def ex_obj1_def all_types_def)
  with mutate_v1beta1[OF m h s] show ?thesis
    by (fastforce simp: shaped1_def default_types_def)
qed

lemma mutate_v1beta1_null:
  assumes "Request ar = Some req" and "Version req = ''v1beta1''" and "ObjectRaw req = Some (JObj ms)"
    and "shaped1 (decode_meta D) ms rl"
  shows "mutate D ar = Inr (patched JNull) \<longleftrightarrow> completed1 (Spec1 rl) = Spec1 rl"
proof -
  have "unmarshal_rl1 D (ObjectRaw req) = Inr rl"
    using assms(3,4) by (simp add: unmarshal_rl1_def shaped1_def)
  with assms(1,2) have m: "mutate D ar = Inr (patched (if patch1 rl = [] then JNull
      else JArr (map json_of_operation (patch1 rl))))"
    by (simp add: mutate_def createPatchV1beta1_eq marshal_patch_def)
  have d: "all_types default_types" by (simp add: all_types_def default_types_def)
  have "patch1 rl = [] \<longleftrightarrow> completed1 (Spec1 rl) = Spec1 rl"
    using d by (cases "Spec1 rl") (auto simp: patch1_def completed1_def)
  then show ?thesis by (simp add: m patched_def empty_response_def)
qed

lemma completed1_idem [simp]: "completed1 (completed1 sp) = completed1 sp"
  by (simp add: completed1_def all_types_def default_types_def)

text \<open>Mutation of a v1beta1 object is idempotent: an object is left alone exactly when it has a target
  and the four types, and the object that the patch completed is admitted without a further change.\<close>

theorem mutate_v1beta1_idempotent:
  assumes "Request ar = Some req" and "Version req = ''v1beta1''" and "ObjectRaw req = Some (JObj ms)"
    and "shaped1 (decode_meta D) ms rl"
  shows "(mutate D ar = Inr (patched JNull) \<longleftrightarrow> completed1 (Spec1 rl) = Spec1 rl) \<and>
    (\<forall>ms'. shaped1 (decode_meta D) ms' (rl\<lparr>Spec1 := completed1 (Spec1 rl)\<rparr>) \<longrightarrow>
       mutate D (ar\<lparr>Request := Some (req\<lparr>ObjectRaw := Some (JObj ms')\<rparr>)\<rparr>) = Inr (patched JNull))"
  using mutate_v1beta1_null[OF assms]
    mutate_v1beta1_null[where ar = "ar\<lparr>Request := Some (req\<lparr>ObjectRaw := Some (JObj ms')\<rparr>)\<rparr>" and
      req = "req\<lparr>ObjectRaw := Some (JObj ms')\<rparr>" and ms = ms' and D = D and
      rl = "rl\<lparr>Spec1 := completed1 (Spec1 rl)\<rparr>" for ms'] assms(2)
  by simp

theorem mutate_v1beta1_idempotent_witness:
  "mutate mem_wire (review ''ResourceLimiter'' ''v1beta1'' (Some (JObj ex_ms1))) \<noteq> Inr (patched JNull)"
proof -
  let ?ar = "review ''ResourceLimiter'' ''v1beta1'' (Some (JObj ex_ms1))"
  have h: "Request ?ar = Some (the (Request ?ar))" "Version (the (Request ?ar)) = ''v1beta1''"
    "ObjectRaw (the (Request ?ar)) = Some (JObj ex_ms1)" by (simp_all add: review_def)
  have s: "shaped1 (decode_meta mem_wire) ex_ms1 ex_obj1" by (simp add: shaped_ex_ms1)
  have "completed1 (Spec1 ex_obj1) \<noteq> Spec1 ex_obj1"
    by (simp add: completed1_def ex_obj1_def all_types_def)
  with mutate_v1beta1_idempotent[OF h s] show ?thesis by blast
qed

section \<open>v1beta2\<close>

definition default_quota :: ResourceLimiterQuota where
  "default_quota = \<lparr>NamespaceName = ''default'', CpuRequest = ''1'', MemRequest = ''150Mi'',
     CpuLimit = ''2'', MemLimit = ''200Mi''\<rparr>"

definition default_op :: patchOperation where
  "default_op = \<lparr>Op = ''add'', Path = ''/spec/targets'', Value = QuotasValue [default_quota]\<rparr>"

lemma desired_quotas: "Quotas (Spec (desired_v1beta2 rl)) =
    map (\<lambda>q. empty_quota\<lparr>NamespaceName := NamespaceName q\<rparr>) (Quotas (Spec rl))"
proof -
  have "Quotas (Spec (foldl (\<lambda>desired item. desired\<lparr>Spec := (Spec desired)\<lparr>Quotas :=
       Quotas (Spec desired) @ [empty_quota\<lparr>NamespaceName := NamespaceName item\<rparr>]\<rparr>\<rparr>) d qs)) =
     Quotas (Spec d) @ map (\<lambda>q. empty_quota\<lparr>NamespaceName := NamespaceName q\<rparr>) qs" for d qs
    by (induction qs arbitrary: d) auto
  from this[of "empty_rl\<lparr>Spec := \<lparr>Quotas = [], Applied = False\<rparr>\<rparr>" "Quotas (Spec rl)"]
  show ?thesis by (simp add: desired_v1beta2_def)
qed

text \<open>The patch: one operation for every entry for the namespace \<open>default\<close>, nothing else.\<close>

lemma createPatchV1beta2_eq:
  "createPatchV1beta2 rl (desired_v1beta2 rl) =
     marshal_patch (map (\<lambda>_. default_op) (filter (\<lambda>q. NamespaceName q = ''default'') (Quotas (Spec rl))))"
proof -
  let ?rl = "rl\<lparr>Spec := (Spec rl)\<lparr>Quotas := []\<rparr>\<rparr>"
  have "foldl (\<lambda>patch quota. if True \<and> ''default'' = NamespaceName quota
        then patch @ updateResourceLimiterQuotasV1beta2 (Quotas (Spec ?rl))
          [\<lparr>NamespaceName = NamespaceName quota, CpuRequest = ''1'', MemRequest = ''150Mi'',
             CpuLimit = ''2'', MemLimit = ''200Mi''\<rparr>]
        else patch) p (map (\<lambda>q. empty_quota\<lparr>NamespaceName := NamespaceName q\<rparr>) qs) =
      p @ map (\<lambda>_. default_op) (filter (\<lambda>q. NamespaceName q = ''default'') qs)" for p qs
    by (induction qs arbitrary: p)
      (auto simp: updateResourceLimiterQuotasV1beta2_def default_op_def default_quota_def)
  note loop = this[of "[]" "Quotas (Spec rl)"]
  have "mutationRequiredV1beta2 ?rl = [(''default'', True)]" by (simp add: mutationRequiredV1beta2_def)
  with loop show ?thesis
    by (simp only: createPatchV1beta2_def Let_def desired_quotas foldl.simps prod.case append_Nil)
qed

definition completed :: "ResourceLimiterSpec \<Rightarrow> ResourceLimiterSpec" where
  "completed sp = (if ''default'' \<in> NamespaceName ` set (Quotas sp) then sp\<lparr>Quotas := [default_quota]\<rparr> else sp)"

context meta_decoder
begin

lemma apply_patch_default:
  assumes "shaped dm ms rl"
  shows "\<exists>ms'. apply_operations (map json_of_operation (map (\<lambda>_. default_op) xs)) (JObj ms) = Some (JObj ms') \<and>
    shaped dm ms' (if xs = [] then rl else rl\<lparr>Spec := (Spec rl)\<lparr>Quotas := [default_quota]\<rparr>\<rparr>)"
  using assms
proof (induction xs arbitrary: ms rl)
  case Nil
  then show ?case by simp
next
  case (Cons x xs)
  from shaped_add_targets[OF Cons.prems, of "[default_quota]"] obtain ms1
    where 1: "add_at [''spec'', ''targets''] (JArr [json_of_quota default_quota]) (JObj ms) = Some (JObj ms1)"
      and s: "shaped dm ms1 (rl\<lparr>Spec := (Spec rl)\<lparr>Quotas := [default_quota]\<rparr>\<rparr>)" by auto
  from Cons.IH[OF s] 1 show ?case by (cases xs) (auto simp: default_op_def)
qed

end

text \<open>C33: the mutating webhook admits every v1beta2 object that decodes, and its patch changes the object in
  one case only: if some entry is for the namespace \<open>default\<close>, complete or not, the whole list of
  quotas becomes the one default entry for \<open>default\<close>; every other namespace is lost. Missing
  quantities of any other namespace are never filled in.\<close>

theorem mutate_v1beta2:
  assumes "meta_decoder (decode_meta D)" and "Request ar = Some req" and "Version req = ''v1beta2''"
    and "ObjectRaw req = Some (JObj ms)" and "shaped (decode_meta D) ms rl"
  shows "\<exists>patch ms'. mutate D ar = Inr (patched patch) \<and> apply_patch patch (JObj ms) = Some (JObj ms') \<and>
    shaped (decode_meta D) ms' (rl\<lparr>Spec := completed (Spec rl)\<rparr>) \<and>
    (patch = JNull \<longleftrightarrow> ''default'' \<notin> NamespaceName ` set (Quotas (Spec rl)))"
proof -
  let ?d = "filter (\<lambda>q. NamespaceName q = ''default'') (Quotas (Spec rl))"
  have "unmarshal_rl D (ObjectRaw req) = Inr rl"
    using assms(4,5) by (simp add: unmarshal_rl_def shaped_def)
  moreover obtain j where j: "marshal_patch (map (\<lambda>_. default_op) ?d) = Inr j"
    by (simp add: marshal_patch_def)
  ultimately have m: "mutate D ar = Inr (patched j)"
    using assms(2,3) by (simp add: mutate_def createPatchV1beta2_eq)
  have e: "?d = [] \<longleftrightarrow> ''default'' \<notin> NamespaceName ` set (Quotas (Spec rl))"
    by (auto simp: filter_empty_conv image_iff)
  have c: "(if ?d = [] then rl else rl\<lparr>Spec := (Spec rl)\<lparr>Quotas := [default_quota]\<rparr>\<rparr>) =
      rl\<lparr>Spec := completed (Spec rl)\<rparr>" unfolding e by (simp add: completed_def)
  have "j = JNull \<longleftrightarrow> ?d = []" using j by (cases "?d = []") (auto simp: marshal_patch_def)
  with m apply_marshalled[OF j] meta_decoder.apply_patch_default[OF assms(1,5), of ?d] c e
  show ?thesis by (intro exI[of _ j]) (simp del: apply_patch.simps)
qed

text \<open>A complete entry for \<open>default\<close> and an incomplete one for another namespace.\<close>

definition ex_ms :: "(string \<times> json) list" where
  "ex_ms = [(''metadata'', JObj [(''name'', JStr ''rl'')]),
     (''spec'', JObj [(''targets'', JArr [json_of_quota (default_quota\<lparr>CpuLimit := ''8''\<rparr>),
        JObj [(''name'', JStr ''team'')]]), (''applied'', JBool True)])]"

definition ex_obj :: ResourceLimiter where
  "ex_obj = empty_rl\<lparr>Meta := empty_meta\<lparr>Name := ''rl''\<rparr>, Spec := \<lparr>Quotas =
     [default_quota\<lparr>CpuLimit := ''8''\<rparr>, empty_quota\<lparr>NamespaceName := ''team''\<rparr>], Applied = True\<rparr>\<rparr>"

lemma shaped_ex_ms: "shaped mem_meta ex_ms ex_obj"
proof -
  have "decode_rl mem_meta (JObj ex_ms) = Some ex_obj" by code_simp
  then show ?thesis by (simp add: shaped_def plain_def ex_ms_def field_list_defs)
qed

theorem mutate_v1beta2_witness:
  "\<exists>patch ms' rl'. mutate mem_wire (review ''ResourceLimiter'' ''v1beta2'' (Some (JObj ex_ms))) = Inr (patched patch) \<and>
     apply_patch patch (JObj ex_ms) = Some (JObj ms') \<and> decode_rl mem_meta (JObj ms') = Some rl' \<and>
     Quotas (Spec rl') = [default_quota] \<and> patch \<noteq> JNull"
proof -
  let ?ar = "review ''ResourceLimiter'' ''v1beta2'' (Some (JObj ex_ms))"
  have h: "Request ?ar = Some (the (Request ?ar))" "Version (the (Request ?ar)) = ''v1beta2''"
    "ObjectRaw (the (Request ?ar)) = Some (JObj ex_ms)" by (simp_all add: review_def)
  have m: "meta_decoder (decode_meta mem_wire)" by (simp add: memmeta.meta_decoder_axioms)
  have s: "shaped (decode_meta mem_wire) ex_ms ex_obj" by (simp add: shaped_ex_ms)
  have d: "''default'' \<in> NamespaceName ` set (Quotas (Spec ex_obj))"
    by (simp add: ex_obj_def default_quota_def)
  then have c: "completed (Spec ex_obj) = \<lparr>Quotas = [default_quota], Applied = True\<rparr>"
    by (simp add: completed_def ex_obj_def)
  from mutate_v1beta2[OF m h s] obtain patch ms' where
    1: "mutate mem_wire ?ar = Inr (patched patch)" "apply_patch patch (JObj ex_ms) = Some (JObj ms')"
    and 2: "shaped (decode_meta mem_wire) ms' (ex_obj\<lparr>Spec := completed (Spec ex_obj)\<rparr>)"
    and 3: "patch \<noteq> JNull" using d by blast
  from 2 c have "decode_rl mem_meta (JObj ms') = Some (ex_obj\<lparr>Spec := \<lparr>Quotas = [default_quota], Applied = True\<rparr>\<rparr>)"
    by (simp add: shaped_def)
  with 1 3 show ?thesis by fastforce
qed

end
