(* ===== verification/Conversion_Props.thy ===== *)
theory Conversion_Props
  imports Conversion_Service Mutate_Props
begin

text \<open>
  What the conversion webhook answers: the objects it converts, exactly when it panics, and which
  media types it speaks. The shape an object must have is stated on the JSON (\<open>well_formed1\<close>,
  \<open>well_formed2\<close>), apart from the chain of assertions in the code.
\<close>

section \<open>Shapes\<close>

definition well_formed1 :: "(string \<times> json) list \<Rightarrow> ResourceLimiter1 \<Rightarrow> bool" where
  "well_formed1 m cr \<longleftrightarrow> (\<exists>sp ts tys b. map_of m ''spec'' = Some (JObj sp) \<and>
     map_of sp ''targets'' = Some (JArr (map JStr ts)) \<and>
     map_of sp ''types'' = Some (JObj (map (\<lambda>(k, v). (k, JStr v)) tys)) \<and>
     map_of sp ''applied'' = Some (JBool b) \<and>
     cr = empty_rl1\<lparr>Spec1 := \<lparr>Targets = ts, Types = tys, Applied1 = b\<rparr>\<rparr>)"

definition quota_shape :: "json \<Rightarrow> ResourceLimiterQuota \<Rightarrow> bool" where
  "quota_shape j q \<longleftrightarrow> (\<exists>m. j = JObj m \<and> map_of m ''name'' = Some (JStr (NamespaceName q)) \<and>
     map_of m ''cpu_requests'' = Some (JStr (CpuRequest q)) \<and> map_of m ''cpu_limits'' = Some (JStr (CpuLimit q)) \<and>
     map_of m ''mem_requests'' = Some (JStr (MemRequest q)) \<and> map_of m ''mem_limits'' = Some (JStr (MemLimit q)))"

definition well_formed2 :: "(string \<times> json) list \<Rightarrow> ResourceLimiter \<Rightarrow> bool" where
  "well_formed2 m cr \<longleftrightarrow> (\<exists>sp js qs b. map_of m ''spec'' = Some (JObj sp) \<and>
     map_of sp ''targets'' = Some (JArr js) \<and> list_all2 quota_shape js qs \<and>
     map_of sp ''applied'' = Some (JBool b) \<and> cr = empty_rl\<lparr>Spec := \<lparr>Quotas = qs, Applied = b\<rparr>\<rparr>)"

lemma well_formed1I:
  "map_of m ''spec'' = Some (JObj sp) \<Longrightarrow> map_of sp ''targets'' = Some (JArr (map JStr ts)) \<Longrightarrow>
   map_of sp ''types'' = Some (JObj (map (\<lambda>(k, v). (k, JStr v)) tys)) \<Longrightarrow>
   map_of sp ''applied'' = Some (JBool b) \<Longrightarrow>
   well_formed1 m (empty_rl1\<lparr>Spec1 := \<lparr>Targets = ts, Types = tys, Applied1 = b\<rparr>\<rparr>)"
  unfolding well_formed1_def by blast

lemma well_formed2I:
  "map_of m ''spec'' = Some (JObj sp) \<Longrightarrow> map_of sp ''targets'' = Some (JArr js) \<Longrightarrow>
   list_all2 quota_shape js qs \<Longrightarrow> map_of sp ''applied'' = Some (JBool b) \<Longrightarrow>
   well_formed2 m (empty_rl\<lparr>Spec := \<lparr>Quotas = qs, Applied = b\<rparr>\<rparr>)"
  unfolding well_formed2_def by blast

lemma and_then_Inr [simp]: "and_then x f = Inr b \<longleftrightarrow> (\<exists>a. x = Inr a \<and> f a = Inr b)"
  by (auto simp: and_then_def split: sum.splits)

lemma and_then_value [simp]: "and_then (Inr a) f = f a" "and_then (Inl p) f = Inl p"
  by (simp_all add: and_then_def)

lemma as_Inr [simp]:
  "as_map x = Inr m \<longleftrightarrow> x = Some (JObj m)" "as_slice x = Inr js \<longleftrightarrow> x = Some (JArr js)"
  "as_string x = Inr s \<longleftrightarrow> x = Some (JStr s)" "as_bool x = Inr b \<longleftrightarrow> x = Some (JBool b)"
  by (cases x; cases "the x"; simp; fail | auto elim: as_map.elims as_slice.elims as_string.elims as_bool.elims)+

lemma each_Inr: "each f xs = Inr ys \<longleftrightarrow> list_all2 (\<lambda>x y. f x = Inr y) xs ys"
  by (induction xs arbitrary: ys) (auto simp: list_all2_Cons1)

lemma list_all2_inverse: "list_all2 (\<lambda>x y. x = g y) xs ys \<longleftrightarrow> xs = map g ys"
  by (simp add: list_all2_conv_all_nth list_eq_iff_nth_eq) (auto simp: )

lemma read_v1beta1_iff: "read_v1beta1 m = Inr cr \<longleftrightarrow> well_formed1 m cr"
proof -
  have s: "each (\<lambda>item. as_string (Some item)) js = Inr ts \<longleftrightarrow> js = map JStr ts" for js ts
    by (simp add: each_Inr list_all2_inverse)
  have "(case p of (k, v) \<Rightarrow> and_then (as_string (Some v)) (\<lambda>s. Inr (k, s))) = Inr y \<longleftrightarrow>
      p = (case y of (k, v) \<Rightarrow> (k, JStr v))" for p :: "string \<times> json" and y
    by (cases p; cases y) auto
  then have t: "each (\<lambda>(k, v). and_then (as_string (Some v)) (\<lambda>s. Inr (k, s))) ms = Inr tys \<longleftrightarrow>
      ms = map (\<lambda>(k, v). (k, JStr v)) tys" for ms :: "(string \<times> json) list" and tys
    by (simp add: each_Inr list_all2_inverse)
  show ?thesis by (auto simp: read_v1beta1_def well_formed1_def s t) blast
qed

lemma read_quota_iff: "read_quota j = Inr q \<longleftrightarrow> quota_shape j q"
  by (cases q) (auto simp: read_quota_def quota_shape_def)

lemma read_v1beta2_iff: "read_v1beta2 m = Inr cr \<longleftrightarrow> well_formed2 m cr"
  by (auto simp: read_v1beta2_def well_formed2_def each_Inr read_quota_iff)

section \<open>The loops\<close>

definition upgraded :: "ResourceLimiter1 \<Rightarrow> ResourceLimiter" where
  "upgraded cr = empty_rl\<lparr>Spec := \<lparr>Quotas = replicate (length (Targets (Spec1 cr))) empty_quota
     @ map (quota_for (Types (Spec1 cr))) (Targets (Spec1 cr)), Applied = Applied1 (Spec1 cr)\<rparr>\<rparr>"

lemma foldl_quota_for:
  "foldl (\<lambda>qs ns. qs @ [quota_for types ns]) acc xs = acc @ map (quota_for types) xs"
  by (rule foldl_snoc_map)

lemma convertV1beta1IntoV1beta2_read:
  "well_formed1 m cr \<Longrightarrow> convertV1beta1IntoV1beta2 cr = (Some (HubV1beta2 (upgraded cr)), statusSucceed)"
  by (auto simp: convertV1beta1IntoV1beta2_def well_formed1_def upgraded_def empty_rl_def empty_rl1_def
    empty_meta_def foldl_quota_for)

lemma convertV1beta2IntoV1beta1_eq:
  "convertV1beta2IntoV1beta1 cr =
     (if Quotas (Spec cr) = [] then (None, statusErrorWithMessage
        (''failed to convert from '' @ quoted ''resources.resourcelimiter.io/v1beta2'' @ '' into '' @
          quoted ''resources.resourcelimiter.io/v1beta1''))
      else (Some (snd (ConvertFrom empty_rl1 (HubV1beta2 cr))), statusSucceed))"
  by (simp add: convertV1beta2IntoV1beta1_def Let_def)

lemma statusSucceed_state [simp]: "ConvState statusSucceed = StatusSuccess"
  by (simp add: statusSucceed_def)

lemma convert_all_to_v1beta2_ok:
  assumes "list_all2 (\<lambda>obj cr. \<exists>m. UnmarshalJSON V obj = Inr m \<and> well_formed1 m cr) objs crs"
  shows "convert_all_to_v1beta2 V (objs @ rest) acc =
    convert_all_to_v1beta2 V rest (acc @ map (\<lambda>cr. AsV1beta2 (HubV1beta2 (upgraded cr))) crs)"
  using assms
proof (induction objs crs arbitrary: acc rule: list_all2_induct)
  case Nil
  then show ?case by simp
next
  case (Cons obj objs cr crs)
  then obtain m where "UnmarshalJSON V obj = Inr m" "well_formed1 m cr" by blast
  with Cons.IH show ?case
    using read_v1beta1_iff[of m cr] by (simp add: convertV1beta1IntoV1beta2_read)
qed

lemma convert_all_to_v1beta2_panics:
  "convert_all_to_v1beta2 V objs acc = Inl p \<Longrightarrow> \<exists>pre obj post m. objs = pre @ obj # post \<and>
     (\<forall>x \<in> set pre. \<exists>m cr. UnmarshalJSON V x = Inr m \<and> well_formed1 m cr) \<and>
     UnmarshalJSON V obj = Inr m \<and> (\<nexists>cr. well_formed1 m cr)"
proof (induction objs arbitrary: acc)
  case Nil
  then show ?case by simp
next
  case (Cons obj objs)
  then obtain m where m: "UnmarshalJSON V obj = Inr m" by (auto split: sum.splits)
  show ?case
  proof (cases "read_v1beta1 m")
    case (Inl q)
    then have "\<nexists>cr. well_formed1 m cr" using read_v1beta1_iff[of m] by auto
    with m show ?thesis by (intro exI[of _ "[]"] exI[of _ obj] exI[of _ objs] exI[of _ m]) simp
  next
    case (Inr cr)
    then have wf: "well_formed1 m cr" by (simp add: read_v1beta1_iff)
    with Cons.prems m Inr have "convert_all_to_v1beta2 V objs (acc @ [AsV1beta2 (HubV1beta2 (upgraded cr))]) = Inl p"
      by (simp add: convertV1beta1IntoV1beta2_read)
    from Cons.IH[OF this] obtain pre x post m' where "objs = pre @ x # post"
      "\<forall>x \<in> set pre. \<exists>m cr. UnmarshalJSON V x = Inr m \<and> well_formed1 m cr"
      "UnmarshalJSON V x = Inr m'" "\<nexists>cr. well_formed1 m' cr" by blast
    with m wf show ?thesis
      by (intro exI[of _ "obj # pre"] exI[of _ x] exI[of _ post] exI[of _ m']) auto
  qed
qed

lemma convert_all_to_v1beta1_ok:
  assumes "list_all2 (\<lambda>obj cr. \<exists>m. UnmarshalJSON V obj = Inr m \<and> well_formed2 m cr) objs crs"
  shows "convert_all_to_v1beta1 V objs acc =
    Inr (if \<exists>cr \<in> set crs. Quotas (Spec cr) = [] then Inl \<lparr>ConvRespUID = '''', ConvertedObjects = [],
        ConvResult = statusErrorWithMessage
        (''failed to convert from '' @ quoted ''resources.resourcelimiter.io/v1beta2'' @ '' into '' @
          quoted ''resources.resourcelimiter.io/v1beta1'')\<rparr>
      else Inr (acc @ map (\<lambda>cr. AsV1beta1 (snd (ConvertFrom empty_rl1 (HubV1beta2 cr)))) crs))"
  using assms
proof (induction objs crs arbitrary: acc rule: list_all2_induct)
  case Nil
  then show ?case by simp
next
  case (Cons obj objs cr crs)
  then obtain m where "UnmarshalJSON V obj = Inr m" "read_v1beta2 m = Inr cr"
    by (auto simp: read_v1beta2_iff)
  with Cons.IH show ?case
    by (simp add: convertV1beta2IntoV1beta1_eq statusErrorWithMessage_def del: ConvertFrom.simps)
qed

section \<open>Properties\<close>

text \<open>C24: the conversion of well-formed v1beta1 objects succeeds and gives one object each, in order - with
  twice as many quotas as the object has targets, the first half of them empty, and without the
  name and the rest of the metadata, which the API server requires to be preserved.\<close>

theorem doConversion_to_v1beta2:
  assumes "DesiredAPIVersion req = ''resources.resourcelimiter.io/v1beta2''"
    and "list_all2 (\<lambda>obj cr. \<exists>m. UnmarshalJSON V obj = Inr m \<and> well_formed1 m cr) (Objects req) crs"
  shows "\<exists>resp. doConversion V (Some req) = Inr resp \<and> ConvState (ConvResult resp) = ''Success'' \<and>
    ConvertedObjects resp = map (\<lambda>cr. AsV1beta2 (HubV1beta2 (empty_rl\<lparr>Spec :=
      \<lparr>Quotas = replicate (length (Targets (Spec1 cr))) empty_quota
         @ map (quota_for (Types (Spec1 cr))) (Targets (Spec1 cr)),
       Applied = Applied1 (Spec1 cr)\<rparr>\<rparr>))) crs"
  using convert_all_to_v1beta2_ok[OF assms(2), of "[]" "[]"] assms(1)
  by (simp add: doConversion_def finish_conversion_def upgraded_def StatusSuccess_def)

definition mem_converter :: converter where
  "mem_converter = \<lparr>UnmarshalJSON = \<lambda>raw. (case raw of Some (JObj m) \<Rightarrow> Inr m | _ \<Rightarrow> Inl ''not an object''),
     raw_text = \<lambda>_. ''raw'', decode_conversion = \<lambda>_ _. (Some ''no review'', None),
     encode_conversion = \<lambda>_ _. Inr ''answer'',
     ParseAccept = \<lambda>s. if s = ''*/*'' then [(''*'', ''*'')] else [(''text'', ''html''), (''application'', ''yaml'')]\<rparr>"

definition conversion_of :: "string \<Rightarrow> json list \<Rightarrow> ConversionRequest" where
  "conversion_of version js = \<lparr>ConvReqUID = ''u1'', DesiredAPIVersion = version, Objects = map Some js\<rparr>"

definition ex_v1beta1 :: "json \<Rightarrow> json" where
  "ex_v1beta1 spec = JObj [(''kind'', JStr ''ResourceLimiter''),
     (''metadata'', JObj [(''name'', JStr ''rl'')]), (''spec'', spec)]"

definition ex_spec1 :: "bool \<Rightarrow> ResourceLimiterSpec1" where
  "ex_spec1 b = \<lparr>Targets = [''default''], Types = [(''limits.cpu'', ''2'')], Applied1 = b\<rparr>"

theorem doConversion_to_v1beta2_witness:
  "\<exists>resp. doConversion mem_converter (Some (conversion_of ''resources.resourcelimiter.io/v1beta2''
       [ex_v1beta1 (json_of_spec1 (ex_spec1 True))])) = Inr resp \<and>
     ConvertedObjects resp = [AsV1beta2 (HubV1beta2 (empty_rl\<lparr>Spec := \<lparr>Quotas =
       [empty_quota, quota_for [(''limits.cpu'', ''2'')] ''default''], Applied = True\<rparr>\<rparr>))]"
proof -
  let ?req = "conversion_of ''resources.resourcelimiter.io/v1beta2'' [ex_v1beta1 (json_of_spec1 (ex_spec1 True))]"
  let ?cr = "empty_rl1\<lparr>Spec1 := ex_spec1 True\<rparr>"
  have wf: "well_formed1 [(''kind'', JStr ''ResourceLimiter''), (''metadata'', JObj [(''name'', JStr ''rl'')]),
      (''spec'', json_of_spec1 (ex_spec1 True))] ?cr"
    unfolding ex_spec1_def
    by (rule well_formed1I) (simp add: json_of_spec1_def json_of_types_def)+
  have "list_all2 (\<lambda>obj cr. \<exists>m. UnmarshalJSON mem_converter obj = Inr m \<and> well_formed1 m cr) (Objects ?req) [?cr]"
    using wf by (simp add: conversion_of_def ex_v1beta1_def mem_converter_def)
  from doConversion_to_v1beta2[OF _ this] show ?thesis
    by (auto simp: conversion_of_def ex_spec1_def)
qed

text \<open>The conversion to v1beta1 of well-formed objects fails as a whole, with no object, when one of them
  has no quota; otherwise it succeeds, and of each object every namespace and the values of the last
  quota survive.\<close>

theorem doConversion_to_v1beta1:
  assumes "DesiredAPIVersion req = ''resources.resourcelimiter.io/v1beta1''"
    and "list_all2 (\<lambda>obj cr. \<exists>m. UnmarshalJSON V obj = Inr m \<and> well_formed2 m cr) (Objects req) crs"
  shows "\<exists>resp. doConversion V (Some req) = Inr resp \<and>
    (if \<exists>cr \<in> set crs. Quotas (Spec cr) = []
     then ConvState (ConvResult resp) = ''Failure'' \<and> ConvertedObjects resp = []
     else ConvState (ConvResult resp) = ''Success'' \<and>
       list_all2 (\<lambda>c cr. \<exists>out. c = AsV1beta1 out \<and> Meta1 out = empty_meta \<and>
         Applied1 (Spec1 out) = Applied (Spec cr) \<and>
         Targets (Spec1 out) = map NamespaceName (Quotas (Spec cr)) \<and>
         map_of (Types (Spec1 out)) = type_value (last (Quotas (Spec cr)))) (ConvertedObjects resp) crs)"
proof -
  have o: "Meta1 (snd (ConvertFrom empty_rl1 (HubV1beta2 cr))) = empty_meta \<and>
      Applied1 (Spec1 (snd (ConvertFrom empty_rl1 (HubV1beta2 cr)))) = Applied (Spec cr) \<and>
      Targets (Spec1 (snd (ConvertFrom empty_rl1 (HubV1beta2 cr)))) = map NamespaceName (Quotas (Spec cr)) \<and>
      map_of (Types (Spec1 (snd (ConvertFrom empty_rl1 (HubV1beta2 cr))))) = type_value (last (Quotas (Spec cr)))"
    if "Quotas (Spec cr) \<noteq> []" for cr
    using that by (simp add: foldl_add_quota_targets foldl_add_quota_types Let_def) (simp add: empty_rl1_def)
  show ?thesis
    using convert_all_to_v1beta1_ok[OF assms(2), of "[]"] assms(1) o
    by (auto simp: doConversion_def finish_conversion_def StatusSuccess_def StatusFailure_def
      statusErrorWithMessage_def list_all2_conv_all_nth simp del: ConvertFrom.simps)
qed

theorem doConversion_to_v1beta1_witness:
  "\<exists>resp out. doConversion mem_converter (Some (conversion_of ''resources.resourcelimiter.io/v1beta1''
       [JObj [(''spec'', JObj [(''targets'', JArr [json_of_quota default_quota]), (''applied'', JBool True)])]])) = Inr resp \<and>
     ConvertedObjects resp = [AsV1beta1 out] \<and> Targets (Spec1 out) = [''default'']"
proof -
  let ?sp = "JObj [(''targets'', JArr [json_of_quota default_quota]), (''applied'', JBool True)]"
  let ?req = "conversion_of ''resources.resourcelimiter.io/v1beta1'' [JObj [(''spec'', ?sp)]]"
  let ?cr = "empty_rl\<lparr>Spec := \<lparr>Quotas = [default_quota], Applied = True\<rparr>\<rparr>"
  have "quota_shape (json_of_quota default_quota) default_quota"
    by (simp add: quota_shape_def json_of_quota_def default_quota_def opt_member_def)
  then have "list_all2 quota_shape [json_of_quota default_quota] [default_quota]" by simp
  then have "well_formed2 [(''spec'', ?sp)] ?cr" 
    by (rule well_formed2I[where sp = "[(''targets'', JArr [json_of_quota default_quota]), (''applied'', JBool True)]",
        rotated 2]) simp_all
  then have "list_all2 (\<lambda>obj cr. \<exists>m. UnmarshalJSON mem_converter obj = Inr m \<and> well_formed2 m cr) (Objects ?req) [?cr]"
    by (simp add: conversion_of_def mem_converter_def)
  from doConversion_to_v1beta1[OF _ this] show ?thesis
    by (fastforce simp: conversion_of_def list_all2_Cons2 default_quota_def)
qed

text \<open>C34: the conversion to v1beta2 panics exactly when there is an object that is JSON but not well-formed and
  the objects before it are; a spec without one of \<open>targets\<close>, \<open>types\<close> and \<open>applied\<close> is enough.\<close>

theorem doConversion_panics:
  assumes "DesiredAPIVersion req = ''resources.resourcelimiter.io/v1beta2''"
  shows "(\<exists>p. doConversion V (Some req) = Inl p) \<longleftrightarrow>
    (\<exists>pre obj post m. Objects req = pre @ obj # post \<and>
       (\<forall>x \<in> set pre. \<exists>m cr. UnmarshalJSON V x = Inr m \<and> well_formed1 m cr) \<and>
       UnmarshalJSON V obj = Inr m \<and> (\<nexists>cr. well_formed1 m cr))"
proof -
  have "(\<exists>p. doConversion V (Some req) = Inl p) \<longleftrightarrow> (\<exists>p. convert_all_to_v1beta2 V (Objects req) [] = Inl p)"
    using assms by (auto simp: doConversion_def finish_conversion_def and_then_def split: sum.splits)
  moreover have "\<exists>p. convert_all_to_v1beta2 V (Objects req) [] = Inl p"
    if s: "Objects req = pre @ obj # post" "\<forall>x \<in> set pre. \<exists>m cr. UnmarshalJSON V x = Inr m \<and> well_formed1 m cr"
      "UnmarshalJSON V obj = Inr m" "\<nexists>cr. well_formed1 m cr" for pre obj post m
  proof -
    from s(2) obtain f where "\<forall>x \<in> set pre. \<exists>m. UnmarshalJSON V x = Inr m \<and> well_formed1 m (f x)" by metis
    then have "list_all2 (\<lambda>obj cr. \<exists>m. UnmarshalJSON V obj = Inr m \<and> well_formed1 m cr) pre (map f pre)"
      by (simp add: list_all2_map2 list_all2_same)
    note go = convert_all_to_v1beta2_ok[OF this, of "obj # post" "[]"]
    have "\<exists>q. read_v1beta1 m = Inl q" using s(4) read_v1beta1_iff[of m] by (cases "read_v1beta1 m") auto
    with go s(1,3) show ?thesis by auto
  qed
  ultimately show ?thesis using convert_all_to_v1beta2_panics[of V "Objects req" "[]"] by blast
qed

theorem doConversion_panics_witness:
  "\<exists>p. doConversion mem_converter (Some (conversion_of ''resources.resourcelimiter.io/v1beta2''
       [ex_v1beta1 (json_of_spec1 (ex_spec1 False))])) = Inl p"
proof -
  let ?req = "conversion_of ''resources.resourcelimiter.io/v1beta2'' [ex_v1beta1 (json_of_spec1 (ex_spec1 False))]"
  let ?m = "[(''kind'', JStr ''ResourceLimiter''), (''metadata'', JObj [(''name'', JStr ''rl'')]),
      (''spec'', json_of_spec1 (ex_spec1 False))]"
  have "\<nexists>cr. well_formed1 ?m cr" by (auto simp: well_formed1_def json_of_spec1_def ex_spec1_def)
  moreover have "Objects ?req = [] @ Some (JObj ?m) # []" by (simp add: conversion_of_def ex_v1beta1_def)
  moreover have "UnmarshalJSON mem_converter (Some (JObj ?m)) = Inr ?m" by (simp add: mem_converter_def)
  moreover have "DesiredAPIVersion ?req = ''resources.resourcelimiter.io/v1beta2''" by (simp add: conversion_of_def)
  ultimately show ?thesis using doConversion_panics[of ?req mem_converter]
    by (metis empty_iff empty_set)
qed

text \<open>An object in the form in which Go marshals it is converted only if \<open>applied\<close> is true and targets and
  types are given; the tags say \<open>omitempty\<close>, so any other object makes the conversion panic.\<close>

theorem doConversion_of_marshalled:
  assumes "DesiredAPIVersion req = ''resources.resourcelimiter.io/v1beta2''" and "Objects req = [obj]"
    and "UnmarshalJSON V obj = Inr m" and "map_of m ''spec'' = Some (json_of_spec1 sp)"
  shows "(\<exists>p. doConversion V (Some req) = Inl p) \<longleftrightarrow> \<not> Applied1 sp \<or> Targets sp = [] \<or> Types sp = []"
proof -
  have "(\<exists>cr. well_formed1 m cr) \<longleftrightarrow> Applied1 sp \<and> Targets sp \<noteq> [] \<and> Types sp \<noteq> []"
    using assms(4) by (auto simp: well_formed1_def json_of_spec1_def json_of_types_def)
  then have r: "(\<exists>cr. read_v1beta1 m = Inr cr) \<longleftrightarrow> Applied1 sp \<and> Targets sp \<noteq> [] \<and> Types sp \<noteq> []"
    by (simp add: read_v1beta1_iff)
  show ?thesis
  proof (cases "read_v1beta1 m")
    case (Inl p)
    with assms r show ?thesis by (auto simp: doConversion_def finish_conversion_def)
  next
    case (Inr cr)
    then have "well_formed1 m cr" by (simp add: read_v1beta1_iff)
    with assms Inr r show ?thesis
      by (auto simp: doConversion_def finish_conversion_def convertV1beta1IntoV1beta2_read)
  qed
qed

theorem doConversion_of_marshalled_witness:
  "\<not> (\<exists>p. doConversion mem_converter (Some (conversion_of ''resources.resourcelimiter.io/v1beta2''
       [ex_v1beta1 (json_of_spec1 (ex_spec1 True))])) = Inl p)"
proof -
  let ?req = "conversion_of ''resources.resourcelimiter.io/v1beta2'' [ex_v1beta1 (json_of_spec1 (ex_spec1 True))]"
  let ?m = "[(''kind'', JStr ''ResourceLimiter''), (''metadata'', JObj [(''name'', JStr ''rl'')]),
      (''spec'', json_of_spec1 (ex_spec1 True))]"
  have h: "DesiredAPIVersion ?req = ''resources.resourcelimiter.io/v1beta2''" "Objects ?req = [Some (JObj ?m)]"
    "UnmarshalJSON mem_converter (Some (JObj ?m)) = Inr ?m" "map_of ?m ''spec'' = Some (json_of_spec1 (ex_spec1 True))"
    by (simp_all add: conversion_of_def ex_v1beta1_def mem_converter_def)
  from doConversion_of_marshalled[OF h] show ?thesis by (simp add: ex_spec1_def)
qed

section \<open>Media types\<close>

lemma split_slash:
  assumes "takeWhile (\<lambda>c. c \<noteq> CHR ''/'') s = a" and "dropWhile (\<lambda>c. c \<noteq> CHR ''/'') s = x # r"
  shows "s = a @ CHR ''/'' # r"
proof -
  have "x = CHR ''/''" using hd_dropWhile[of "\<lambda>c. c \<noteq> CHR ''/''" s] assms(2) by simp
  with assms show ?thesis by (metis takeWhile_dropWhile_id)
qed

text \<open>A request is decoded only if its content type is literally one of the two media types - a
  parameter such as a charset is refused - and an answer is encoded by a serializer that some clause
  of the Accept header asks for; there is none exactly when no clause matches one of the two types,
  whatever the order in which the map of serializers is visited.\<close>

theorem serializers_selected:
  assumes "set order = set serializers"
  shows "(getInputSerializer contentType = Some s \<longleftrightarrow>
      contentType = ''application/json'' \<and> s = JsonSerializer \<or>
      contentType = ''application/yaml'' \<and> s = YamlSerializer) \<and>
    (getOutputSerializer V order accept = None \<longleftrightarrow> accept \<noteq> '''' \<and>
      (\<forall>clause \<in> set (ParseAccept V accept). \<not> clause_matches clause (''application'', ''json'') \<and>
         \<not> clause_matches clause (''application'', ''yaml'')))"
proof
  show "getInputSerializer contentType = Some s \<longleftrightarrow>
      contentType = ''application/json'' \<and> s = JsonSerializer \<or>
      contentType = ''application/yaml'' \<and> s = YamlSerializer"
  proof
    assume "getInputSerializer contentType = Some s"
    with split_slash show "contentType = ''application/json'' \<and> s = JsonSerializer \<or>
        contentType = ''application/yaml'' \<and> s = YamlSerializer"
      by (fastforce simp: getInputSerializer_def serializers_def split: list.splits if_splits)
  qed (auto simp: getInputSerializer_def serializers_def)
  have find: "List.find (\<lambda>(k, v). clause_matches clause k) order = None \<longleftrightarrow>
      \<not> clause_matches clause (''application'', ''json'') \<and> \<not> clause_matches clause (''application'', ''yaml'')" for clause
    using assms by (auto simp: find_None_iff serializers_def)
  have "pick_serializer clauses order = None \<longleftrightarrow>
      (\<forall>clause \<in> set clauses. List.find (\<lambda>(k, v). clause_matches clause k) order = None)" for clauses
    by (induction clauses) (auto split: option.splits)
  then show "getOutputSerializer V order accept = None \<longleftrightarrow> accept \<noteq> '''' \<and>
      (\<forall>clause \<in> set (ParseAccept V accept). \<not> clause_matches clause (''application'', ''json'') \<and>
         \<not> clause_matches clause (''application'', ''yaml''))"
    unfolding find by (simp add: getOutputSerializer_def serializers_def)
qed

theorem serializers_selected_witness:
  "getInputSerializer ''application/json; charset=utf-8'' \<noteq> Some JsonSerializer \<and>
   getOutputSerializer mem_converter serializers ''*/*'' \<noteq> None \<and>
   getOutputSerializer mem_converter serializers ''*/*'' \<noteq> getOutputSerializer mem_converter (rev serializers) ''*/*''"
proof -
  note p = serializers_selected[where order = serializers and V = mem_converter, OF refl]
  have "getInputSerializer ''application/json; charset=utf-8'' \<noteq> Some JsonSerializer"
    using p[THEN conjunct1, of "''application/json; charset=utf-8''" JsonSerializer] by simp
  moreover have "getOutputSerializer mem_converter serializers ''*/*'' \<noteq> None"
    unfolding p[THEN conjunct2] by (simp add: mem_converter_def clause_matches_def)
  moreover have "getOutputSerializer mem_converter serializers ''*/*'' \<noteq>
      getOutputSerializer mem_converter (rev serializers) ''*/*''"
    by (simp add: getOutputSerializer_def mem_converter_def serializers_def clause_matches_def)
  ultimately show ?thesis by blast
qed

end
