(* ===== verification/Reconciler.thy ===== *)
theory Reconciler
  imports Kube_Client
begin

text \<open>
  The controller, \<open>controllers/resourcelimiter_controller.go\<close>: the event filter, \<open>Reconcile\<close> and the
  two branches it hands over to. Every function takes the client \<open>C\<close> and the helpers \<open>L\<close> and
  passes the world on through each call, in the order of the code; log lines are left out. A run
  ends with the returned error (\<open>Done None\<close> for \<open>nil\<close>; the \<open>ctrl.Result\<close> is always empty) or with
  a panic, and in both cases with the world as the calls made so far have left it.

  Pointers matter in one place: \<open>Reconcile\<close> mutates the object it has handed to
  \<open>client.MergeFrom\<close>. There the objects live in a store, addressed by numbers.
\<close>

section \<open>The event filter\<close>

record event_object =
  Generation :: int
  ResourceVersion :: string

datatype event = CreateEvent | UpdateEvent event_object event_object | DeleteEvent | GenericEvent

text \<open>\<open>predicate.Funcs\<close> lets every event pass whose function is not set.\<close>

fun eventPredicate :: "event \<Rightarrow> bool" where
  "eventPredicate (UpdateEvent objOld objNew) \<longleftrightarrow>
     Generation objOld \<noteq> Generation objNew \<or> ResourceVersion objOld \<noteq> ResourceVersion objNew"
| "eventPredicate _ \<longleftrightarrow> True"

section \<open>Reconciling a live object\<close>

text \<open>The names of the core resources, \<open>corev1.ResourceLimitsCPU\<close> and its kin.\<close>

definition ResourceLimitsCPU :: string where [go_defs]: "ResourceLimitsCPU = ''limits.cpu''"
definition ResourceRequestsCPU :: string where [go_defs]: "ResourceRequestsCPU = ''requests.cpu''"
definition ResourceLimitsMemory :: string where [go_defs]: "ResourceLimitsMemory = ''limits.memory''"
definition ResourceRequestsMemory :: string where
  [go_defs]: "ResourceRequestsMemory = ''requests.memory''"

text \<open>\<open>fmt.Sprintf("rl-quota-%s", ns)\<close>, and the key the quota of a namespace is looked up under.\<close>

definition quota_name :: "string \<Rightarrow> string" where
  "quota_name ns = ''rl-quota-'' @ ns"

definition quota_key :: "string \<Rightarrow> NamespacedName" where
  "quota_key ns = (ns, quota_name ns)"

text \<open>\<open>Inl\<close>: one of the four quantities does not parse and \<open>MustParse\<close> panics.\<close>

definition setHard ::
  "'q lib \<Rightarrow> 'q ResourceQuota \<Rightarrow> ResourceLimiterQuota \<Rightarrow> string + 'q ResourceQuota" where
  "setHard L resourceQuota quota =
     (case MustParse L (CpuLimit quota) of Inl m \<Rightarrow> Inl m
      | Inr v1 \<Rightarrow> let h1 = AList.update ResourceLimitsCPU v1 (Hard resourceQuota)
     in case MustParse L (CpuRequest quota) of Inl m \<Rightarrow> Inl m
      | Inr v2 \<Rightarrow> let h2 = AList.update ResourceRequestsCPU v2 h1
     in case MustParse L (MemLimit quota) of Inl m \<Rightarrow> Inl m
      | Inr v3 \<Rightarrow> let h3 = AList.update ResourceLimitsMemory v3 h2
     in case MustParse L (MemRequest quota) of Inl m \<Rightarrow> Inl m
      | Inr v4 \<Rightarrow> Inr (resourceQuota\<lparr>Hard := AList.update ResourceRequestsMemory v4 h3\<rparr>))"

text \<open>Lines 226 to 235: the labels of the copy of the namespace.\<close>

definition enable_label :: "string \<Rightarrow> (string, string) gomap \<Rightarrow> (string, string) gomap" where
  "enable_label k ls = (if map_of ls k \<noteq> Some ''enabled'' then AList.update k ''enabled'' ls else ls)"

definition label_namespace :: "Namespace \<Rightarrow> Namespace" where
  "label_namespace namespace =
     namespace\<lparr>Labels := enable_label ValidateNamespaceLabel
       (enable_label MutateNamespaceLabel (Labels namespace))\<rparr>"

text \<open>
  Lines 253 to 280: the quota does not exist. It is filled in and created, and then the function
  returns, whatever namespaces are left; the line appended to \<open>rlquotas\<close> is never used.
\<close>

definition create_quota ::
  "('q, 'w) client \<Rightarrow> 'q lib \<Rightarrow> ResourceLimiter \<Rightarrow> ResourceLimiterQuota \<Rightarrow> 'w \<Rightarrow>
     ResourceLimiterQuota list ctl \<times> 'w" where
  "create_quota C L rl quota w =
     (let rq = empty_rq\<lparr>QuotaName := quota_name (NamespaceName quota),
                        QuotaNamespace := NamespaceName quota\<rparr>
      in case SetControllerReference L rl rq of
           Inl e \<Rightarrow> (Return (Some e), w)
         | Inr rq1 \<Rightarrow>
             (case setHard L (rq1\<lparr>Hard := []\<rparr>) quota of
                Inl m \<Rightarrow> (Panic m, w)
              | Inr rq2 \<Rightarrow>
                  (case create_rq C rq2 w of
                     (Some er, w1) \<Rightarrow> (Return (Some er), w1)
                   | (None, w1) \<Rightarrow> (Return None, w1))))"

text \<open>Reading a missing key of \<open>Status.Used\<close> gives the zero quantity.\<close>

definition used_string :: "'q lib \<Rightarrow> 'q ResourceQuota \<Rightarrow> string \<Rightarrow> string" where
  "used_string L rq k =
     QuantityString L (case map_of (Used rq) k of None \<Rightarrow> QuantityZero L | Some v \<Rightarrow> v)"

definition status_entry :: "'q lib \<Rightarrow> 'q ResourceQuota \<Rightarrow> ResourceLimiterQuota \<Rightarrow> ResourceLimiterQuota" where
  "status_entry L rq quota =
     \<lparr>NamespaceName = QuotaName rq,
      CpuRequest = used_string L rq RetrainTypeRequestsCpu @ ''/'' @ CpuRequest quota,
      MemRequest = used_string L rq RetrainTypeRequestsMemory @ ''/'' @ MemRequest quota,
      CpuLimit = used_string L rq RetrainTypeLimitsCpu @ ''/'' @ CpuLimit quota,
      MemLimit = used_string L rq RetrainTypeLimitsMemory @ ''/'' @ MemLimit quota\<rparr>"

text \<open>Lines 284 to 302: the quota exists. Its limits are set anew; the status line is built from
  the usage it was read with.\<close>

definition update_quota ::
  "('q, 'w) client \<Rightarrow> 'q lib \<Rightarrow> 'q ResourceQuota \<Rightarrow> ResourceLimiterQuota \<Rightarrow>
     ResourceLimiterQuota list \<Rightarrow> 'w \<Rightarrow> ResourceLimiterQuota list ctl \<times> 'w" where
  "update_quota C L resourceQuota quota rlquotas w =
     (case setHard L (resourceQuota\<lparr>Hard := []\<rparr>) quota of
        Inl m \<Rightarrow> (Panic m, w)
      | Inr rq1 \<Rightarrow>
          let rlquotas' = rlquotas @ [status_entry L resourceQuota quota]
          in (case update_rq C rq1 w of
                (Some er, w1) \<Rightarrow> (Return (Some er), w1)
              | (None, w1) \<Rightarrow> (Continue rlquotas', w1)))"

text \<open>Lines 245 to 303: \<open>applied\<close> is set.\<close>

definition apply_quota ::
  "('q, 'w) client \<Rightarrow> 'q lib \<Rightarrow> ResourceLimiter \<Rightarrow> ResourceLimiterQuota \<Rightarrow>
     ResourceLimiterQuota list \<Rightarrow> 'w \<Rightarrow> ResourceLimiterQuota list ctl \<times> 'w" where
  "apply_quota C L rl quota rlquotas w =
     (case get_rq C (quota_key (NamespaceName quota)) w of
        (Inl e, w1) \<Rightarrow> if e = NotFound then create_quota C L rl quota w1 else (Return (Some e), w1)
      | (Inr resourceQuota, w1) \<Rightarrow> update_quota C L resourceQuota quota rlquotas w1)"

text \<open>Lines 304 to 319: \<open>applied\<close> is not set; the quota goes away.\<close>

definition remove_quota ::
  "('q, 'w) client \<Rightarrow> ResourceLimiterQuota \<Rightarrow> ResourceLimiterQuota list \<Rightarrow> 'w \<Rightarrow>
     ResourceLimiterQuota list ctl \<times> 'w" where
  "remove_quota C quota rlquotas w =
     (case get_rq C (quota_key (NamespaceName quota)) w of
        (Inl e, w1) \<Rightarrow> if e = NotFound then (Continue rlquotas, w1) else (Return (Some e), w1)
      | (Inr resourceQuota, w1) \<Rightarrow>
          (case delete_rq C resourceQuota w1 of
             (Some e, w2) \<Rightarrow> (Return (Some e), w2)
           | (None, w2) \<Rightarrow> (Continue rlquotas, w2)))"

text \<open>Lines 210 to 320: one round of the loop over \<open>rl.Spec.Quotas\<close>.\<close>

definition reconcile_quota ::
  "('q, 'w) client \<Rightarrow> 'q lib \<Rightarrow> ResourceLimiter \<Rightarrow> ResourceLimiterQuota \<Rightarrow>
     ResourceLimiterQuota list \<Rightarrow> 'w \<Rightarrow> ResourceLimiterQuota list ctl \<times> 'w" where
  "reconcile_quota C L rl quota rlquotas w =
     (if NamespaceName quota = IgnoreKubeSystem \<or> NamespaceName quota = IgnoreKubePublic
      then (Continue rlquotas, w)
      else case get_ns C (NamespaceName quota, NamespaceName quota) w of
             (Inl e, w1) \<Rightarrow> (Return (Some e), w1)
           | (Inr namespace, w1) \<Rightarrow>
               (case update_ns C (label_namespace namespace) w1 of
                  (Some e, w2) \<Rightarrow> (Return (Some e), w2)
                | (None, w2) \<Rightarrow>
                    if Applied (Spec rl) then apply_quota C L rl quota rlquotas w2
                    else remove_quota C quota rlquotas w2))"

definition updateStatus ::
  "('q, 'w) client \<Rightarrow> ResourceLimiter \<Rightarrow> ResourceLimiterStatus \<Rightarrow> 'w \<Rightarrow> go_error option \<times> 'w" where
  "updateStatus C rl status w =
     update_status C (rl\<lparr>Status := \<lparr>State = State status, StatusQuotas = [] @ StatusQuotas status\<rparr>\<rparr>) w"

definition reconcile ::
  "('q, 'w) client \<Rightarrow> 'q lib \<Rightarrow> ResourceLimiter \<Rightarrow> 'w \<Rightarrow> outcome \<times> 'w" where
  "reconcile C L rl w =
     (case for_loop (reconcile_quota C L rl) (Quotas (Spec rl)) [] w of
        (Return e, w1) \<Rightarrow> (Done e, w1)
      | (Panic m, w1) \<Rightarrow> (Panicked m, w1)
      | (Continue rlquotas, w1) \<Rightarrow>
          if Applied (Spec rl)
          then (case updateStatus C rl \<lparr>State = Ready, StatusQuotas = rlquotas\<rparr> w1 of
                  (Some e, w2) \<Rightarrow> (Done (Some e), w2)
                | (None, w2) \<Rightarrow> (Done None, w2))
          else (case updateStatus C rl \<lparr>State = Stopped, StatusQuotas = []\<rparr> w1 of
                  (e, w2) \<Rightarrow> (Done e, w2)))"

section \<open>Reconciling an object under deletion\<close>

text \<open>Lines 165 to 170: the loop over the labels deletes from the copy's map.\<close>

definition unlabel_namespace :: "Namespace \<Rightarrow> Namespace" where
  "unlabel_namespace namespace =
     namespace\<lparr>Labels := foldl (\<lambda>ls (k, _).
         if k = MutateNamespaceLabel \<or> k = ValidateNamespaceLabel then AList.delete k ls else ls)
       (Labels namespace) (Labels namespace)\<rparr>"

text \<open>Lines 132 to 176: one round of the loop.\<close>

definition delete_quota ::
  "('q, 'w) client \<Rightarrow> ResourceLimiterQuota \<Rightarrow> unit \<Rightarrow> 'w \<Rightarrow> unit ctl \<times> 'w" where
  "delete_quota C quota u w =
     (case get_ns C ('''', NamespaceName quota) w of
        (Inl e, w1) \<Rightarrow> if e = NotFound then (Continue (), w1) else (Return (Some e), w1)
      | (Inr _, w1) \<Rightarrow>
     (case get_rq C (quota_key (NamespaceName quota)) w1 of
        (Inl e, w2) \<Rightarrow> (Return (Some e), w2)
      | (Inr resourceQuota, w2) \<Rightarrow>
     (case delete_rq C resourceQuota w2 of
        (Some e, w3) \<Rightarrow> (Return (Some e), w3)
      | (None, w3) \<Rightarrow>
     (case get_ns C (NamespaceName quota, NamespaceName quota) w3 of
        (Inl e, w4) \<Rightarrow> (Return (Some e), w4)
      | (Inr namespace, w4) \<Rightarrow>
     (case update_ns C (unlabel_namespace namespace) w4 of
        (Some e, w5) \<Rightarrow> (Return (Some e), w5)
      | (None, w5) \<Rightarrow> (Continue (), w5))))))"

text \<open>The store of objects that pointers go to, and what a patch takes as its base when it is sent.\<close>

type_synonym rl_store = "nat \<Rightarrow> ResourceLimiter"

fun base_value :: "rl_store \<Rightarrow> merge_base \<Rightarrow> ResourceLimiter" where
  "base_value h (BaseRef p) = h p"
| "base_value h (BaseCopy rl) = rl"

text \<open>Lines 179 to 187. \<open>newrl\<close> lives at address 1, the further copy handed to \<open>MergeFrom\<close> at 2.\<close>

definition remove_our_finalizer ::
  "('q, 'w) client \<Rightarrow> 'q lib \<Rightarrow> ResourceLimiter \<Rightarrow> 'w \<Rightarrow> outcome \<times> 'w" where
  "remove_our_finalizer C L rl w =
     (let h = (\<lambda>_. empty_rl)(1 := rl, 2 := rl);
          patch = MergeFrom L 2 (h 2);
          h' = h(1 := RemoveFinalizer L (h 1) DefaultFinalizer)
      in case patch_rl C (base_value h' patch) (h' 1) w of
           (Some e, w1) \<Rightarrow> (Done (Some e), w1)
         | (None, w1) \<Rightarrow> (Done None, w1))"

definition reconcileDelete ::
  "('q, 'w) client \<Rightarrow> 'q lib \<Rightarrow> ResourceLimiter \<Rightarrow> 'w \<Rightarrow> outcome \<times> 'w" where
  "reconcileDelete C L rl w =
     (if \<not> ContainsFinalizer L rl DefaultFinalizer
      then (Done (Some (Failure (''no finalizer found on '' @ rl_name rl @ '' resourcelimiter CR''))), w)
      else if State (Status rl) \<noteq> Stopped
      then (case for_loop (delete_quota C) (Quotas (Spec rl)) () w of
              (Return e, w1) \<Rightarrow> (Done e, w1)
            | (Panic m, w1) \<Rightarrow> (Panicked m, w1)
            | (Continue _, w1) \<Rightarrow> remove_our_finalizer C L rl w1)
      else remove_our_finalizer C L rl w)"

section \<open>Reconcile\<close>

text \<open>
  Lines 79 to 92. \<open>newrl\<close> lives at address 1; the patch is made from that same pointer before the
  finalizer is added through it. \<open>Inl\<close>: the call failed and \<open>Reconcile\<close> returns the error.
\<close>

definition register_finalizer ::
  "('q, 'w) client \<Rightarrow> 'q lib \<Rightarrow> string \<Rightarrow> ResourceLimiter \<Rightarrow> 'w \<Rightarrow> (go_error + ResourceLimiter) \<times> 'w" where
  "register_finalizer C L name rl w =
     (let h = (\<lambda>_. empty_rl)(1 := rl)
      in if \<not> ContainsFinalizer L (h 1) DefaultFinalizer
         then let patch = MergeFrom L 1 (h 1);
                  h' = h(1 := AddFinalizer L (h 1) DefaultFinalizer)
              in (case patch_rl C (base_value h' patch) (h' 1) w of
                    (Some e, w1) \<Rightarrow> (Inl e, w1)
                  | (None, w1) \<Rightarrow>
                      (case get_rl C name w1 of
                         (Inl e, w2) \<Rightarrow> (Inl e, w2)
                       | (Inr rl', w2) \<Rightarrow> (Inr rl', w2)))
         else (Inr rl, w))"

text \<open>\<open>req.NamespacedName\<close> of a cluster-scoped object is its name.\<close>

definition Reconcile ::
  "('q, 'w) client \<Rightarrow> 'q lib \<Rightarrow> string \<Rightarrow> 'w \<Rightarrow> outcome \<times> 'w" where
  "Reconcile C L req w =
     (case get_rl C req w of
        (Inl e, w1) \<Rightarrow> (Done (Some e), w1)
      | (Inr rl0, w1) \<Rightarrow>
          (case register_finalizer C L req rl0 w1 of
             (Inl e, w2) \<Rightarrow> (Done (Some e), w2)
           | (Inr rl, w2) \<Rightarrow>
               if DeletionTimestamp (Meta rl) \<noteq> None then reconcileDelete C L rl w2
               else reconcile C L rl w2))"

end
