(* ===== verification/Api_Laws.thy ===== *)
theory Api_Laws
  imports Kube_Client
begin

text \<open>
  The contracts of the client and of the helpers as locales, and the in-memory API server and
  helper library they are interpreted on.
\<close>

text \<open>Object names in the maps and in the objects agree, as they do on an API server.\<close>

definition well_keyed :: "'q cluster \<Rightarrow> bool" where
  "well_keyed c \<longleftrightarrow>
     (\<forall>n x. Rls c n = Some x \<longrightarrow> rl_name x = n) \<and>
     (\<forall>n x. Nss c n = Some x \<longrightarrow> NsName x = n) \<and>
     (\<forall>k x. Rqs c k = Some x \<longrightarrow> key_of x = k)"

section \<open>What the client promises\<close>

locale kube_api =
  fixes C :: "('q, 'w) client" and abs :: "'w \<Rightarrow> 'q cluster"
  assumes well_keyed_abs [simp]: "well_keyed (abs w)"
    and get_rl_abs: "get_rl C n w = (r, w') \<Longrightarrow> abs w' = abs w"
    and get_rl_found: "get_rl C n w = (Inr x, w') \<Longrightarrow> Rls (abs w) n = Some x"
    and get_rl_missing: "get_rl C n w = (Inl NotFound, w') \<Longrightarrow> Rls (abs w) n = None"
    and get_ns_abs: "get_ns C k w = (r1, w') \<Longrightarrow> abs w' = abs w"
    and get_ns_found: "get_ns C k w = (Inr ns, w') \<Longrightarrow> Nss (abs w) (snd k) = Some ns"
    and get_ns_missing: "get_ns C k w = (Inl NotFound, w') \<Longrightarrow> Nss (abs w) (snd k) = None"
    and get_rq_abs: "get_rq C k w = (r2, w') \<Longrightarrow> abs w' = abs w"
    and get_rq_found: "get_rq C k w = (Inr rq, w') \<Longrightarrow> Rqs (abs w) k = Some rq"
    and get_rq_missing: "get_rq C k w = (Inl NotFound, w') \<Longrightarrow> Rqs (abs w) k = None"
    and update_ns_ok: "update_ns C n' w = (None, w') \<Longrightarrow>
      Nss (abs w) (NsName n') \<noteq> None \<and> abs w' = eff_update_ns n' (abs w)"
    and update_ns_failed: "update_ns C n' w = (Some e, w') \<Longrightarrow>
      abs w' = abs w \<or> Nss (abs w) (NsName n') \<noteq> None \<and> abs w' = eff_update_ns n' (abs w)"
    and create_rq_ok: "create_rq C rq w = (None, w') \<Longrightarrow>
      Rqs (abs w) (key_of rq) = None \<and> abs w' = eff_create_rq rq (abs w)"
    and create_rq_failed: "create_rq C rq w = (Some e, w') \<Longrightarrow>
      abs w' = abs w \<or> Rqs (abs w) (key_of rq) = None \<and> abs w' = eff_create_rq rq (abs w)"
    and update_rq_ok: "update_rq C rq w = (None, w') \<Longrightarrow>
      Rqs (abs w) (key_of rq) \<noteq> None \<and> abs w' = eff_update_rq rq (abs w)"
    and update_rq_failed: "update_rq C rq w = (Some e, w') \<Longrightarrow>
      abs w' = abs w \<or> abs w' = eff_update_rq rq (abs w)"
    and delete_rq_ok: "delete_rq C rq w = (None, w') \<Longrightarrow>
      Rqs (abs w) (key_of rq) \<noteq> None \<and> abs w' = eff_delete_rq rq (abs w)"
    and delete_rq_failed: "delete_rq C rq w = (Some e, w') \<Longrightarrow>
      abs w' = abs w \<or> abs w' = eff_delete_rq rq (abs w)"
    and update_status_ok: "update_status C x w = (None, w') \<Longrightarrow>
      Rls (abs w) (rl_name x) \<noteq> None \<and> abs w' = eff_status x (abs w)"
    and update_status_failed: "update_status C x w = (Some e, w') \<Longrightarrow>
      abs w' = abs w \<or> abs w' = eff_status x (abs w)"
    and patch_rl_ok: "patch_rl C base obj w = (None, w') \<Longrightarrow>
      obj = set_finalizers (Finalizers (Meta obj)) base \<Longrightarrow>
      Rls (abs w) (rl_name obj) \<noteq> None \<and> abs w' = eff_patch base obj (abs w)"
    and patch_rl_failed: "patch_rl C base obj w = (Some e, w') \<Longrightarrow>
      obj = set_finalizers (Finalizers (Meta obj)) base \<Longrightarrow>
      abs w' = abs w \<or> abs w' = eff_patch base obj (abs w)"

text \<open>No faults: a call fails only for a reason that lies in the cluster.\<close>

locale reliable_api = kube_api +
  assumes get_rl_total: "\<exists>w'. get_rl C n w =
      ((case Rls (abs w) n of None \<Rightarrow> Inl NotFound | Some x \<Rightarrow> Inr x), w')"
    and get_ns_total: "\<exists>w'. get_ns C k w =
      ((case Nss (abs w) (snd k) of None \<Rightarrow> Inl NotFound | Some x \<Rightarrow> Inr x), w')"
    and get_rq_total: "\<exists>w'. get_rq C k w =
      ((case Rqs (abs w) k of None \<Rightarrow> Inl NotFound | Some x \<Rightarrow> Inr x), w')"
    and update_ns_total: "Nss (abs w) (NsName n') \<noteq> None \<Longrightarrow> fst (update_ns C n' w) = None"
    and create_rq_total: "Rqs (abs w) (key_of rq) = None \<Longrightarrow> fst (create_rq C rq w) = None"
    and update_rq_total: "Rqs (abs w) (key_of rq) \<noteq> None \<Longrightarrow> fst (update_rq C rq w) = None"
    and delete_rq_total: "Rqs (abs w) (key_of rq) \<noteq> None \<Longrightarrow> fst (delete_rq C rq w) = None"
    and update_status_total: "Rls (abs w) (rl_name x) \<noteq> None \<Longrightarrow> fst (update_status C x w) = None"
    and patch_rl_total: "Rls (abs w) (rl_name obj) \<noteq> None \<Longrightarrow> fst (patch_rl C base obj w) = None"

section \<open>What the helpers promise\<close>

locale kube_lib =
  fixes L :: "'q lib"
  assumes ContainsFinalizer_iff: "ContainsFinalizer L rl f \<longleftrightarrow> f \<in> set (Finalizers (Meta rl))"
    and AddFinalizer_eq: "f \<notin> set (Finalizers (Meta rl)) \<Longrightarrow>
      AddFinalizer L rl f = set_finalizers (Finalizers (Meta rl) @ [f]) rl"
    and RemoveFinalizer_eq:
      "RemoveFinalizer L rl f = set_finalizers (filter (\<lambda>g. g \<noteq> f) (Finalizers (Meta rl))) rl"
    and MergeFrom_cases: "MergeFrom L p rl = BaseRef p \<or> MergeFrom L p rl = BaseCopy rl"
    and SetControllerReference_ok: "SetControllerReference L rl rq = Inr rq' \<Longrightarrow>
      rq' = rq\<lparr>Owner := Some (rl_name rl)\<rparr>"
    and SetControllerReference_total: "Owner rq = None \<Longrightarrow>
      SetControllerReference L rl rq = Inr (rq\<lparr>Owner := Some (rl_name rl)\<rparr>)"

text \<open>A quantity is printed in a form that parses.\<close>

locale quantity_lib =
  fixes L :: "'q lib"
  assumes printed_parses: "MustParse L (QuantityString L q) \<noteq> Inl m"

section \<open>An in-memory API server\<close>

text \<open>
  Its world is a cluster; an entry whose object does not carry the key it is stored under is
  treated as absent (\<open>proper\<close>), so every world is a store of well-named objects.
\<close>

definition proper :: "'q cluster \<Rightarrow> 'q cluster" where
  "proper c =
     c\<lparr>Rls := (\<lambda>n. case Rls c n of None \<Rightarrow> None | Some x \<Rightarrow> if rl_name x = n then Some x else None),
       Nss := (\<lambda>n. case Nss c n of None \<Rightarrow> None | Some x \<Rightarrow> if NsName x = n then Some x else None),
       Rqs := (\<lambda>k. case Rqs c k of None \<Rightarrow> None | Some x \<Rightarrow> if key_of x = k then Some x else None)\<rparr>"

definition found :: "'a option \<Rightarrow> go_error + 'a" where
  "found r = (case r of None \<Rightarrow> Inl NotFound | Some x \<Rightarrow> Inr x)"

definition guarded ::
  "('q cluster \<Rightarrow> bool) \<Rightarrow> ('q cluster \<Rightarrow> 'q cluster) \<Rightarrow> 'q cluster \<Rightarrow> go_error option \<times> 'q cluster" where
  "guarded g f c = (if g (proper c) then (None, f (proper c)) else (Some NotFound, c))"

definition mem_client :: "('q, 'q cluster) client" where
  "mem_client =
     \<lparr>get_rl = \<lambda>n c. (found (Rls (proper c) n), c),
      patch_rl = \<lambda>base obj. guarded (\<lambda>c. Rls c (rl_name obj) \<noteq> None) (eff_patch base obj),
      update_status = \<lambda>x. guarded (\<lambda>c. Rls c (rl_name x) \<noteq> None) (eff_status x),
      get_ns = \<lambda>k c. (found (Nss (proper c) (snd k)), c),
      update_ns = \<lambda>n. guarded (\<lambda>c. Nss c (NsName n) \<noteq> None) (eff_update_ns n),
      get_rq = \<lambda>k c. (found (Rqs (proper c) k), c),
      create_rq = \<lambda>rq. guarded (\<lambda>c. Rqs c (key_of rq) = None) (eff_create_rq rq),
      update_rq = \<lambda>rq. guarded (\<lambda>c. Rqs c (key_of rq) \<noteq> None) (eff_update_rq rq),
      delete_rq = \<lambda>rq. guarded (\<lambda>c. Rqs c (key_of rq) \<noteq> None) (eff_delete_rq rq)\<rparr>"

lemma well_keyed_proper [simp]: "well_keyed (proper c)"
  by (auto simp: well_keyed_def proper_def split: option.splits if_splits)

lemma proper_id: "well_keyed c \<Longrightarrow> proper c = c"
  by (cases c) (auto simp: well_keyed_def proper_def fun_eq_iff split: option.splits)

lemma well_keyed_eff [simp]:
  assumes "well_keyed c"
  shows "well_keyed (eff_update_ns n c)" "well_keyed (eff_create_rq rq c)"
    "well_keyed (eff_update_rq rq c)" "well_keyed (eff_delete_rq rq c)"
    "well_keyed (eff_status x c)" "well_keyed (eff_patch base obj c)"
  using assms by (auto simp: well_keyed_def eff_defs split: option.splits)

lemmas proper_eff [simp] = well_keyed_eff [THEN proper_id, OF well_keyed_proper]

lemma proper_proper [simp]: "proper (proper c) = proper c"
  by (simp add: proper_id)

lemma found_simps [simp]: "found r = Inr x \<longleftrightarrow> r = Some x" "found r = Inl e \<longleftrightarrow> r = None \<and> e = NotFound"
  by (auto simp: found_def split: option.splits)

lemma well_keyedD:
  assumes "well_keyed c"
  shows "Rls c n = Some x \<Longrightarrow> rl_name x = n" "Nss c m = Some y \<Longrightarrow> NsName y = m"
    "Rqs c k = Some z \<Longrightarrow> key_of z = k"
  using assms unfolding well_keyed_def by blast+

interpretation mem: reliable_api mem_client proper
  by unfold_locales (auto simp: mem_client_def guarded_def found_def split: if_splits option.splits)

section \<open>An in-memory helper library\<close>

text \<open>
  Quantities are their texts; a text is a quantity when it starts with a digit. \<open>MergeFrom\<close> keeps
  the pointer, as controller-runtime 0.12 (the version in \<open>go.mod\<close>) does.
\<close>

definition mem_lib :: "string lib" where
  "mem_lib =
     \<lparr>MustParse = \<lambda>s. if s \<noteq> [] \<and> hd s \<in> set ''0123456789'' then Inr s
        else Inl (''cannot parse '' @ s),
      QuantityString = (\<lambda>q. if q \<noteq> [] \<and> hd q \<in> set ''0123456789'' then q else ''0''),
      QuantityZero = ''0'',
      ContainsFinalizer = \<lambda>rl f. f \<in> set (Finalizers (Meta rl)),
      AddFinalizer = \<lambda>rl f. if f \<in> set (Finalizers (Meta rl)) then rl
        else set_finalizers (Finalizers (Meta rl) @ [f]) rl,
      RemoveFinalizer = \<lambda>rl f. set_finalizers (filter (\<lambda>g. g \<noteq> f) (Finalizers (Meta rl))) rl,
      MergeFrom = \<lambda>p rl. BaseRef p,
      SetControllerReference = \<lambda>rl rq.
        if Owner rq \<noteq> None \<and> Owner rq \<noteq> Some (rl_name rl) then Inl (Failure ''already owned'')
        else Inr (rq\<lparr>Owner := Some (rl_name rl)\<rparr>)\<rparr>"

interpretation memq: quantity_lib mem_lib
  by unfold_locales (auto simp: mem_lib_def)

interpretation memlib: kube_lib mem_lib
  by unfold_locales (auto simp: mem_lib_def split: if_splits)

end
