(* ===== verification/Reconciler_Spec.thy ===== *)
theory Reconciler_Spec
  imports Reconciler Api_Laws
begin

text \<open>
  What the controller is meant to achieve, stated on the cluster alone, and the frame of one pass
  over the quotas of an object: which part of the cluster a pass may touch. The frame is a
  contract (\<open>quota_pass\<close>) shared by the two loops of the controller.
\<close>

section \<open>Vocabulary\<close>

definition ignored :: "string \<Rightarrow> bool" where
  "ignored ns \<longleftrightarrow> ns = IgnoreKubeSystem \<or> ns = IgnoreKubePublic"

text \<open>The quota limits the four resources to the four values of the entry, and nothing else.\<close>

definition enforces :: "'q lib \<Rightarrow> ResourceLimiterQuota \<Rightarrow> 'q ResourceQuota \<Rightarrow> bool" where
  "enforces L quota rq \<longleftrightarrow>
     (\<exists>v1 v2 v3 v4. MustParse L (CpuLimit quota) = Inr v1 \<and> MustParse L (CpuRequest quota) = Inr v2 \<and>
        MustParse L (MemLimit quota) = Inr v3 \<and> MustParse L (MemRequest quota) = Inr v4 \<and>
        Hard rq = [(''limits.cpu'', v1), (''requests.cpu'', v2),
                   (''limits.memory'', v3), (''requests.memory'', v4)])"

definition parses :: "'q lib \<Rightarrow> ResourceLimiterQuota \<Rightarrow> bool" where
  "parses L quota \<longleftrightarrow>
     (\<exists>v. MustParse L (CpuLimit quota) = Inr v) \<and> (\<exists>v. MustParse L (CpuRequest quota) = Inr v) \<and>
     (\<exists>v. MustParse L (MemLimit quota) = Inr v) \<and> (\<exists>v. MustParse L (MemRequest quota) = Inr v)"

definition enabled :: "Namespace \<Rightarrow> bool" where
  "enabled n \<longleftrightarrow> map_of (Labels n) MutateNamespaceLabel = Some ''enabled'' \<and>
     map_of (Labels n) ValidateNamespaceLabel = Some ''enabled''"

definition unlabelled :: "Namespace \<Rightarrow> bool" where
  "unlabelled n \<longleftrightarrow> map_of (Labels n) MutateNamespaceLabel = None \<and>
     map_of (Labels n) ValidateNamespaceLabel = None"

definition ns_enabled :: "'q cluster \<Rightarrow> string \<Rightarrow> bool" where
  "ns_enabled c ns \<longleftrightarrow> (\<exists>n. Nss c ns = Some n \<and> enabled n)"

text \<open>The namespace of the entry is labelled and carries the quota the entry asks for.\<close>

definition converged :: "'q lib \<Rightarrow> 'q cluster \<Rightarrow> ResourceLimiterQuota \<Rightarrow> bool" where
  "converged L c quota \<longleftrightarrow> ns_enabled c (NamespaceName quota) \<and>
     (\<exists>rq. Rqs c (quota_key (NamespaceName quota)) = Some rq \<and> enforces L quota rq)"

text \<open>Where a namespace is listed more than once, the last entry counts.\<close>

definition effective :: "ResourceLimiterQuota list \<Rightarrow> string \<rightharpoonup> ResourceLimiterQuota" where
  "effective quotas = map_of (rev (map (\<lambda>q. (NamespaceName q, q)) quotas))"

lemma effective_simps [simp]:
  "effective [] = Map.empty"
  "effective (qs @ [q]) = (effective qs)(NamespaceName q \<mapsto> q)"
  by (simp_all add: effective_def)

lemma effective_distinct:
  "distinct (map NamespaceName qs) \<Longrightarrow> q \<in> set qs \<Longrightarrow> effective qs (NamespaceName q) = Some q"
proof (induction qs rule: rev_induct)
  case Nil
  then show ?case by simp
next
  case (snoc x qs)
  then show ?case by (cases "q = x") (auto simp: image_iff)
qed

lemma quota_key_inject [simp]: "quota_key a = quota_key b \<longleftrightarrow> a = b"
  by (auto simp: quota_key_def)

lemma quota_key_sel [simp]: "fst (quota_key ns) = ns" "snd (quota_key ns) = quota_name ns"
  by (simp_all add: quota_key_def)

section \<open>What a pass may touch\<close>

definition labels_kept :: "Namespace \<Rightarrow> Namespace \<Rightarrow> bool" where
  "labels_kept n n' \<longleftrightarrow> NsName n' = NsName n \<and>
     (\<forall>k. k \<noteq> MutateNamespaceLabel \<longrightarrow> k \<noteq> ValidateNamespaceLabel \<longrightarrow>
        map_of (Labels n') k = map_of (Labels n) k)"

definition only_touches :: "string set \<Rightarrow> 'q cluster \<Rightarrow> 'q cluster \<Rightarrow> bool" where
  "only_touches N c c' \<longleftrightarrow> Rls c' = Rls c \<and>
     (\<forall>n. rel_option labels_kept (Nss c n) (Nss c' n)) \<and>
     (\<forall>n. n \<notin> N \<longrightarrow> Nss c' n = Nss c n) \<and>
     (\<forall>k. k \<notin> quota_key ` N \<longrightarrow> Rqs c' k = Rqs c k)"

lemma labels_kept_refl [simp]: "labels_kept n n"
  by (simp add: labels_kept_def)

lemma labels_kept_trans: "labels_kept a b \<Longrightarrow> labels_kept b c \<Longrightarrow> labels_kept a c"
  by (simp add: labels_kept_def)

lemma only_touches_refl [simp]: "only_touches N c c"
  by (simp add: only_touches_def option.rel_refl)

lemma only_touches_trans:
  assumes "only_touches N a b" and "only_touches N b c"
  shows "only_touches N a c"
proof -
  have "rel_option labels_kept (Nss a n) (Nss c n)" for n
  proof -
    have "rel_option labels_kept (Nss a n) (Nss b n)" "rel_option labels_kept (Nss b n) (Nss c n)"
      using assms by (simp_all add: only_touches_def)
    then show ?thesis by (auto elim!: option.rel_cases intro: labels_kept_trans)
  qed
  with assms show ?thesis by (simp add: only_touches_def)
qed

lemma only_touches_mono: "only_touches M c c' \<Longrightarrow> M \<subseteq> N \<Longrightarrow> only_touches N c c'"
  unfolding only_touches_def by blast

lemma only_touchesD:
  assumes "only_touches N c c'"
  shows "Rls c' = Rls c" "n \<notin> N \<Longrightarrow> Nss c' n = Nss c n" "Nss c' n = None \<longleftrightarrow> Nss c n = None"
    "k \<notin> quota_key ` N \<Longrightarrow> Rqs c' k = Rqs c k"
proof -
  have "rel_option labels_kept (Nss c n) (Nss c' n)" using assms by (simp add: only_touches_def)
  then show "Nss c' n = None \<longleftrightarrow> Nss c n = None" by (cases "Nss c n"; cases "Nss c' n") auto
qed (use assms in \<open>unfold only_touches_def, blast+\<close>)

lemma only_touches_update_ns:
  "Nss c (NsName n') = Some n \<Longrightarrow> labels_kept n n' \<Longrightarrow> NsName n' \<in> N \<Longrightarrow>
     only_touches N c (eff_update_ns n' c)"
  by (auto simp: only_touches_def eff_update_ns_def option.rel_refl)

lemma only_touches_rq:
  assumes "key_of rq \<in> quota_key ` N"
  shows "only_touches N c (eff_create_rq rq c)" "only_touches N c (eff_update_rq rq c)"
    "only_touches N c (eff_delete_rq rq c)"
  using assms by (auto simp: only_touches_def eff_defs option.rel_refl split: option.splits)

text \<open>
  The contract of a loop body: the round for one entry touches what belongs to that entry's scope.
  The client of the contract is the loop.
\<close>

locale quota_pass =
  fixes body :: "ResourceLimiterQuota \<Rightarrow> 's \<Rightarrow> 'w \<Rightarrow> 's ctl \<times> 'w"
    and abs :: "'w \<Rightarrow> 'q cluster" and scope :: "ResourceLimiterQuota \<Rightarrow> string set"
  assumes round_local: "body q s w = (r, w') \<Longrightarrow> only_touches (scope q) (abs w) (abs w')"
begin

lemma loop_local:
  assumes "for_loop body qs s w = (r, w')"
  shows "only_touches (\<Union>q \<in> set qs. scope q) (abs w) (abs w')"
proof (rule for_loop_invariant[where I = "\<lambda>u. only_touches (\<Union>q \<in> set qs. scope q) (abs w) (abs u)",
      OF assms])
  fix x s u r u'
  assume "x \<in> set qs" "body x s u = (r, u')" "only_touches (\<Union>q \<in> set qs. scope q) (abs w) (abs u)"
  then show "only_touches (\<Union>q \<in> set qs. scope q) (abs w) (abs u')"
    using round_local only_touches_mono[of "scope x"] by (meson UN_upper only_touches_trans)
qed simp

end

text \<open>The namespaces a round of the live pass may touch: the ignored ones are skipped.\<close>

definition live_scope :: "ResourceLimiterQuota \<Rightarrow> string set" where
  "live_scope q = (if ignored (NamespaceName q) then {} else {NamespaceName q})"

text \<open>The entries a live pass works on.\<close>

definition live_quotas :: "ResourceLimiterQuota list \<Rightarrow> ResourceLimiterQuota list" where
  "live_quotas qs = filter (\<lambda>q. \<not> ignored (NamespaceName q)) qs"

lemma live_quotas_simps [simp]:
  "live_quotas [] = []"
  "live_quotas (xs @ ys) = live_quotas xs @ live_quotas ys"
  "live_quotas (x # xs) = (if ignored (NamespaceName x) then live_quotas xs else x # live_quotas xs)"
  by (simp_all add: live_quotas_def)

lemma effective_name: "effective qs ns = Some q \<Longrightarrow> NamespaceName q = ns \<and> q \<in> set qs"
  by (induction qs rule: rev_induct) (auto split: if_splits)

lemma effective_total: "q \<in> set qs \<Longrightarrow> \<exists>q'. effective qs (NamespaceName q) = Some q'"
  by (induction qs rule: rev_induct) auto

text \<open>No quota has come or gone, and the usage, the name and the owner are what they were.\<close>

definition same_usage :: "'q cluster \<Rightarrow> 'q cluster \<Rightarrow> bool" where
  "same_usage c c' \<longleftrightarrow>
     (\<forall>k. map_option (\<lambda>rq. (Used rq, QuotaName rq, Owner rq)) (Rqs c' k) =
          map_option (\<lambda>rq. (Used rq, QuotaName rq, Owner rq)) (Rqs c k))"

lemma same_usage_refl [simp]: "same_usage c c"
  by (simp add: same_usage_def)

lemma same_usage_trans: "same_usage a b \<Longrightarrow> same_usage b c \<Longrightarrow> same_usage a c"
  by (simp add: same_usage_def)

lemma same_usageD:
  assumes "same_usage c c'" and "Rqs c' k = Some rq'"
  obtains rq where "Rqs c k = Some rq" "Used rq = Used rq'" "QuotaName rq = QuotaName rq'"
    "Owner rq = Owner rq'"
proof -
  from assms(1)[unfolded same_usage_def, THEN spec, of k] assms(2)
  have "map_option (\<lambda>rq. (Used rq, QuotaName rq, Owner rq)) (Rqs c k) =
      Some (Used rq', QuotaName rq', Owner rq')" by simp
  then show thesis using that by auto
qed

lemma same_usage_None:
  assumes "same_usage c c'"
  shows "Rqs c' k = None \<longleftrightarrow> Rqs c k = None"
  using assms[unfolded same_usage_def, THEN spec, of k] by (cases "Rqs c k"; cases "Rqs c' k") auto

lemma status_entry_cong:
  "Used rq = Used rq' \<Longrightarrow> QuotaName rq = QuotaName rq' \<Longrightarrow> status_entry L rq q = status_entry L rq' q"
  by (simp add: status_entry_def used_string_def)

lemma status_lines_same:
  assumes "same_usage c c'" and "\<And>q. q \<in> set qs \<Longrightarrow> Rqs c (quota_key (NamespaceName q)) \<noteq> None"
  shows "map (\<lambda>q. status_entry L (the (Rqs c (quota_key (NamespaceName q)))) q) qs =
    map (\<lambda>q. status_entry L (the (Rqs c' (quota_key (NamespaceName q)))) q) qs"
proof (rule map_cong[OF refl])
  fix q assume "q \<in> set qs"
  let ?k = "quota_key (NamespaceName q)"
  from assms(2)[OF \<open>q \<in> set qs\<close>] same_usage_None[OF assms(1), of ?k] obtain rq' where rq': "Rqs c' ?k = Some rq'" by auto
  from same_usageD[OF assms(1) rq'] obtain rq where "Rqs c ?k = Some rq"
    "Used rq = Used rq'" "QuotaName rq = QuotaName rq'" by blast
  with rq' show "status_entry L (the (Rqs c ?k)) q = status_entry L (the (Rqs c' ?k)) q"
    using status_entry_cong[of rq rq' L q] by simp
qed

lemma converged_other:
  assumes "only_touches N c c'" and "NamespaceName q \<notin> N"
  shows "converged L c' q \<longleftrightarrow> converged L c q"
proof -
  have "quota_key (NamespaceName q) \<notin> quota_key ` N" using assms(2) by auto
  with only_touchesD(2,4)[OF assms(1)] assms(2) show ?thesis
    by (simp add: converged_def ns_enabled_def)
qed

text \<open>Exactly one quota has appeared: the one of the entry, owned by the object, as asked for.\<close>

definition quota_created ::
  "'q lib \<Rightarrow> ResourceLimiter \<Rightarrow> ResourceLimiterQuota \<Rightarrow> 'q cluster \<Rightarrow> 'q cluster \<Rightarrow> bool" where
  "quota_created L rl q c c' \<longleftrightarrow>
     Rqs c (quota_key (NamespaceName q)) = None \<and>
     dom (Rqs c') = insert (quota_key (NamespaceName q)) (dom (Rqs c)) \<and>
     (\<exists>rq. Rqs c' (quota_key (NamespaceName q)) = Some rq \<and> Owner rq = Some (rl_name rl)) \<and>
     converged L c' q"

section \<open>The frame of a whole run\<close>

text \<open>
  A run for the object \<open>n\<close> over the namespaces \<open>N\<close>: outside of them nothing changes, inside only our
  two labels and the quota of the namespace; other objects are untouched, and of the object itself
  the spec and the deletion timestamp stay.
\<close>

definition run_frame :: "string \<Rightarrow> string set \<Rightarrow> 'q cluster \<Rightarrow> 'q cluster \<Rightarrow> bool" where
  "run_frame n N c c' \<longleftrightarrow> only_touches N c (c'\<lparr>Rls := Rls c\<rparr>) \<and>
     (\<forall>m. m \<noteq> n \<longrightarrow> Rls c' m = Rls c m) \<and> (Rls c n = None \<longrightarrow> Rls c' n = None) \<and>
     (\<forall>rl rl'. Rls c n = Some rl \<longrightarrow> Rls c' n = Some rl' \<longrightarrow>
        Spec rl' = Spec rl \<and> DeletionTimestamp (Meta rl') = DeletionTimestamp (Meta rl))"

lemma set_Rls_same: "Rls c = r \<Longrightarrow> c\<lparr>Rls := r\<rparr> = c"
  by (cases c) simp

lemma only_touches_Rls: "only_touches N c c' \<Longrightarrow> run_frame n N c c'"
  using only_touchesD(1)[of N c c'] by (simp add: run_frame_def set_Rls_same)

lemma run_frame_refl [simp]: "run_frame n N c c"
  by (rule only_touches_Rls) simp

lemma run_frame_trans:
  assumes "run_frame n N a b" and "run_frame n N b c"
  shows "run_frame n N a c"
proof -
  have "only_touches N (b\<lparr>Rls := Rls a\<rparr>) (c\<lparr>Rls := Rls a\<rparr>)"
    using assms(2) by (simp add: run_frame_def only_touches_def)
  with assms(1) have "only_touches N a (c\<lparr>Rls := Rls a\<rparr>)"
    using only_touches_trans by (auto simp: run_frame_def)
  with assms show ?thesis
    by (cases "Rls b n") (auto simp: run_frame_def)
qed

lemma run_frame_mono: "run_frame n M c c' \<Longrightarrow> M \<subseteq> N \<Longrightarrow> run_frame n N c c'"
  unfolding run_frame_def by (elim conjE, intro conjI) (erule (1) only_touches_mono, assumption+)

lemma run_frame_rest:
  assumes "Nss c' = Nss c" and "Rqs c' = Rqs c" and "\<And>m. m \<noteq> n \<Longrightarrow> Rls c' m = Rls c m"
    and "Rls c n = None \<Longrightarrow> Rls c' n = None"
    and "\<And>rl rl'. Rls c n = Some rl \<Longrightarrow> Rls c' n = Some rl' \<Longrightarrow>
      Spec rl' = Spec rl \<and> DeletionTimestamp (Meta rl') = DeletionTimestamp (Meta rl)"
  shows "run_frame n N c c'"
proof -
  have "only_touches N c (c'\<lparr>Rls := Rls c\<rparr>)"
    by (simp add: only_touches_def assms(1,2) option.rel_refl)
  with assms(3-5) show ?thesis unfolding run_frame_def by blast
qed

lemma run_frame_status: "run_frame (rl_name rl) N c (eff_status rl c)"
  by (rule run_frame_rest) (auto simp: eff_status_def split: option.splits)

lemma live_scope_union: "(\<Union>q \<in> set qs. live_scope q) = NamespaceName ` set (live_quotas qs)"
  by (auto simp: live_scope_def live_quotas_def)

section \<open>The label edits\<close>

lemma enable_label_map_of [simp]:
  "map_of (enable_label k ls) = (map_of ls)(k \<mapsto> ''enabled'')"
  by (auto simp: enable_label_def)

lemma label_names_distinct [simp]: "MutateNamespaceLabel \<noteq> ValidateNamespaceLabel"
  "ValidateNamespaceLabel \<noteq> MutateNamespaceLabel"
  by (simp_all add: go_defs)

lemma label_namespace_enabled [simp]: "enabled (label_namespace n)"
  by (simp add: enabled_def label_namespace_def)

lemma label_namespace_kept [simp]: "labels_kept n (label_namespace n)"
  by (simp add: labels_kept_def label_namespace_def)

lemma label_namespace_name [simp]: "NsName (label_namespace n) = NsName n"
  by (simp add: label_namespace_def)

lemma label_namespace_id: "enabled n \<Longrightarrow> label_namespace n = n"
  by (simp add: enabled_def label_namespace_def enable_label_def)

text \<open>Deleting the visited keys among two given ones, in any order and however often.\<close>

lemma map_of_foldl_delete:
  "map_of (foldl (\<lambda>ls (k, _). if P k then AList.delete k ls else ls) ls xs) =
     (\<lambda>k. if P k \<and> k \<in> fst ` set xs then None else map_of ls k)"
  by (induction xs arbitrary: ls) (auto simp: fun_eq_iff)

lemma unlabel_namespace_map_of:
  "map_of (Labels (unlabel_namespace n)) =
     (\<lambda>k. if k = MutateNamespaceLabel \<or> k = ValidateNamespaceLabel then None else map_of (Labels n) k)"
  unfolding unlabel_namespace_def by (auto simp: map_of_foldl_delete fun_eq_iff map_of_eq_None_iff)

lemma unlabel_namespace_unlabelled [simp]: "unlabelled (unlabel_namespace n)"
  by (simp add: unlabelled_def unlabel_namespace_map_of)

lemma unlabel_namespace_name [simp]: "NsName (unlabel_namespace n) = NsName n"
  by (simp add: unlabel_namespace_def)

lemma unlabel_namespace_kept [simp]: "labels_kept n (unlabel_namespace n)"
  by (simp add: labels_kept_def unlabel_namespace_map_of)

section \<open>setHard\<close>

lemma setHard_ok:
  "setHard L (rq\<lparr>Hard := []\<rparr>) quota = Inr rq' \<Longrightarrow>
     enforces L quota rq' \<and> (\<exists>h. rq' = rq\<lparr>Hard := h\<rparr>)"
  by (auto simp: setHard_def enforces_def go_defs split: sum.splits)

lemma setHard_total: "parses L quota \<Longrightarrow> \<exists>rq'. setHard L rq quota = Inr rq'"
  by (auto simp: setHard_def parses_def Let_def split: sum.splits)

lemma enforces_parses: "enforces L quota rq \<Longrightarrow> parses L quota"
  by (auto simp: enforces_def parses_def)

lemma enforces_unique: "enforces L quota rq \<Longrightarrow> enforces L quota rq' \<Longrightarrow> Hard rq = Hard rq'"
  by (auto simp: enforces_def)

lemma enforces_Hard: "Hard rq = Hard rq' \<Longrightarrow> enforces L quota rq = enforces L quota rq'"
  by (simp add: enforces_def)

end
