(* ===== verification/Reconciler_Laws.thy ===== *)
theory Reconciler_Laws
  imports Reconciler_Spec
begin

text \<open>
  The controller against the laws of its client and its helpers: what each round of the two loops
  does to the cluster, the frame of both passes, and what a pass that reaches its end has
  established. The locale \<open>reconciler\<close> joins the two contracts.
\<close>

locale reconciler = kube_api C abs + kube_lib L
  for C :: "('q, 'w) client" and abs :: "'w \<Rightarrow> 'q cluster" and L :: "'q lib"
begin

section \<open>Single calls\<close>

lemma get_nsD:
  assumes "get_ns C k w = (r, w')"
  shows "abs w' = abs w" "r = Inr n \<Longrightarrow> Nss (abs w) (snd k) = Some n \<and> NsName n = snd k"
    "r = Inl NotFound \<Longrightarrow> Nss (abs w) (snd k) = None"
  using assms get_ns_abs get_ns_found get_ns_missing well_keyedD[OF well_keyed_abs] by blast+

lemma get_rqD:
  assumes "get_rq C k w = (r, w')"
  shows "abs w' = abs w" "r = Inr rq \<Longrightarrow> Rqs (abs w) k = Some rq \<and> key_of rq = k"
    "r = Inl NotFound \<Longrightarrow> Rqs (abs w) k = None"
  using assms get_rq_abs get_rq_found get_rq_missing well_keyedD[OF well_keyed_abs] by blast+

lemma get_rlD:
  assumes "get_rl C n w = (r, w')"
  shows "abs w' = abs w" "r = Inr x \<Longrightarrow> Rls (abs w) n = Some x \<and> rl_name x = n"
    "r = Inl NotFound \<Longrightarrow> Rls (abs w) n = None"
  using assms get_rl_abs get_rl_found get_rl_missing well_keyedD[OF well_keyed_abs] by blast+

text \<open>A write, failed or not, has happened or not.\<close>

lemma write_cases:
  "update_ns C n w = (e, w') \<Longrightarrow>
     abs w' = abs w \<or> Nss (abs w) (NsName n) \<noteq> None \<and> abs w' = eff_update_ns n (abs w)"
  "create_rq C rq w = (e, w') \<Longrightarrow> abs w' = abs w \<or> abs w' = eff_create_rq rq (abs w)"
  "update_rq C rq w = (e, w') \<Longrightarrow> abs w' = abs w \<or> abs w' = eff_update_rq rq (abs w)"
  "delete_rq C rq w = (e, w') \<Longrightarrow> abs w' = abs w \<or> abs w' = eff_delete_rq rq (abs w)"
  "update_status C x w = (e, w') \<Longrightarrow> abs w' = abs w \<or> abs w' = eff_status x (abs w)"
  by (cases e; blast dest: update_ns_ok update_ns_failed create_rq_ok create_rq_failed update_rq_ok
    update_rq_failed delete_rq_ok delete_rq_failed update_status_ok update_status_failed)+

lemma update_ns_local:
  assumes "update_ns C n' w = (e, w')" and "Nss (abs w) (NsName n') = Some n" and "labels_kept n n'"
  shows "only_touches {NsName n'} (abs w) (abs w')"
  using write_cases(1)[OF assms(1)] only_touches_update_ns[OF assms(2,3)] by auto

lemma rq_write_local:
  assumes "key_of rq = quota_key ns"
  shows "create_rq C rq w = (e, w') \<Longrightarrow> only_touches {ns} (abs w) (abs w')"
    "update_rq C rq w = (e, w') \<Longrightarrow> only_touches {ns} (abs w) (abs w')"
    "delete_rq C rq w = (e, w') \<Longrightarrow> only_touches {ns} (abs w) (abs w')"
  using assms write_cases(2-4) only_touches_rq[where N = "{ns}"] only_touches_refl
  by (metis image_eqI insertI1)+

section \<open>The rounds are local\<close>

lemma SetControllerReference_key:
  "SetControllerReference L rl rq = Inr rq' \<Longrightarrow> key_of rq' = key_of rq"
  by (drule SetControllerReference_ok) simp

lemma create_quota_local:
  assumes "create_quota C L rl q w = (r, w')"
  shows "only_touches {NamespaceName q} (abs w) (abs w')"
proof -
  let ?rq = "empty_rq\<lparr>QuotaName := quota_name (NamespaceName q), QuotaNamespace := NamespaceName q\<rparr>"
  show ?thesis
  proof (cases "SetControllerReference L rl ?rq")
    case (Inl e)
    with assms show ?thesis by (simp add: create_quota_def)
  next
    case (Inr rq1)
    show ?thesis
    proof (cases "setHard L (rq1\<lparr>Hard := []\<rparr>) q")
      case (Inl m)
      with assms Inr show ?thesis by (simp add: create_quota_def)
    next
      case (Inr rq2)
      have "key_of rq2 = quota_key (NamespaceName q)"
        using setHard_ok[OF Inr] SetControllerReference_key[OF \<open>_ = Inr rq1\<close>]
        by (auto simp: quota_key_def)
      from rq_write_local(1)[OF this] show ?thesis
        using assms Inr \<open>_ = Inr rq1\<close>
        by (auto simp: create_quota_def split: prod.splits option.splits)
    qed
  qed
qed

lemma update_quota_local:
  assumes "update_quota C L rq q s w = (r, w')" and "key_of rq = quota_key ns"
  shows "only_touches {ns} (abs w) (abs w')"
proof (cases "setHard L (rq\<lparr>Hard := []\<rparr>) q")
  case (Inl m)
  with assms show ?thesis by (simp add: update_quota_def)
next
  case (Inr rq1)
  then have "key_of rq1 = quota_key ns" using setHard_ok[OF Inr] assms(2) by auto
  from rq_write_local(2)[OF this] show ?thesis
    using assms(1) Inr by (auto simp: update_quota_def Let_def split: prod.splits option.splits)
qed

lemma apply_quota_local:
  assumes "apply_quota C L rl q s w = (r, w')"
  shows "only_touches {NamespaceName q} (abs w) (abs w')"
proof -
  obtain a w1 where g: "get_rq C (quota_key (NamespaceName q)) w = (a, w1)"
    by (cases "get_rq C (quota_key (NamespaceName q)) w") blast
  show ?thesis
  proof (cases a)
    case (Inl e)
    with g assms get_rqD(1)[OF g] create_quota_local[of rl q w1] show ?thesis
      by (auto simp: apply_quota_def split: if_splits)
  next
    case (Inr rq)
    with g assms get_rqD(1,2)[OF g] update_quota_local[of rq q s w1] show ?thesis
      by (auto simp: apply_quota_def)
  qed
qed

lemma remove_quota_local:
  assumes "remove_quota C q s w = (r, w')"
  shows "only_touches {NamespaceName q} (abs w) (abs w')"
proof -
  obtain a w1 where g: "get_rq C (quota_key (NamespaceName q)) w = (a, w1)"
    by (cases "get_rq C (quota_key (NamespaceName q)) w") blast
  show ?thesis
  proof (cases a)
    case (Inl e)
    with g assms get_rqD(1)[OF g] show ?thesis by (auto simp: remove_quota_def split: if_splits)
  next
    case (Inr rq)
    with g have "key_of rq = quota_key (NamespaceName q)" using get_rqD(2)[OF g] by simp
    from rq_write_local(3)[OF this, of w1] show ?thesis
      using g assms Inr get_rqD(1)[OF g]
      by (auto simp: remove_quota_def split: prod.splits option.splits)
  qed
qed

lemma reconcile_quota_local:
  assumes "reconcile_quota C L rl q s w = (r, w')"
  shows "only_touches (live_scope q) (abs w) (abs w')"
proof (cases "ignored (NamespaceName q)")
  case True
  with assms show ?thesis by (auto simp: reconcile_quota_def ignored_def)
next
  case False
  let ?ns = "NamespaceName q"
  obtain a w1 where g: "get_ns C (?ns, ?ns) w = (a, w1)" by (cases "get_ns C (?ns, ?ns) w") blast
  show ?thesis
  proof (cases a)
    case (Inl e)
    with g assms False get_nsD(1)[OF g] show ?thesis
      by (auto simp: reconcile_quota_def ignored_def)
  next
    case (Inr n)
    with get_nsD[OF g] have n: "Nss (abs w1) ?ns = Some n" "NsName n = ?ns" "abs w1 = abs w" by auto
    obtain b w2 where u: "update_ns C (label_namespace n) w1 = (b, w2)"
      by (cases "update_ns C (label_namespace n) w1") blast
    have 1: "only_touches {?ns} (abs w) (abs w2)"
      using update_ns_local[OF u, of n] n by simp
    show ?thesis
    proof (cases b)
      case None
      with g u Inr False assms have "apply_quota C L rl q s w2 = (r, w') \<or> remove_quota C q s w2 = (r, w')"
        by (auto simp: reconcile_quota_def ignored_def split: if_splits)
      then have "only_touches {?ns} (abs w2) (abs w')"
        using apply_quota_local remove_quota_local by blast
      with 1 False show ?thesis by (simp add: live_scope_def only_touches_trans)
    next
      case (Some e)
      with g u Inr False assms 1 show ?thesis
        by (auto simp: reconcile_quota_def ignored_def live_scope_def)
    qed
  qed
qed

lemma delete_quota_local:
  assumes "delete_quota C q s w = (r, w')"
  shows "only_touches {NamespaceName q} (abs w) (abs w')"
proof -
  let ?ns = "NamespaceName q"
  obtain a1 w1 where 1: "get_ns C ('''', ?ns) w = (a1, w1)" by (cases "get_ns C ('''', ?ns) w") blast
  obtain a2 w2 where 2: "get_rq C (quota_key ?ns) w1 = (a2, w2)"
    by (cases "get_rq C (quota_key ?ns) w1") blast
  note eqs = get_nsD(1)[OF 1] get_rqD(1)[OF 2]
  show ?thesis
  proof (cases "\<exists>rq n0. a2 = Inr rq \<and> a1 = Inr n0")
    case False
    with 1 2 assms eqs show ?thesis
      by (cases a1; cases a2) (auto simp: delete_quota_def split: if_splits)
  next
    case True
    then obtain rq n0 where rq: "a2 = Inr rq" and n0: "a1 = Inr n0" by blast
    with get_rqD(2)[OF 2] have key: "key_of rq = quota_key ?ns" by blast
    obtain a3 w3 where 3: "delete_rq C rq w2 = (a3, w3)" by (cases "delete_rq C rq w2") blast
    have t3: "only_touches {?ns} (abs w) (abs w3)"
      using rq_write_local(3)[OF key 3] eqs by simp
    obtain a4 w4 where 4: "get_ns C (?ns, ?ns) w3 = (a4, w4)" by (cases "get_ns C (?ns, ?ns) w3") blast
    have t4: "only_touches {?ns} (abs w) (abs w4)" using t3 get_nsD(1)[OF 4] by simp
    show ?thesis
    proof (cases "a3 = None \<and> (\<exists>n. a4 = Inr n)")
      case False
      with 1 2 3 4 rq n0 assms t3 t4 show ?thesis
        by (cases a3; cases a4) (auto simp: delete_quota_def)
    next
      case True
      then obtain n where n: "a3 = None" "a4 = Inr n" by blast
      then have n': "Nss (abs w4) ?ns = Some n" "NsName n = ?ns"
        using get_nsD[OF 4] by auto
      obtain a5 w5 where 5: "update_ns C (unlabel_namespace n) w4 = (a5, w5)"
        by (cases "update_ns C (unlabel_namespace n) w4") blast
      have "only_touches {?ns} (abs w4) (abs w5)"
        using update_ns_local[OF 5, of n] n' by simp
      with t4 have "only_touches {?ns} (abs w) (abs w5)" by (rule only_touches_trans)
      moreover have "w' = w5"
        using 1 2 3 4 5 rq n0 n assms by (cases a5) (auto simp: delete_quota_def)
      ultimately show ?thesis by simp
    qed
  qed
qed

end

text \<open>Both loop bodies keep the contract of a pass.\<close>

sublocale reconciler \<subseteq> live: quota_pass "reconcile_quota C L rl" abs live_scope for rl
  by unfold_locales (rule reconcile_quota_local)

sublocale reconciler \<subseteq> deletion: quota_pass "delete_quota C" abs "\<lambda>q. {NamespaceName q}"
  by unfold_locales (rule delete_quota_local)

end
