(* ===== verification/Reconciler_Live.thy ===== *)
theory Reconciler_Live
  imports Reconciler_Laws
begin

text \<open>
  The pass over a live object: what a completed round has done to its namespace, what the whole
  loop has established when it reaches its end, and what a run of \<open>reconcile\<close> that returns
  without an error means.
\<close>

section \<open>One round\<close>

context reconciler
begin

lemma reconcile_quota_ignored:
  "ignored (NamespaceName q) \<Longrightarrow> reconcile_quota C L rl q s w = (Continue s, w)"
  by (auto simp: reconcile_quota_def ignored_def)

lemma reconcile_quota_labels:
  assumes "reconcile_quota C L rl q s w = (r, w')" and "\<not> ignored (NamespaceName q)"
    and "\<And>e. r \<noteq> Return (Some e)"
  obtains n w2 where "Nss (abs w) (NamespaceName q) = Some n" "NsName n = NamespaceName q"
    "abs w2 = eff_update_ns (label_namespace n) (abs w)"
    "(if Applied (Spec rl) then apply_quota C L rl q s w2 else remove_quota C q s w2) = (r, w')"
proof -
  let ?ns = "NamespaceName q"
  obtain a w1 where g: "get_ns C (?ns, ?ns) w = (a, w1)" by (cases "get_ns C (?ns, ?ns) w") blast
  with assms obtain n where n: "a = Inr n"
    by (cases a) (auto simp: reconcile_quota_def ignored_def)
  obtain b w2 where u: "update_ns C (label_namespace n) w1 = (b, w2)"
    by (cases "update_ns C (label_namespace n) w1") blast
  have b: "b = None" using g n u assms by (cases b) (auto simp: reconcile_quota_def ignored_def)
  show thesis
  proof (rule that)
    show "Nss (abs w) ?ns = Some n" "NsName n = ?ns" using get_nsD[OF g] n by auto
    show "abs w2 = eff_update_ns (label_namespace n) (abs w)"
      using update_ns_ok u b get_nsD(1)[OF g] by fastforce
    show "(if Applied (Spec rl) then apply_quota C L rl q s w2 else remove_quota C q s w2) = (r, w')"
      using assms(1,2) g n u b by (auto simp: reconcile_quota_def ignored_def)
  qed
qed

lemma apply_quota_continue:
  assumes "apply_quota C L rl q s w = (Continue s', w')"
  obtains rq rq' where "Rqs (abs w) (quota_key (NamespaceName q)) = Some rq"
    "setHard L (rq\<lparr>Hard := []\<rparr>) q = Inr rq'" "key_of rq = quota_key (NamespaceName q)"
    "abs w' = eff_update_rq rq' (abs w)" "s' = s @ [status_entry L rq q]"
proof -
  obtain a w1 where g: "get_rq C (quota_key (NamespaceName q)) w = (a, w1)"
    by (cases "get_rq C (quota_key (NamespaceName q)) w") blast
  with assms obtain rq where a: "a = Inr rq"
    by (cases a) (auto simp: apply_quota_def create_quota_def Let_def
      split: if_splits sum.splits prod.splits option.splits)
  with g assms have u: "update_quota C L rq q s w1 = (Continue s', w')"
    by (simp add: apply_quota_def)
  then obtain rq' where h: "setHard L (rq\<lparr>Hard := []\<rparr>) q = Inr rq'"
    and c: "update_rq C rq' w1 = (None, w')" and s': "s' = s @ [status_entry L rq q]"
    by (auto simp: update_quota_def Let_def split: sum.splits prod.splits option.splits)
  show thesis
  proof (rule that[OF _ h _ _ s'])
    show "Rqs (abs w) (quota_key (NamespaceName q)) = Some rq"
      "key_of rq = quota_key (NamespaceName q)" using get_rqD(2)[OF g a] by auto
    show "abs w' = eff_update_rq rq' (abs w)"
      using update_rq_ok[OF c] get_rqD(1)[OF g] by simp
  qed
qed

text \<open>A round that returns \<open>nil\<close> has created the quota of its entry.\<close>

lemma apply_quota_created:
  assumes "apply_quota C L rl q s w = (Return None, w')"
  obtains rq where "Rqs (abs w) (quota_key (NamespaceName q)) = None"
    "key_of rq = quota_key (NamespaceName q)" "enforces L q rq" "Owner rq = Some (rl_name rl)"
    "Used rq = []" "abs w' = eff_create_rq rq (abs w)"
proof -
  let ?rq = "empty_rq\<lparr>QuotaName := quota_name (NamespaceName q), QuotaNamespace := NamespaceName q\<rparr>"
  obtain a w1 where g: "get_rq C (quota_key (NamespaceName q)) w = (a, w1)"
    by (cases "get_rq C (quota_key (NamespaceName q)) w") blast
  from assms g have c: "create_quota C L rl q w1 = (Return None, w')" and a: "a = Inl NotFound"
    by (auto simp: apply_quota_def update_quota_def Let_def
      split: if_splits sum.splits prod.splits option.splits)
  from c obtain rq1 rq2 where r1: "SetControllerReference L rl ?rq = Inr rq1"
    and r2: "setHard L (rq1\<lparr>Hard := []\<rparr>) q = Inr rq2" and w: "create_rq C rq2 w1 = (None, w')"
    by (auto simp: create_quota_def Let_def split: sum.splits prod.splits option.splits)
  note r1' = SetControllerReference_ok[OF r1] and r2' = setHard_ok[OF r2]
  show thesis
  proof (rule that)
    show "Rqs (abs w) (quota_key (NamespaceName q)) = None" using get_rqD(3)[OF g a] .
    show "key_of rq2 = quota_key (NamespaceName q)" "enforces L q rq2" "Owner rq2 = Some (rl_name rl)"
      "Used rq2 = []"
      using r1' r2' by (auto simp: quota_key_def empty_rq_def)
    show "abs w' = eff_create_rq rq2 (abs w)" using create_rq_ok[OF w] get_rqD(1)[OF g] by simp
  qed
qed

lemma remove_quota_continue:
  assumes "remove_quota C q s w = (Continue s', w')"
  shows "s' = s" "Rqs (abs w') = (Rqs (abs w))(quota_key (NamespaceName q) := None)"
    "Nss (abs w') = Nss (abs w)"
proof -
  let ?k = "quota_key (NamespaceName q)"
  obtain a w1 where g: "get_rq C ?k w = (a, w1)" by (cases "get_rq C ?k w") blast
  have "s' = s \<and> Rqs (abs w') = (Rqs (abs w))(?k := None) \<and> Nss (abs w') = Nss (abs w)"
  proof (cases a)
    case (Inl e)
    with g assms have "e = NotFound" "s' = s" "w' = w1" by (auto simp: remove_quota_def split: if_splits)
    with get_rqD[OF g] Inl show ?thesis by (auto simp: fun_upd_idem)
  next
    case (Inr rq)
    with g assms have d: "delete_rq C rq w1 = (None, w')" "s' = s"
      by (auto simp: remove_quota_def split: prod.splits option.splits)
    with delete_rq_ok[OF d(1)] get_rqD(1,2)[OF g] Inr show ?thesis by (auto simp: eff_delete_rq_def)
  qed
  then show "s' = s" "Rqs (abs w') = (Rqs (abs w))(?k := None)" "Nss (abs w') = Nss (abs w)" by auto
qed

lemma remove_quota_returns: "remove_quota C q s w = (Return e, w') \<Longrightarrow> e \<noteq> None"
  "remove_quota C q s w \<noteq> (Panic m, w')"
  by (auto simp: remove_quota_def split: if_splits sum.splits prod.splits option.splits)

section \<open>The loop, with \<open>applied\<close> set\<close>

text \<open>What one completed round leaves: the entry is enforced, nothing else has moved.\<close>

lemma reconcile_quota_applied:
  assumes "reconcile_quota C L rl q s w = (Continue s', w')" and "Applied (Spec rl)"
    and "\<not> ignored (NamespaceName q)"
  obtains rq where "Rqs (abs w) (quota_key (NamespaceName q)) = Some rq"
    "s' = s @ [status_entry L rq q]" "converged L (abs w') q" "same_usage (abs w) (abs w')"
proof -
  let ?ns = "NamespaceName q"
  from reconcile_quota_labels[OF assms(1,3)] assms(2) obtain n w2
    where n: "Nss (abs w) ?ns = Some n" "NsName n = ?ns"
      and w2: "abs w2 = eff_update_ns (label_namespace n) (abs w)"
      and a: "apply_quota C L rl q s w2 = (Continue s', w')" by auto
  from apply_quota_continue[OF a] obtain rq rq'
    where rq: "Rqs (abs w2) (quota_key ?ns) = Some rq" "key_of rq = quota_key ?ns"
      and h: "setHard L (rq\<lparr>Hard := []\<rparr>) q = Inr rq'"
      and w': "abs w' = eff_update_rq rq' (abs w2)" "s' = s @ [status_entry L rq q]" by blast
  from setHard_ok[OF h] have e: "enforces L q rq'" and k: "key_of rq' = quota_key ?ns"
    and u: "Used rq' = Used rq" "QuotaName rq' = QuotaName rq" "Owner rq' = Owner rq"
    using rq(2) by auto
  have r: "Rqs (abs w') = (Rqs (abs w))(quota_key ?ns \<mapsto> rq'\<lparr>Used := Used rq\<rparr>)"
    using w'(1) rq(1) k w2 by (simp add: eff_update_rq_def eff_update_ns_def)
  show thesis
  proof (rule that)
    show rq0: "Rqs (abs w) (quota_key ?ns) = Some rq" using rq(1) w2 by (simp add: eff_update_ns_def)
    show "s' = s @ [status_entry L rq q]" by (fact w'(2))
    have "Nss (abs w') ?ns = Some (label_namespace n)"
      using w'(1) w2 n by (simp add: eff_update_rq_def eff_update_ns_def split: option.splits)
    with r e show "converged L (abs w') q"
      by (simp add: converged_def ns_enabled_def enforces_def)
    show "same_usage (abs w) (abs w')" using r rq0 u by (auto simp: same_usage_def)
  qed
qed

text \<open>What the rounds over \<open>pre\<close> have established, starting from \<open>w\<close>.\<close>

definition applied_so_far ::
  "'w \<Rightarrow> ResourceLimiterQuota list \<Rightarrow> ResourceLimiterQuota list \<Rightarrow> 'w \<Rightarrow> bool" where
  "applied_so_far w pre s u \<longleftrightarrow>
     s = map (\<lambda>q. status_entry L (the (Rqs (abs w) (quota_key (NamespaceName q)))) q) (live_quotas pre) \<and>
     same_usage (abs w) (abs u) \<and>
     (\<forall>ns q. effective (live_quotas pre) ns = Some q \<longrightarrow> converged L (abs u) q) \<and>
     (\<forall>q \<in> set (live_quotas pre). Rqs (abs w) (quota_key (NamespaceName q)) \<noteq> None)"

lemma applied_round:
  assumes b: "reconcile_quota C L rl x t u = (Continue t', u')" and "Applied (Spec rl)"
    and i: "applied_so_far w pre t u"
  shows "applied_so_far w (pre @ [x]) t' u'"
proof (cases "ignored (NamespaceName x)")
  case True
  with reconcile_quota_ignored[OF True] b i show ?thesis by (simp add: applied_so_far_def)
next
  case False
  from reconcile_quota_applied[OF b assms(2) False] obtain rq
    where rq: "Rqs (abs u) (quota_key (NamespaceName x)) = Some rq"
      and t': "t' = t @ [status_entry L rq x]" and c: "converged L (abs u') x"
      and su: "same_usage (abs u) (abs u')" by blast
  from i have "same_usage (abs w) (abs u)" by (simp add: applied_so_far_def)
  from same_usageD[OF this rq] obtain rq0
    where rq0: "Rqs (abs w) (quota_key (NamespaceName x)) = Some rq0"
      "status_entry L rq0 x = status_entry L rq x" by (metis status_entry_cong)
  have loc: "only_touches {NamespaceName x} (abs u) (abs u')"
    using reconcile_quota_local[OF b] False by (simp add: live_scope_def)
  have "converged L (abs u') q" if "effective (live_quotas (pre @ [x])) ns = Some q" for ns q
  proof (cases "ns = NamespaceName x")
    case True
    with that False c show ?thesis by simp
  next
    case neq: False
    with that False have "effective (live_quotas pre) ns = Some q" by simp
    with i neq show ?thesis
      using converged_other[OF loc, of q] effective_name by (fastforce simp: applied_so_far_def)
  qed
  with i t' rq0 False su show ?thesis by (auto simp: applied_so_far_def intro: same_usage_trans)
qed

lemma applied_loop:
  assumes "for_loop (reconcile_quota C L rl) qs [] w = (Continue s, w')" and "Applied (Spec rl)"
  shows "s = map (\<lambda>q. status_entry L (the (Rqs (abs w) (quota_key (NamespaceName q)))) q) (live_quotas qs)"
    and "same_usage (abs w) (abs w')"
    and "effective (live_quotas qs) ns = Some q \<Longrightarrow> converged L (abs w') q"
    and "q' \<in> set (live_quotas qs) \<Longrightarrow> Rqs (abs w) (quota_key (NamespaceName q')) \<noteq> None"
proof -
  have "applied_so_far w qs s w'"
  proof (rule for_loop_continue[OF assms(1)])
    show "applied_so_far w [] [] w" by (simp add: applied_so_far_def)
  qed (rule applied_round[OF _ assms(2)])
  then show "s = map (\<lambda>q. status_entry L (the (Rqs (abs w) (quota_key (NamespaceName q)))) q) (live_quotas qs)"
    "same_usage (abs w) (abs w')"
    "effective (live_quotas qs) ns = Some q \<Longrightarrow> converged L (abs w') q"
    "q' \<in> set (live_quotas qs) \<Longrightarrow> Rqs (abs w) (quota_key (NamespaceName q')) \<noteq> None"
    by (auto simp: applied_so_far_def)
qed

section \<open>The loop, with \<open>applied\<close> not set\<close>

lemma stopped_loop:
  assumes "for_loop (reconcile_quota C L rl) qs [] w = (Continue s, w')" and "\<not> Applied (Spec rl)"
  shows "q \<in> set (live_quotas qs) \<Longrightarrow>
    Rqs (abs w') (quota_key (NamespaceName q)) = None \<and> ns_enabled (abs w') (NamespaceName q)"
proof -
  define I where "I = (\<lambda>pre (s :: ResourceLimiterQuota list) u. \<forall>q \<in> set (live_quotas pre).
     Rqs (abs u) (quota_key (NamespaceName q)) = None \<and> ns_enabled (abs u) (NamespaceName q))"
  have "I qs s w'"
  proof (rule for_loop_continue[OF assms(1)])
    show "I [] [] w" by (simp add: I_def)
    fix pre x t u t' u'
    assume b: "reconcile_quota C L rl x t u = (Continue t', u')" and i: "I pre t u"
    show "I (pre @ [x]) t' u'"
    proof (cases "ignored (NamespaceName x)")
      case True
      with reconcile_quota_ignored[OF True] b i show ?thesis by (simp add: I_def)
    next
      case False
      let ?ns = "NamespaceName x"
      have "\<And>e. Continue t' \<noteq> Return (Some e)" by simp
      from reconcile_quota_labels[OF b False this] obtain n u2
        where "NsName n = ?ns" "abs u2 = eff_update_ns (label_namespace n) (abs u)"
          "(if Applied (Spec rl) then apply_quota C L rl x t u2 else remove_quota C x t u2) = (Continue t', u')"
        by blast
      with assms(2) remove_quota_continue[of x t u2 t' u']
      have r: "Rqs (abs u') = (Rqs (abs u))(quota_key ?ns := None)"
        and n: "Nss (abs u') = (Nss (abs u))(?ns \<mapsto> label_namespace n)"
        by (auto simp: eff_update_ns_def)
      with i False show ?thesis by (auto simp: I_def ns_enabled_def)
    qed
  qed
  then show "q \<in> set (live_quotas qs) \<Longrightarrow>
    Rqs (abs w') (quota_key (NamespaceName q)) = None \<and> ns_enabled (abs w') (NamespaceName q)"
    by (simp add: I_def)
qed

section \<open>A run that returns no error\<close>

lemma updateStatus_ok:
  assumes "updateStatus C rl st w = (None, w')"
  obtains r where "Rls (abs w) (rl_name rl) = Some r"
    "Rls (abs w') = (Rls (abs w))(rl_name rl \<mapsto> r\<lparr>Status := st\<rparr>)"
    "Nss (abs w') = Nss (abs w)" "Rqs (abs w') = Rqs (abs w)"
proof -
  from assms have "update_status C (rl\<lparr>Status := st\<rparr>) w = (None, w')"
    by (cases st) (simp add: updateStatus_def)
  from update_status_ok[OF this] have "Rls (abs w) (rl_name rl) \<noteq> None"
    and "abs w' = eff_status (rl\<lparr>Status := st\<rparr>) (abs w)" by simp_all
  then show thesis using that by (auto simp: eff_status_def)
qed

lemma converged_same_rest:
  "Nss c' = Nss c \<Longrightarrow> Rqs c' = Rqs c \<Longrightarrow> converged L c' q = converged L c q"
  by (simp add: converged_def ns_enabled_def)

lemma reconcile_quota_created:
  assumes "reconcile_quota C L rl q s w = (Return None, w')"
  shows "Applied (Spec rl) \<and> \<not> ignored (NamespaceName q) \<and> quota_created L rl q (abs w) (abs w')"
proof -
  let ?k = "quota_key (NamespaceName q)"
  from assms have live: "\<not> ignored (NamespaceName q)"
    by (auto simp: reconcile_quota_def ignored_def)
  have "\<And>e. Return None \<noteq> (Return (Some e) :: ResourceLimiterQuota list ctl)" by simp
  from reconcile_quota_labels[OF assms live this] obtain n w2
    where n: "NsName n = NamespaceName q" and w2: "abs w2 = eff_update_ns (label_namespace n) (abs w)"
      and a: "(if Applied (Spec rl) then apply_quota C L rl q s w2 else remove_quota C q s w2) = (Return None, w')"
    by blast
  from a have ap: "Applied (Spec rl)" using remove_quota_returns(1)[of q s w2 None w'] by (auto split: if_splits)
  with a have "apply_quota C L rl q s w2 = (Return None, w')" by simp
  from apply_quota_created[OF this] obtain rq where rq: "Rqs (abs w2) ?k = None" "key_of rq = ?k"
    "enforces L q rq" "Owner rq = Some (rl_name rl)" "abs w' = eff_create_rq rq (abs w2)" by blast
  have r: "Rqs (abs w') = (Rqs (abs w))(?k \<mapsto> rq)" "Rls (abs w') = Rls (abs w)"
    "Nss (abs w') = (Nss (abs w))(NamespaceName q \<mapsto> label_namespace n)" "Rqs (abs w) ?k = None"
    using rq(1,2,5) w2 n by (simp_all add: eff_create_rq_def eff_update_ns_def)
  then show ?thesis
    using rq(3,4) live ap by (simp add: quota_created_def converged_def ns_enabled_def)
qed

lemma quota_created_trans:
  assumes "same_usage a b" and "quota_created L rl q b c"
  shows "quota_created L rl q a c"
proof -
  have "dom (Rqs b) = dom (Rqs a)" unfolding dom_def using same_usage_None[OF assms(1)] by simp
  then show ?thesis
    using assms(2) same_usage_None[OF assms(1)] by (simp add: quota_created_def)
qed

text \<open>
  Applied: a run without an error has either put everything in place and reported it, or created
  one missing quota (the first one), all entries before it being in place.
\<close>

lemma reconcile_applied:
  assumes "reconcile C L rl w = (Done None, w')" and "Applied (Spec rl)"
    and "Rls (abs w) (rl_name rl) = Some r"
  shows "(\<forall>q \<in> set (live_quotas (Quotas (Spec rl))). Rqs (abs w) (quota_key (NamespaceName q)) \<noteq> None) \<and>
      Rls (abs w') = (Rls (abs w))(rl_name rl \<mapsto> r\<lparr>Status := \<lparr>State = Ready, StatusQuotas =
        map (\<lambda>q. status_entry L (the (Rqs (abs w) (quota_key (NamespaceName q)))) q)
          (live_quotas (Quotas (Spec rl)))\<rparr>\<rparr>) \<and>
      same_usage (abs w) (abs w') \<and>
      (\<forall>ns q. effective (live_quotas (Quotas (Spec rl))) ns = Some q \<longrightarrow> converged L (abs w') q)
    \<or> Rls (abs w') = Rls (abs w) \<and>
      (\<exists>q \<in> set (live_quotas (Quotas (Spec rl))). quota_created L rl q (abs w) (abs w'))"
proof -
  let ?body = "reconcile_quota C L rl" and ?qs = "Quotas (Spec rl)"
  obtain c w1 where l: "for_loop ?body ?qs [] w = (c, w1)" by (cases "for_loop ?body ?qs [] w") blast
  show ?thesis
  proof (cases c)
    case (Continue s)
    note l = l[unfolded Continue]
    note lp = applied_loop[OF l assms(2)]
    have rls: "Rls (abs w1) = Rls (abs w)" using live.loop_local[OF l] by (rule only_touchesD(1))
    have "updateStatus C rl \<lparr>State = Ready, StatusQuotas = s\<rparr> w1 = (None, w')"
      using assms(1,2) l by (auto simp: reconcile_def split: prod.splits option.splits)
    from updateStatus_ok[OF this] assms(3) rls
    have "Rls (abs w') = (Rls (abs w))(rl_name rl \<mapsto> r\<lparr>Status := \<lparr>State = Ready, StatusQuotas = s\<rparr>\<rparr>)"
      "Nss (abs w') = Nss (abs w1)" "Rqs (abs w') = Rqs (abs w1)" by auto
    with lp show ?thesis
      using converged_same_rest[of "abs w'" "abs w1"] by (simp add: same_usage_def)
  next
    case (Return e)
    then have e: "e = None" "w1 = w'" using assms(1) l by (auto simp: reconcile_def)
    from for_loop_stopped[OF l] Return e obtain pre x post s1 w2
      where qs: "?qs = pre @ x # post" and p: "for_loop ?body pre [] w = (Continue s1, w2)"
        and b: "?body x s1 w2 = (Return None, w')" by (auto simp: assms)
    from reconcile_quota_created[OF b] have x: "x \<in> set (live_quotas ?qs)"
      and qc: "quota_created L rl x (abs w2) (abs w')" using qs by auto
    have "Rls (abs w') = Rls (abs w)"
      using live.loop_local[OF l] \<open>w1 = w'\<close> by (simp add: only_touchesD(1))
    with quota_created_trans[OF applied_loop(2)[OF p assms(2)] qc] x show ?thesis by blast
  next
    case (Panic m)
    with assms(1) l show ?thesis by (simp add: reconcile_def)
  qed
qed

text \<open>Not applied: no quota is left in the listed namespaces, and the state is \<open>stopped\<close>.\<close>

lemma reconcile_stopped:
  assumes "reconcile C L rl w = (Done None, w')" and "\<not> Applied (Spec rl)"
    and "Rls (abs w) (rl_name rl) = Some r"
  shows "Rls (abs w') = (Rls (abs w))(rl_name rl \<mapsto> r\<lparr>Status := \<lparr>State = Stopped, StatusQuotas = []\<rparr>\<rparr>)"
    and "q \<in> set (live_quotas (Quotas (Spec rl))) \<Longrightarrow>
      Rqs (abs w') (quota_key (NamespaceName q)) = None \<and> ns_enabled (abs w') (NamespaceName q)"
proof -
  let ?body = "reconcile_quota C L rl" and ?qs = "Quotas (Spec rl)"
  obtain c w1 where l: "for_loop ?body ?qs [] w = (c, w1)" by (cases "for_loop ?body ?qs [] w") blast
  have "\<exists>s. c = Continue s"
  proof (cases c)
    case (Return e)
    then have e: "e = None" "w1 = w'" using assms(1) l by (auto simp: reconcile_def)
    from for_loop_stopped[OF l] Return e obtain x s1 w2 where "?body x s1 w2 = (Return None, w')" by auto
    with reconcile_quota_created assms(2) show ?thesis by blast
  qed (use assms(1) l in \<open>auto simp: reconcile_def\<close>)
  then obtain s where l: "for_loop ?body ?qs [] w = (Continue s, w1)" using l by blast
  have rls: "Rls (abs w1) = Rls (abs w)" using live.loop_local[OF l] by (rule only_touchesD(1))
  have u: "updateStatus C rl \<lparr>State = Stopped, StatusQuotas = []\<rparr> w1 = (None, w')"
    using assms(1,2) l by (auto simp: reconcile_def split: prod.splits)
  note us = updateStatus_ok[OF u]
  from us assms(3) rls
  show "Rls (abs w') = (Rls (abs w))(rl_name rl \<mapsto> r\<lparr>Status := \<lparr>State = Stopped, StatusQuotas = []\<rparr>\<rparr>)"
    by auto
  from us have "Nss (abs w') = Nss (abs w1)" "Rqs (abs w') = Rqs (abs w1)" by auto
  then show "q \<in> set (live_quotas ?qs) \<Longrightarrow>
      Rqs (abs w') (quota_key (NamespaceName q)) = None \<and> ns_enabled (abs w') (NamespaceName q)"
    using stopped_loop[OF l assms(2)] by (simp add: ns_enabled_def)
qed

end

end
