(* ===== verification/Reconciler_Delete.thy ===== *)
theory Reconciler_Delete
  imports Reconciler_Laws
begin

text \<open>
  The pass over an object under deletion, and the two places where the finalizer list is patched.
\<close>

section \<open>Quotas only go\<close>

definition no_new_quota :: "'q cluster \<Rightarrow> 'q cluster \<Rightarrow> bool" where
  "no_new_quota c c' \<longleftrightarrow> (\<forall>k. Rqs c k = None \<longrightarrow> Rqs c' k = None)"

text \<open>An entry the deletion pass cannot get past: its namespace is there and its quota is not.\<close>

definition blocking :: "'q cluster \<Rightarrow> ResourceLimiterQuota \<Rightarrow> bool" where
  "blocking c q \<longleftrightarrow> Nss c (NamespaceName q) \<noteq> None \<and> Rqs c (quota_key (NamespaceName q)) = None"

definition cleaned :: "'q cluster \<Rightarrow> string \<Rightarrow> bool" where
  "cleaned c ns \<longleftrightarrow> Rqs c (quota_key ns) = None \<and> (\<exists>n. Nss c ns = Some n \<and> unlabelled n)"

lemma no_new_quotaD: "no_new_quota c c' \<Longrightarrow> Rqs c k = None \<Longrightarrow> Rqs c' k = None"
  unfolding no_new_quota_def by blast

lemma no_new_quota_refl [simp]: "no_new_quota c c"
  by (simp add: no_new_quota_def)

lemma no_new_quota_trans: "no_new_quota a b \<Longrightarrow> no_new_quota b c \<Longrightarrow> no_new_quota a c"
  unfolding no_new_quota_def by blast

lemma no_new_quota_simps [simp]: "no_new_quota c (eff_update_ns n c)" "no_new_quota c (eff_delete_rq rq c)"
  by (simp_all add: no_new_quota_def eff_defs)

lemma blocking_kept:
  assumes "blocking c q" and "only_touches N c c'" and "no_new_quota c c'"
  shows "blocking c' q"
  using assms(1) only_touchesD(3)[OF assms(2), of "NamespaceName q"] no_new_quotaD[OF assms(3)]
  unfolding blocking_def by simp

lemma cleaned_other:
  assumes "only_touches N c c'" and "ns \<notin> N"
  shows "cleaned c' ns \<longleftrightarrow> cleaned c ns"
proof -
  have "quota_key ns \<notin> quota_key ` N" using assms(2) by auto
  with only_touchesD(2,4)[OF assms(1)] assms(2) show ?thesis by (simp add: cleaned_def)
qed

section \<open>One round\<close>

context reconciler
begin

lemma delete_rq_shrinks: "delete_rq C rq w = (e, w') \<Longrightarrow> no_new_quota (abs w) (abs w')"
  using write_cases(4) by fastforce

lemma update_ns_shrinks: "update_ns C n w = (e, w') \<Longrightarrow> no_new_quota (abs w) (abs w')"
  using write_cases(1) by fastforce

lemma delete_quota_shrinks:
  "delete_quota C q u w = (r, w') \<Longrightarrow> no_new_quota (abs w) (abs w')"
  by (auto simp: delete_quota_def split: prod.splits sum.splits option.splits if_splits
    dest!: get_nsD(1) get_rqD(1) delete_rq_shrinks update_ns_shrinks intro: no_new_quota_trans)

lemma delete_quota_returns:
  "delete_quota C q u w = (Return e, w') \<Longrightarrow> e \<noteq> None" "delete_quota C q u w \<noteq> (Panic m, w')"
  by (auto simp: delete_quota_def split: prod.splits sum.splits option.splits if_splits)

lemma delete_quota_continue:
  assumes "delete_quota C q u w = (Continue v, w')"
  shows "Nss (abs w) (NamespaceName q) = None \<and> abs w' = abs w \<or>
    Rqs (abs w) (quota_key (NamespaceName q)) \<noteq> None \<and> cleaned (abs w') (NamespaceName q)"
proof -
  let ?ns = "NamespaceName q"
  obtain a1 w1 where 1: "get_ns C ('''', ?ns) w = (a1, w1)" by (cases "get_ns C ('''', ?ns) w") blast
  show ?thesis
  proof (cases a1)
    case (Inl e)
    with 1 assms have "e = NotFound" "w' = w1" by (auto simp: delete_quota_def split: if_splits)
    with get_nsD[OF 1] Inl show ?thesis by simp
  next
    case (Inr n0)
    with 1 assms obtain rq w2 w3 n w4 where 2: "get_rq C (quota_key ?ns) w1 = (Inr rq, w2)"
      and 3: "delete_rq C rq w2 = (None, w3)" and 4: "get_ns C (?ns, ?ns) w3 = (Inr n, w4)"
      and 5: "update_ns C (unlabel_namespace n) w4 = (None, w')"
      by (auto simp: delete_quota_def split: prod.splits sum.splits option.splits)
    have rq: "Rqs (abs w) (quota_key ?ns) = Some rq" "key_of rq = quota_key ?ns"
      using get_rqD(2)[OF 2] get_nsD(1)[OF 1] by auto
    have "Rqs (abs w3) (quota_key ?ns) = None"
      using delete_rq_ok[OF 3] rq(2) by (simp add: eff_delete_rq_def)
    moreover have "NsName n = ?ns" "abs w4 = abs w3" using get_nsD[OF 4] by auto
    ultimately have "cleaned (abs w') ?ns"
      using update_ns_ok[OF 5] by (simp add: cleaned_def eff_update_ns_def)
    with rq(1) show ?thesis by simp
  qed
qed

section \<open>The loop\<close>

lemma delete_loop_shrinks:
  assumes "for_loop (delete_quota C) qs u w = (r, w')"
  shows "no_new_quota (abs w) (abs w')"
proof (rule for_loop_invariant[where I = "\<lambda>v. no_new_quota (abs w) (abs v)", OF assms])
  show "no_new_quota (abs w) (abs w1')" if "delete_quota C x s w1 = (r1, w1')"
    "no_new_quota (abs w) (abs w1)" for x s w1 r1 w1'
    using delete_quota_shrinks[OF that(1)] that(2) no_new_quota_trans by blast
qed simp

lemma delete_loop:
  assumes "for_loop (delete_quota C) qs u w = (Continue v, w')" and "q \<in> set qs"
    and "Nss (abs w) (NamespaceName q) \<noteq> None"
  shows "cleaned (abs w') (NamespaceName q)" "Rqs (abs w) (quota_key (NamespaceName q)) \<noteq> None"
proof -
  define I where "I = (\<lambda>(pre :: ResourceLimiterQuota list) (s :: unit) u. (\<exists>N. only_touches N (abs w) (abs u)) \<and>
     no_new_quota (abs w) (abs u) \<and>
     (\<forall>q \<in> set pre. Nss (abs w) (NamespaceName q) \<noteq> None \<longrightarrow> cleaned (abs u) (NamespaceName q) \<and>
        Rqs (abs w) (quota_key (NamespaceName q)) \<noteq> None))"
  have "I qs v w'"
  proof (rule for_loop_continue[OF assms(1)])
    show "I [] u w" by (auto simp: I_def intro: only_touches_refl)
    fix pre x s u1 s' u2
    assume b: "delete_quota C x s u1 = (Continue s', u2)" and i: "I pre s u1"
    let ?ns = "NamespaceName x"
    from i obtain N where N: "only_touches N (abs w) (abs u1)" by (auto simp: I_def)
    note loc = delete_quota_local[OF b]
    have t: "\<exists>N. only_touches N (abs w) (abs u2)"
      using only_touches_trans[OF only_touches_mono[OF N, of "N \<union> {?ns}"]
        only_touches_mono[OF loc, of "N \<union> {?ns}"]] by blast
    have s: "no_new_quota (abs w) (abs u2)"
      using i delete_quota_shrinks[OF b] no_new_quota_trans by (auto simp: I_def)
    have x: "cleaned (abs u2) ?ns \<and> Rqs (abs w) (quota_key ?ns) \<noteq> None"
      if "Nss (abs w) ?ns \<noteq> None"
    proof -
      have "Nss (abs u1) ?ns \<noteq> None" using that only_touchesD(3)[OF N] by simp
      with delete_quota_continue[OF b] have "cleaned (abs u2) ?ns" "Rqs (abs u1) (quota_key ?ns) \<noteq> None"
        by auto
      moreover have "no_new_quota (abs w) (abs u1)" using i by (simp add: I_def)
      ultimately show ?thesis
        using no_new_quotaD[of "abs w" "abs u1" "quota_key ?ns"] by (intro conjI notI) simp_all
    qed
    have "cleaned (abs u2) (NamespaceName q)" if "cleaned (abs u1) (NamespaceName q)" for q
    proof (cases "NamespaceName q = ?ns")
      case True
      with that delete_quota_continue[OF b] show ?thesis by (auto simp: cleaned_def)
    next
      case False
      with cleaned_other[OF loc] that show ?thesis by simp
    qed
    with i t s x show "I (pre @ [x]) s' u2" by (auto simp: I_def)
  qed
  with assms(2,3) show "cleaned (abs w') (NamespaceName q)"
    "Rqs (abs w) (quota_key (NamespaceName q)) \<noteq> None" by (auto simp: I_def)
qed

section \<open>The finalizer patches\<close>

text \<open>What the stored object becomes once our finalizer is taken off.\<close>

lemma remove_our_finalizer_cases:
  assumes "remove_our_finalizer C L rl w = (out, w')" and "Rls (abs w) (rl_name rl) = Some rl"
    and "DefaultFinalizer \<in> set (Finalizers (Meta rl))" and "DeletionTimestamp (Meta rl) \<noteq> None"
  defines "fs \<equiv> filter (\<lambda>g. g \<noteq> DefaultFinalizer) (Finalizers (Meta rl))"
  defines "after \<equiv> (abs w)\<lparr>Rls := (Rls (abs w))(rl_name rl :=
     (if fs = [] then None else Some (set_finalizers fs rl)))\<rparr>"
  shows "(\<exists>e. out = Done e) \<and> (abs w' = abs w \<or> abs w' = after) \<and> (out = Done None \<longrightarrow> abs w' = after)"
proof -
  have fs: "fs \<noteq> Finalizers (Meta rl)" using assms(3) by (auto simp: fs_def) (metis (full_types) filter_id_conv)
  have "MergeFrom L 2 rl = BaseRef 2 \<or> MergeFrom L 2 rl = BaseCopy rl" by (rule MergeFrom_cases)
  then have "\<exists>e. patch_rl C rl (set_finalizers fs rl) w = (e, w') \<and> out = Done e"
    using assms(1) by (auto simp: remove_our_finalizer_def Let_def RemoveFinalizer_eq fs_def
      split: prod.splits option.splits)
  then obtain e where p: "patch_rl C rl (set_finalizers fs rl) w = (e, w')" and out: "out = Done e" by blast
  have "eff_patch rl (set_finalizers fs rl) (abs w) = after"
    using assms(2,4) fs by (auto simp: eff_patch_def after_def)
  with patch_rl_ok patch_rl_failed p out show ?thesis
    by (cases e) (auto; fastforce)+
qed

end

end
