(* ===== verification/Reconciler_Correct.thy ===== *)
theory Reconciler_Correct
  imports Reconciler_Live Reconciler_Delete
begin

text \<open>
  \<open>Reconcile\<close> as a whole. The first part brings the finalizer step and the two passes together in
  the locale; the properties follow at the top level, for every client and helper library that
  keep their contracts (\<open>reconciler C abs L\<close>), each with a witness on the in-memory API server.
\<close>

section \<open>The finalizer step\<close>

definition with_ours :: "ResourceLimiter \<Rightarrow> ResourceLimiter" where
  "with_ours rl = set_finalizers (Finalizers (Meta rl) @ [DefaultFinalizer]) rl"

text \<open>What the patch of \<open>Reconcile\<close> starts from, by the choice of \<open>MergeFrom\<close>.\<close>

definition patch_base :: "'q lib \<Rightarrow> ResourceLimiter \<Rightarrow> ResourceLimiter" where
  "patch_base L rl = (if MergeFrom L 1 rl = BaseCopy rl then rl else with_ours rl)"

text \<open>What is stored after the finalizer step: the object as it was, or with our finalizer.\<close>

definition registered :: "'q lib \<Rightarrow> ResourceLimiter \<Rightarrow> ResourceLimiter \<Rightarrow> bool" where
  "registered L rl rl' \<longleftrightarrow> rl' = rl \<or>
     DefaultFinalizer \<notin> set (Finalizers (Meta rl)) \<and> MergeFrom L 1 rl = BaseCopy rl \<and> rl' = with_ours rl"

definition set_rl :: "string \<Rightarrow> ResourceLimiter \<Rightarrow> 'q cluster \<Rightarrow> 'q cluster" where
  "set_rl n rl c = c\<lparr>Rls := (Rls c)(n \<mapsto> rl)\<rparr>"

lemma with_ours_sel [simp]:
  "Finalizers (Meta (with_ours rl)) = Finalizers (Meta rl) @ [DefaultFinalizer]"
  "rl_name (with_ours rl) = rl_name rl"
  "DeletionTimestamp (Meta (with_ours rl)) = DeletionTimestamp (Meta rl)"
  "Spec (with_ours rl) = Spec rl" "Status (with_ours rl) = Status rl"
  by (simp_all add: with_ours_def)

lemma set_rl_sel [simp]: "Rls (set_rl n rl c) = (Rls c)(n \<mapsto> rl)" "Nss (set_rl n rl c) = Nss c"
  "Rqs (set_rl n rl c) = Rqs c"
  by (simp_all add: set_rl_def)

lemma set_rl_id: "Rls c n = Some rl \<Longrightarrow> set_rl n rl c = c"
  by (simp add: set_rl_def fun_upd_idem)

lemma registered_refl [simp]: "registered L rl rl"
  by (simp add: registered_def)

lemma registeredD:
  assumes "registered L rl rl'"
  shows "rl_name rl' = rl_name rl" "DeletionTimestamp (Meta rl') = DeletionTimestamp (Meta rl)"
    "Spec rl' = Spec rl" "Status rl' = Status rl"
    "MergeFrom L 1 rl \<noteq> BaseCopy rl \<Longrightarrow> rl' = rl"
    "DefaultFinalizer \<in> set (Finalizers (Meta rl)) \<Longrightarrow> DefaultFinalizer \<in> set (Finalizers (Meta rl'))"
  using assms by (auto simp: registered_def)

context reconciler
begin

lemma rl_name_stored: "Rls (abs w) n = Some rl \<Longrightarrow> rl_name rl = n"
  using well_keyedD(1)[OF well_keyed_abs] .

lemma register_finalizer_eq:
  "register_finalizer C L n rl w =
     (if DefaultFinalizer \<in> set (Finalizers (Meta rl)) then (Inr rl, w)
      else case patch_rl C (patch_base L rl) (with_ours rl) w of
             (Some e, w1) \<Rightarrow> (Inl e, w1) | (None, w1) \<Rightarrow> get_rl C n w1)"
  using MergeFrom_cases[of 1 rl]
  by (elim disjE) (simp_all add: register_finalizer_def Let_def ContainsFinalizer_iff AddFinalizer_eq
    patch_base_def with_ours_def split: prod.split option.split sum.split)

lemma patch_base_only: "with_ours rl = set_finalizers (Finalizers (Meta (with_ours rl))) (patch_base L rl)"
  by (simp add: patch_base_def with_ours_def set_finalizers_def)

lemma eff_patch_ours:
  assumes "Rls c (rl_name rl) = Some rl"
  shows "eff_patch (patch_base L rl) (with_ours rl) c =
    set_rl (rl_name rl) (if MergeFrom L 1 rl = BaseCopy rl then with_ours rl else rl) c"
  using assms by (simp add: eff_patch_def patch_base_def set_rl_id) (simp add: set_rl_def with_ours_def)

text \<open>
  Either nothing has changed, or the patch was made against a copy and the stored object carries
  our finalizer now.
\<close>

lemma register_finalizer_cases:
  assumes "register_finalizer C L n rl w = (r, w')" and "Rls (abs w) n = Some rl"
  obtains rl' where "abs w' = set_rl n rl' (abs w)" "registered L rl rl'"
    "\<And>x. r = Inr x \<Longrightarrow> x = rl' \<and>
       (MergeFrom L 1 rl = BaseCopy rl \<longrightarrow> DefaultFinalizer \<in> set (Finalizers (Meta rl')))"
proof (cases "DefaultFinalizer \<in> set (Finalizers (Meta rl))")
  case True
  with assms show thesis by (intro that[of rl]) (simp_all add: register_finalizer_eq set_rl_id)
next
  case False
  note n = rl_name_stored[OF assms(2)]
  let ?rl' = "if MergeFrom L 1 rl = BaseCopy rl then with_ours rl else rl"
  have eff: "eff_patch (patch_base L rl) (with_ours rl) (abs w) = set_rl n ?rl' (abs w)"
    using eff_patch_ours[of "abs w" rl] assms(2) n by simp
  have reg: "registered L rl ?rl'" using False by (simp add: registered_def)
  obtain e w1 where p: "patch_rl C (patch_base L rl) (with_ours rl) w = (e, w1)"
    by (cases "patch_rl C (patch_base L rl) (with_ours rl) w") blast
  show thesis
  proof (cases e)
    case None
    with assms(1) False p have g: "get_rl C n w1 = (r, w')" by (simp add: register_finalizer_eq)
    have w': "abs w' = set_rl n ?rl' (abs w)"
      using patch_rl_ok[OF p[unfolded None] patch_base_only] eff get_rlD(1)[OF g] by simp
    show thesis
    proof (rule that[OF w' reg])
      fix x assume "r = Inr x"
      then have "Rls (abs w') n = Some x" using get_rlD(1,2)[OF g] by simp
      then have "x = ?rl'" unfolding w' by simp
      then show "x = ?rl' \<and> (MergeFrom L 1 rl = BaseCopy rl \<longrightarrow>
          DefaultFinalizer \<in> set (Finalizers (Meta ?rl')))" by simp
    qed
  next
    case (Some x)
    with assms(1) False p have r: "r = Inl x" "w' = w1" by (simp_all add: register_finalizer_eq)
    have "abs w1 = abs w \<or> abs w1 = set_rl n ?rl' (abs w)"
      using patch_rl_failed[OF p[unfolded Some] patch_base_only] eff by simp
    then show thesis
    proof
      assume "abs w1 = abs w"
      with r show thesis by (intro that[of rl]) (simp_all add: set_rl_id[OF assms(2)])
    next
      assume "abs w1 = set_rl n ?rl' (abs w)"
      with r show thesis by (intro that[OF _ reg]) simp_all
    qed
  qed
qed

text \<open>A run of \<open>Reconcile\<close> on a stored object: it fails early, or it is one of the two passes.\<close>

lemma Reconcile_cases:
  assumes "Reconcile C L n w = (out, w')" and "Rls (abs w) n = Some rl"
  obtains (early) e rl1 where "out = Done (Some e)" "abs w' = set_rl n rl1 (abs w)" "registered L rl rl1"
  | (pass) rl1 w1 where "abs w1 = set_rl n rl1 (abs w)" "registered L rl rl1"
      "MergeFrom L 1 rl = BaseCopy rl \<longrightarrow> DefaultFinalizer \<in> set (Finalizers (Meta rl1))"
      "(if DeletionTimestamp (Meta rl) \<noteq> None then reconcileDelete C L rl1 w1
        else reconcile C L rl1 w1) = (out, w')"
proof -
  obtain g w0 where g: "get_rl C n w = (g, w0)" by (cases "get_rl C n w") blast
  note a0 = get_rlD(1)[OF g]
  show thesis
  proof (cases g)
    case (Inl e)
    with g assms(1) have "out = Done (Some e)" "w' = w0" by (simp_all add: Reconcile_def)
    with early[of e rl] a0 show thesis by (simp add: set_rl_id[OF assms(2)])
  next
    case (Inr x)
    with get_rlD(2)[OF g] assms(2) have x: "x = rl" by simp
    obtain r w1 where r: "register_finalizer C L n rl w0 = (r, w1)"
      by (cases "register_finalizer C L n rl w0") blast
    have "Rls (abs w0) n = Some rl" using a0 assms(2) by simp
    from register_finalizer_cases[OF r this] obtain rl1
      where w1: "abs w1 = set_rl n rl1 (abs w)" and reg: "registered L rl rl1"
        and y: "\<And>y. r = Inr y \<Longrightarrow> y = rl1 \<and>
          (MergeFrom L 1 rl = BaseCopy rl \<longrightarrow> DefaultFinalizer \<in> set (Finalizers (Meta rl1)))"
      using a0 by auto
    show thesis
    proof (cases r)
      case (Inl e)
      with g \<open>g = Inr x\<close> x r assms(1) have "out = Done (Some e)" "w' = w1"
        by (simp_all add: Reconcile_def)
      with early[of e rl1] w1 reg show thesis by simp
    next
      case (Inr z)
      with y have z: "z = rl1" "MergeFrom L 1 rl = BaseCopy rl \<longrightarrow> DefaultFinalizer \<in> set (Finalizers (Meta rl1))"
        by simp_all
      have "(if DeletionTimestamp (Meta rl) \<noteq> None then reconcileDelete C L rl1 w1
          else reconcile C L rl1 w1) = (out, w')"
        using g \<open>g = Inr x\<close> x r Inr z(1) assms(1) registeredD(2)[OF reg] by (simp add: Reconcile_def)
      with pass w1 reg z(2) show thesis by blast
    qed
  qed
qed

end

section \<open>The frame of the two passes\<close>

context reconciler
begin

lemma updateStatus_frame:
  assumes "updateStatus C rl st w = (e, w')"
  shows "run_frame (rl_name rl) N (abs w) (abs w')"
  using write_cases(5)[of "rl\<lparr>Status := st\<rparr>" w e w'] assms run_frame_status[of "rl\<lparr>Status := st\<rparr>"]
  by (cases st) (auto simp: updateStatus_def)

lemma reconcile_frame:
  assumes "reconcile C L rl w = (out, w')"
  shows "run_frame (rl_name rl) (NamespaceName ` set (live_quotas (Quotas (Spec rl)))) (abs w) (abs w')"
    (is "run_frame ?n ?N _ _")
proof -
  obtain c w1 where l: "for_loop (reconcile_quota C L rl) (Quotas (Spec rl)) [] w = (c, w1)"
    by (cases "for_loop (reconcile_quota C L rl) (Quotas (Spec rl)) [] w") blast
  have "run_frame ?n ?N (abs w) (abs w1)"
    using live.loop_local[OF l] by (intro only_touches_Rls) (simp add: live_scope_union)
  moreover have "w' = w1 \<or> (\<exists>e st. updateStatus C rl st w1 = (e, w'))"
    using assms l by (cases c) (auto simp: reconcile_def split: if_splits prod.splits option.splits)
  ultimately show ?thesis using updateStatus_frame[of rl _ w1 _ w' ?N] run_frame_trans by blast
qed

text \<open>A pass over an object under deletion, and what it means that the object has changed.\<close>

lemma delete_loop_ends:
  assumes "for_loop (delete_quota C) qs s w = (c, w')"
  obtains v where "c = Continue v" | e where "c = Return (Some e)"
proof (cases c)
  case (Continue v)
  then show thesis by (rule that(1))
next
  case (Return e)
  from for_loop_stopped[OF assms] Return obtain x s1 w2 where "delete_quota C x s1 w2 = (Return e, w')" by auto
  with delete_quota_returns(1)[of x s1 w2 e w'] Return that(2) show thesis by (cases e) auto
next
  case (Panic m)
  from for_loop_stopped[OF assms] Panic obtain x s1 w2 where "delete_quota C x s1 w2 = (Panic m, w')" by auto
  with delete_quota_returns(2) show thesis by blast
qed

lemma reconcileDelete_cases:
  assumes "reconcileDelete C L rl w = (out, w')" and "Rls (abs w) (rl_name rl) = Some rl"
    and "DeletionTimestamp (Meta rl) \<noteq> None"
  obtains (refused) "DefaultFinalizer \<notin> set (Finalizers (Meta rl))" "w' = w"
      "out = Done (Some (Failure (''no finalizer found on '' @ rl_name rl @ '' resourcelimiter CR'')))"
  | (broken) e where "State (Status rl) \<noteq> Stopped" "out = Done (Some e)"
      "only_touches (NamespaceName ` set (Quotas (Spec rl))) (abs w) (abs w')"
      "no_new_quota (abs w) (abs w')"
  | (finished) w1 where "DefaultFinalizer \<in> set (Finalizers (Meta rl))"
      "only_touches (NamespaceName ` set (Quotas (Spec rl))) (abs w) (abs w1)"
      "no_new_quota (abs w) (abs w1)" "State (Status rl) = Stopped \<Longrightarrow> w1 = w"
      "\<And>q. State (Status rl) \<noteq> Stopped \<Longrightarrow> q \<in> set (Quotas (Spec rl)) \<Longrightarrow>
         Nss (abs w) (NamespaceName q) \<noteq> None \<Longrightarrow> cleaned (abs w1) (NamespaceName q) \<and> \<not> blocking (abs w) q"
      "remove_our_finalizer C L rl w1 = (out, w')"
proof (cases "DefaultFinalizer \<in> set (Finalizers (Meta rl))")
  case False
  with assms(1) show thesis by (intro refused) (simp_all add: reconcileDelete_def ContainsFinalizer_iff)
next
  case fin: True
  show thesis
  proof (cases "State (Status rl) = Stopped")
    case True
    with assms(1) fin show thesis
      by (intro finished[of w]) (simp_all add: reconcileDelete_def ContainsFinalizer_iff)
  next
    case False
    obtain c w1 where l: "for_loop (delete_quota C) (Quotas (Spec rl)) () w = (c, w1)"
      by (cases "for_loop (delete_quota C) (Quotas (Spec rl)) () w") blast
    have loc: "only_touches (NamespaceName ` set (Quotas (Spec rl))) (abs w) (abs w1)"
      using deletion.loop_local[OF l] by (rule only_touches_mono) auto
    note shr = delete_loop_shrinks[OF l]
    from l show thesis
    proof (cases rule: delete_loop_ends)
      case (1 v)
      with l have l: "for_loop (delete_quota C) (Quotas (Spec rl)) () w = (Continue v, w1)" by simp
      show thesis
      proof (rule finished[OF fin loc shr])
        show "remove_our_finalizer C L rl w1 = (out, w')"
          using assms(1) fin False l by (simp add: reconcileDelete_def ContainsFinalizer_iff)
        show "cleaned (abs w1) (NamespaceName q) \<and> \<not> blocking (abs w) q"
          if "q \<in> set (Quotas (Spec rl))" "Nss (abs w) (NamespaceName q) \<noteq> None" for q
          using delete_loop[OF l that] by (simp add: blocking_def)
      qed (use False in simp_all)
    next
      case (2 e)
      with assms(1) fin False l have "out = Done (Some e)" "w' = w1"
        by (simp_all add: reconcileDelete_def ContainsFinalizer_iff)
      then show thesis using broken False loc shr by blast
    qed
  qed
qed

lemma remove_our_finalizer_frame:
  assumes "remove_our_finalizer C L rl w = (out, w')" and "Rls (abs w) (rl_name rl) = Some rl"
    and "DefaultFinalizer \<in> set (Finalizers (Meta rl))" and "DeletionTimestamp (Meta rl) \<noteq> None"
  shows "run_frame (rl_name rl) N (abs w) (abs w')"
  using remove_our_finalizer_cases[OF assms] assms(2)
  by (auto intro!: run_frame_rest split: if_splits)

lemma reconcileDelete_frame:
  assumes "reconcileDelete C L rl w = (out, w')" and "Rls (abs w) (rl_name rl) = Some rl"
    and "DeletionTimestamp (Meta rl) \<noteq> None"
  shows "run_frame (rl_name rl) (NamespaceName ` set (Quotas (Spec rl))) (abs w) (abs w')"
  using assms
proof (cases rule: reconcileDelete_cases)
  case (finished w1)
  have "Rls (abs w1) (rl_name rl) = Some rl" using only_touchesD(1)[OF finished(2)] assms(2) by simp
  from remove_our_finalizer_frame[OF finished(6) this finished(1) assms(3)]
    only_touches_Rls[OF finished(2)] show ?thesis by (rule run_frame_trans[rotated])
qed (auto intro: only_touches_Rls)

text \<open>The namespaces a run may touch.\<close>

lemma Reconcile_run_frame:
  assumes "Reconcile C L n w = (out, w')" and "Rls (abs w) n = Some rl"
  shows "run_frame n (NamespaceName ` set (if DeletionTimestamp (Meta rl) = None
    then live_quotas (Quotas (Spec rl)) else Quotas (Spec rl))) (abs w) (abs w')"
    (is "run_frame n ?N _ _")
proof -
  have set: "run_frame n ?N (abs w) (set_rl n rl1 (abs w))" if "registered L rl rl1" for rl1
    using registeredD(2,3)[OF that] assms(2) by (intro run_frame_rest) auto
  from assms show ?thesis
  proof (cases rule: Reconcile_cases)
    case (early e rl1)
    with set show ?thesis by simp
  next
    case (pass rl1 w1)
    have n: "rl_name rl1 = n" using registeredD(1)[OF pass(2)] rl_name_stored[OF assms(2)] by simp
    have "run_frame n ?N (abs w1) (abs w')"
    proof (cases "DeletionTimestamp (Meta rl) = None")
      case True
      with pass(4) reconcile_frame[of rl1 w1 out w'] registeredD(3)[OF pass(2)] n show ?thesis by simp
    next
      case False
      then have "reconcileDelete C L rl1 w1 = (out, w')" using pass(4) by simp
      from reconcileDelete_frame[OF this] False pass(1) registeredD(2,3)[OF pass(2)] n
      show ?thesis by auto
    qed
    with set[OF pass(2)] pass(1) show ?thesis using run_frame_trans by metis
  qed
qed

end

section \<open>What a run guarantees\<close>

context reconciler
begin

lemma applied_run:
  assumes "Reconcile C L n w = (Done None, w')"
    and "Rls (abs w) n = Some rl" and "DeletionTimestamp (Meta rl) = None" and "Applied (Spec rl)"
  shows "(\<exists>rl'. Rls (abs w') n = Some rl' \<and> Status rl' = \<lparr>State = Ready, StatusQuotas =
            map (\<lambda>q. status_entry L (the (Rqs (abs w) (quota_key (NamespaceName q)))) q)
              (live_quotas (Quotas (Spec rl)))\<rparr> \<and>
          (\<forall>ns q. effective (live_quotas (Quotas (Spec rl))) ns = Some q \<longrightarrow> converged L (abs w') q)) \<or>
    (\<exists>q \<in> set (live_quotas (Quotas (Spec rl))). quota_created L rl q (abs w) (abs w'))"
  using assms(1,2)
proof (cases rule: Reconcile_cases)
  case (pass rl1 w1)
  note r = registeredD[OF pass(2)]
  have n: "rl_name rl1 = n" using r(1) rl_name_stored[OF assms(2)] by simp
  have run: "reconcile C L rl1 w1 = (Done None, w')" using pass(4) assms(3) by simp
  have ap: "Applied (Spec rl1)" using r(3) assms(4) by simp
  have st: "Rls (abs w1) (rl_name rl1) = Some rl1" using pass(1) n by simp
  from reconcile_applied[OF run ap st] pass(1) n r(1,3) show ?thesis
    by (auto simp: quota_created_def)
qed simp

lemma stopped_run:
  assumes "Reconcile C L n w = (Done None, w')"
    and "Rls (abs w) n = Some rl" and "DeletionTimestamp (Meta rl) = None" and "\<not> Applied (Spec rl)"
  shows "(\<exists>rl'. Rls (abs w') n = Some rl' \<and> Status rl' = \<lparr>State = Stopped, StatusQuotas = []\<rparr>) \<and>
    (\<forall>q. q \<in> set (live_quotas (Quotas (Spec rl))) \<longrightarrow>
       Rqs (abs w') (quota_key (NamespaceName q)) = None \<and> ns_enabled (abs w') (NamespaceName q))"
  using assms(1,2)
proof (cases rule: Reconcile_cases)
  case (pass rl1 w1)
  note r = registeredD[OF pass(2)]
  have n: "rl_name rl1 = n" using r(1) rl_name_stored[OF assms(2)] by simp
  have run: "reconcile C L rl1 w1 = (Done None, w')" using pass(4) assms(3) by simp
  have ap: "\<not> Applied (Spec rl1)" using r(3) assms(4) by simp
  have st: "Rls (abs w1) (rl_name rl1) = Some rl1" using pass(1) n by simp
  from reconcile_stopped[OF run ap st] n r(3) show ?thesis by simp
qed simp

text \<open>Under deletion: what has happened when our finalizer is gone, and when the run succeeds.\<close>

lemma deletion_run:
  assumes "Reconcile C L n w = (out, w')"
    and "Rls (abs w) n = Some rl" and "DeletionTimestamp (Meta rl) \<noteq> None"
    and "DefaultFinalizer \<in> set (Finalizers (Meta rl))"
  defines "fs \<equiv> filter (\<lambda>g. g \<noteq> DefaultFinalizer) (Finalizers (Meta rl))"
  shows "(\<exists>e. out = Done e) \<and>
    (Rls (abs w') n = Some rl \<and> out \<noteq> Done None \<or>
     Rls (abs w') n = (if fs = [] then None else Some (set_finalizers fs rl)) \<and>
     (State (Status rl) \<noteq> Stopped \<longrightarrow> (\<forall>q. q \<in> set (Quotas (Spec rl)) \<longrightarrow>
        Nss (abs w) (NamespaceName q) \<noteq> None \<longrightarrow>
        cleaned (abs w') (NamespaceName q) \<and> \<not> blocking (abs w) q)))"
  using assms(1,2)
proof (cases rule: Reconcile_cases)
  case (early e rl1)
  then show ?thesis using assms(4) by (auto simp: registered_def)
next
  case (pass rl1 w1)
  have n: "rl_name rl = n" using rl_name_stored[OF assms(2)] .
  show ?thesis
  proof (cases "rl1 = rl")
    case True
    then have w1: "abs w1 = abs w" using pass(1) by (simp add: set_rl_id[OF assms(2)])
    have run: "reconcileDelete C L rl w1 = (out, w')" using pass(4) assms(3) True by simp
    have st: "Rls (abs w1) (rl_name rl) = Some rl" using w1 assms(2) n by simp
    from run st assms(3) show ?thesis
    proof (cases rule: reconcileDelete_cases)
      case refused
      with assms(4) show ?thesis by simp
    next
      case (broken e)
      with st n only_touchesD(1)[OF broken(3)] show ?thesis by simp
    next
      case (finished w2)
      have st2: "Rls (abs w2) (rl_name rl) = Some rl" using st only_touchesD(1)[OF finished(2)] by simp
      from remove_our_finalizer_cases[OF finished(6) st2 finished(1) assms(3)]
      have "(\<exists>e. out = Done e)" and
        c: "abs w' = abs w2 \<and> out \<noteq> Done None \<or> abs w' = (abs w2)\<lparr>Rls := (Rls (abs w2))(rl_name rl :=
          (if fs = [] then None else Some (set_finalizers fs rl)))\<rparr>"
        by (auto simp: fs_def)
      moreover have "cleaned (abs w2) (NamespaceName q) \<and> \<not> blocking (abs w) q"
        if "State (Status rl) \<noteq> Stopped" "q \<in> set (Quotas (Spec rl))" "Nss (abs w) (NamespaceName q) \<noteq> None" for q
        using finished(5)[of q] that w1 by simp
      ultimately show ?thesis using st2 n by (auto simp: cleaned_def)
    qed
  next
    case False
    with pass(2) assms(4) show ?thesis by (simp add: registered_def)
  qed
qed

end

section \<open>Repeated runs\<close>

context reconciler
begin

lemma no_new_quota_Rls: "no_new_quota c (set_rl n rl c)"
  by (simp add: no_new_quota_def)

lemma stuck_run:
  assumes "Reconcile C L n w = (out, w')"
    and "Rls (abs w) n = Some rl" and "DeletionTimestamp (Meta rl) \<noteq> None"
    and "DefaultFinalizer \<in> set (Finalizers (Meta rl))" and "State (Status rl) \<noteq> Stopped"
    and "q \<in> set (Quotas (Spec rl))" and "blocking (abs w) q"
  shows "out \<noteq> Done None" "Rls (abs w') n = Some rl" "blocking (abs w') q"
proof -
  have "Nss (abs w) (NamespaceName q) \<noteq> None" using assms(7) by (simp add: blocking_def)
  with deletion_run[OF assms(1-4)] assms(5-7)
  show "out \<noteq> Done None" and rls: "Rls (abs w') n = Some rl" by blast+
  have n: "rl_name rl = n" using rl_name_stored[OF assms(2)] .
  from assms(1,2) show "blocking (abs w') q"
  proof (cases rule: Reconcile_cases)
    case (early e rl1)
    with assms(7) show ?thesis by (simp add: blocking_def)
  next
    case (pass rl1 w1)
    have "rl1 = rl" using pass(2) assms(4) by (auto simp: registered_def)
    with pass(1) have w1: "abs w1 = abs w" by (simp add: set_rl_id[OF assms(2)])
    have run: "reconcileDelete C L rl w1 = (out, w')" using pass(4) assms(3) \<open>rl1 = rl\<close> by simp
    have st: "Rls (abs w1) (rl_name rl) = Some rl" using w1 assms(2) n by simp
    from run st assms(3) show ?thesis
    proof (cases rule: reconcileDelete_cases)
      case refused
      with assms(4) show ?thesis by simp
    next
      case (broken e)
      with blocking_kept[of "abs w1" q] w1 assms(7) show ?thesis by simp
    next
      case (finished w2)
      with assms(5-7) w1 \<open>Nss (abs w) (NamespaceName q) \<noteq> None\<close> show ?thesis by metis
    qed
  qed
qed

text \<open>The live pass writes nothing of its object but the status.\<close>

lemma reconcile_meta:
  assumes "reconcile C L rl w = (out, w')" and "Rls (abs w) (rl_name rl) = Some rl"
  shows "\<exists>st. Rls (abs w') (rl_name rl) = Some (rl\<lparr>Status := st\<rparr>)"
proof -
  obtain c w1 where l: "for_loop (reconcile_quota C L rl) (Quotas (Spec rl)) [] w = (c, w1)"
    by (cases "for_loop (reconcile_quota C L rl) (Quotas (Spec rl)) [] w") blast
  have st: "Rls (abs w1) (rl_name rl) = Some rl"
    using only_touchesD(1)[OF live.loop_local[OF l]] assms(2) by simp
  have same: "rl\<lparr>Status := Status rl\<rparr> = rl" by simp
  have "w' = w1 \<or> (\<exists>e st. updateStatus C rl st w1 = (e, w'))"
    using assms(1) l by (cases c) (auto simp: reconcile_def split: if_splits prod.splits option.splits)
  then show ?thesis
  proof
    assume "w' = w1"
    with st same show ?thesis by metis
  next
    assume "\<exists>e st. updateStatus C rl st w1 = (e, w')"
    then obtain e s where "update_status C (rl\<lparr>Status := s\<rparr>) w1 = (e, w')"
      by (auto simp: updateStatus_def)
    from write_cases(5)[OF this] st same show ?thesis
      by (elim disjE) (metis, auto simp: eff_status_def)
  qed
qed

lemma live_run_meta:
  assumes "Reconcile C L n w = (out, w')"
    and "Rls (abs w) n = Some rl" and "DeletionTimestamp (Meta rl) = None"
  shows "\<exists>rl1 rl'. registered L rl rl1 \<and> Rls (abs w') n = Some rl' \<and> Meta rl' = Meta rl1 \<and>
    ((\<forall>e. out \<noteq> Done (Some e)) \<longrightarrow> MergeFrom L 1 rl = BaseCopy rl \<longrightarrow>
       DefaultFinalizer \<in> set (Finalizers (Meta rl')))"
  using assms(1,2)
proof (cases rule: Reconcile_cases)
  case (early e rl1)
  then show ?thesis by (intro exI[of _ rl1]) simp
next
  case (pass rl1 w1)
  have n: "rl_name rl1 = n" using registeredD(1)[OF pass(2)] rl_name_stored[OF assms(2)] by simp
  have "reconcile C L rl1 w1 = (out, w')" using pass(4) assms(3) by simp
  moreover have "Rls (abs w1) (rl_name rl1) = Some rl1" using pass(1) n by simp
  ultimately obtain st where "Rls (abs w') n = Some (rl1\<lparr>Status := st\<rparr>)"
    using reconcile_meta n by blast
  with pass(2,3) show ?thesis by (intro exI[of _ rl1] exI[of _ "rl1\<lparr>Status := st\<rparr>"]) simp
qed

end

text \<open>The world after \<open>k\<close> runs for the object \<open>n\<close>.\<close>

definition after_runs :: "('q, 'w) client \<Rightarrow> 'q lib \<Rightarrow> string \<Rightarrow> nat \<Rightarrow> 'w \<Rightarrow> 'w" where
  "after_runs C L n k w = ((\<lambda>u. snd (Reconcile C L n u)) ^^ k) w"

lemma after_runs_simps [simp]: "after_runs C L n 0 w = w"
  "after_runs C L n (Suc k) w = snd (Reconcile C L n (after_runs C L n k w))"
  by (simp_all add: after_runs_def)

context reconciler
begin

lemma stuck_runs:
  assumes "Rls (abs w) n = Some rl" and "DeletionTimestamp (Meta rl) \<noteq> None"
    and "DefaultFinalizer \<in> set (Finalizers (Meta rl))" and "State (Status rl) \<noteq> Stopped"
    and "q \<in> set (Quotas (Spec rl))" and "blocking (abs w) q"
  shows "Rls (abs (after_runs C L n k w)) n = Some rl \<and> blocking (abs (after_runs C L n k w)) q"
proof (induction k)
  case 0
  with assms show ?case by simp
next
  case (Suc k)
  let ?u = "after_runs C L n k w"
  obtain out u' where "Reconcile C L n ?u = (out, u')" by (cases "Reconcile C L n ?u") blast
  with stuck_run(2,3)[OF this _ assms(2-5)] Suc show ?case by simp
qed

lemma unregistered_runs:
  assumes "\<And>p x. MergeFrom L p x = BaseRef p"
    and "Rls (abs w) n = Some rl" and "DeletionTimestamp (Meta rl) = None"
  shows "\<exists>rl'. Rls (abs (after_runs C L n k w)) n = Some rl' \<and> Meta rl' = Meta rl"
proof (induction k)
  case 0
  with assms(2) show ?case by simp
next
  case (Suc k)
  let ?u = "after_runs C L n k w"
  obtain out u' where run: "Reconcile C L n ?u = (out, u')" by (cases "Reconcile C L n ?u") blast
  from Suc obtain rl' where rl': "Rls (abs ?u) n = Some rl'" "Meta rl' = Meta rl" by blast
  with assms(3) have "DeletionTimestamp (Meta rl') = None" by simp
  from live_run_meta[OF run rl'(1) this] assms(1) rl'(2) run show ?case
    by (auto simp: registered_def)
qed

end

interpretation memr: reconciler mem_client proper mem_lib ..

end
