(* ===== verification/Reconciler_Progress.thy ===== *)
theory Reconciler_Progress
  imports Reconciler_Correct
begin

text \<open>
  Progress of the controller when no call fails without a reason: the rounds that cannot fail, the
  number of missing quotas as the measure of repeated runs, and the fixed point they reach.
\<close>

section \<open>The measure\<close>

definition missing :: "ResourceLimiterSpec \<Rightarrow> 'q cluster \<Rightarrow> nat" where
  "missing sp c = card {ns \<in> NamespaceName ` set (live_quotas (Quotas sp)). Rqs c (quota_key ns) = None}"

text \<open>The object is live, and the namespaces it lists exist and ask for quantities that parse.\<close>

definition runnable :: "'q lib \<Rightarrow> string \<Rightarrow> ResourceLimiterSpec \<Rightarrow> 'q cluster \<Rightarrow> bool" where
  "runnable L n sp c \<longleftrightarrow>
     (\<exists>rl. Rls c n = Some rl \<and> Spec rl = sp \<and> DeletionTimestamp (Meta rl) = None) \<and>
     (\<forall>q \<in> set (live_quotas (Quotas sp)). Nss c (NamespaceName q) \<noteq> None \<and> parses L q)"

definition ready :: "'q lib \<Rightarrow> string \<Rightarrow> ResourceLimiterSpec \<Rightarrow> 'q cluster \<Rightarrow> bool" where
  "ready L n sp c \<longleftrightarrow> (\<exists>rl. Rls c n = Some rl \<and> State (Status rl) = Ready) \<and>
     (\<forall>ns q. effective (live_quotas (Quotas sp)) ns = Some q \<longrightarrow> converged L c q)"

lemma missing_zero: "missing sp c = 0 \<longleftrightarrow>
    (\<forall>q \<in> set (live_quotas (Quotas sp)). Rqs c (quota_key (NamespaceName q)) \<noteq> None)"
proof -
  let ?S = "NamespaceName ` set (live_quotas (Quotas sp))"
  have "missing sp c = card {ns \<in> ?S. Rqs c (quota_key ns) = None}" by (rule missing_def)
  also have "\<dots> = 0 \<longleftrightarrow> {ns \<in> ?S. Rqs c (quota_key ns) = None} = {}"
    by (rule card_0_eq) (rule finite_Collect_conjI, simp)
  finally show ?thesis by (simp only: Collect_empty_eq ball_simps image_iff) metis
qed

lemma missing_created:
  assumes "q \<in> set (live_quotas (Quotas sp))" and "quota_created L rl q c c'"
  shows "missing sp c' < missing sp c"
proof -
  let ?S = "NamespaceName ` set (live_quotas (Quotas sp))"
  let ?M = "\<lambda>c. {ns \<in> ?S. Rqs c (quota_key ns) = None}"
  note d = assms(2)[unfolded quota_created_def, THEN conjunct2, THEN conjunct1]
  note n = assms(2)[unfolded quota_created_def, THEN conjunct1]
  have M: "ns \<in> ?M c' \<longleftrightarrow> ns \<noteq> NamespaceName q \<and> ns \<in> ?M c" for ns
  proof -
    have "quota_key ns \<in> dom (Rqs c') \<longleftrightarrow> ns = NamespaceName q \<or> quota_key ns \<in> dom (Rqs c)"
      unfolding d by simp
    then show ?thesis unfolding domIff mem_Collect_eq by blast
  qed
  have "NamespaceName q \<in> ?M c" using assms(1) n by (simp only: mem_Collect_eq imageI simp_thms)
  with M have "?M c' \<subset> ?M c" by (intro psubsetI subsetI) (simp_all only: M, metis M)
  moreover have "finite (?M c)" by (rule finite_Collect_conjI) simp
  ultimately show ?thesis unfolding missing_def by (rule psubset_card_mono[rotated])
qed

lemma ready_missing:
  assumes "ready L n sp c"
  shows "missing sp c = 0"
  unfolding missing_zero
proof
  fix q assume "q \<in> set (live_quotas (Quotas sp))"
  then obtain q' where q': "effective (live_quotas (Quotas sp)) (NamespaceName q) = Some q'"
    using effective_total by blast
  with assms have "converged L c q'" by (simp add: ready_def)
  with effective_name[OF q'] show "Rqs c (quota_key (NamespaceName q)) \<noteq> None"
    by (auto simp: converged_def)
qed

section \<open>Runs that cannot fail\<close>

locale reliable_reconciler = reconciler C abs L + reliable_api C abs
  for C :: "('q, 'w) client" and abs :: "'w \<Rightarrow> 'q cluster" and L :: "'q lib"
begin

lemma get_ns_eq: "Nss (abs w) m = Some x \<Longrightarrow> \<exists>w'. get_ns C (a, m) w = (Inr x, w') \<and> abs w' = abs w"
  using get_ns_total[of "(a, m)" w] get_nsD(1) by fastforce

lemma get_rq_eq:
  "Rqs (abs w) k = Some x \<Longrightarrow> \<exists>w'. get_rq C k w = (Inr x, w') \<and> abs w' = abs w"
  "Rqs (abs w) k = None \<Longrightarrow> \<exists>w'. get_rq C k w = (Inl NotFound, w') \<and> abs w' = abs w"
  using get_rq_total[of k w] get_rqD(1) by fastforce+

lemma update_ns_eq: "Nss (abs w) (NsName x) \<noteq> None \<Longrightarrow>
    \<exists>w'. update_ns C x w = (None, w') \<and> abs w' = eff_update_ns x (abs w)"
  using update_ns_total[of w x] update_ns_ok by (metis prod.collapse)

lemma delete_rq_eq: "Rqs (abs w) (key_of x) \<noteq> None \<Longrightarrow>
    \<exists>w'. delete_rq C x w = (None, w') \<and> abs w' = eff_delete_rq x (abs w)"
  using delete_rq_total[of w x] delete_rq_ok by (metis prod.collapse)

lemma create_quota_total:
  assumes "Rqs (abs w) (quota_key (NamespaceName q)) = None" and "parses L q"
  shows "\<exists>w'. create_quota C L rl q w = (Return None, w')"
proof -
  let ?rq = "empty_rq\<lparr>QuotaName := quota_name (NamespaceName q), QuotaNamespace := NamespaceName q\<rparr>"
  have s: "SetControllerReference L rl ?rq = Inr (?rq\<lparr>Owner := Some (rl_name rl)\<rparr>)"
    by (rule SetControllerReference_total) (simp add: empty_rq_def)
  obtain rq2 where h: "setHard L (?rq\<lparr>Owner := Some (rl_name rl), Hard := []\<rparr>) q = Inr rq2"
    using setHard_total[OF assms(2)] by blast
  have "setHard L ((?rq\<lparr>Owner := Some (rl_name rl)\<rparr>)\<lparr>Hard := []\<rparr>) q = Inr rq2" using h by simp
  from setHard_ok[OF this] have "key_of rq2 = quota_key (NamespaceName q)" by (auto simp: quota_key_def)
  with assms(1) have "fst (create_rq C rq2 w) = None" by (intro create_rq_total) simp
  with s h show ?thesis
    by (cases "create_rq C rq2 w") (simp add: create_quota_def Let_def)
qed

lemma update_quota_total:
  assumes "Rqs (abs w) (key_of rq) \<noteq> None" and "parses L q"
  shows "\<exists>s' w'. update_quota C L rq q s w = (Continue s', w')"
proof -
  obtain rq2 where h: "setHard L (rq\<lparr>Hard := []\<rparr>) q = Inr rq2" using setHard_total[OF assms(2)] by blast
  from setHard_ok[OF h] have "key_of rq2 = key_of rq" by auto
  with assms(1) have "fst (update_rq C rq2 w) = None" by (intro update_rq_total) simp
  with h show ?thesis by (cases "update_rq C rq2 w") (simp add: update_quota_def Let_def)
qed

text \<open>A round of the live pass goes on or returns \<open>nil\<close>.\<close>

lemma reconcile_quota_total:
  assumes "Applied (Spec rl)" and "reconcile_quota C L rl q s w = (r, w')"
    and "\<not> ignored (NamespaceName q) \<Longrightarrow> Nss (abs w) (NamespaceName q) \<noteq> None \<and> parses L q"
  shows "r = Return None \<or> (\<exists>s'. r = Continue s')"
proof (cases "ignored (NamespaceName q)")
  case True
  with assms(2) reconcile_quota_ignored[OF True] show ?thesis by auto
next
  case False
  let ?ns = "NamespaceName q"
  from assms(3)[OF False] obtain n where n: "Nss (abs w) ?ns = Some n" and p: "parses L q" by blast
  from get_ns_eq[OF n] obtain w1 where g: "get_ns C (?ns, ?ns) w = (Inr n, w1)" "abs w1 = abs w" by blast
  have nm: "NsName n = ?ns" using well_keyedD(2)[OF well_keyed_abs n] .
  have "Nss (abs w1) (NsName (label_namespace n)) \<noteq> None" using g(2) n nm by simp
  from update_ns_eq[OF this] obtain w2 where u: "update_ns C (label_namespace n) w1 = (None, w2)" by blast
  have a: "apply_quota C L rl q s w2 = (r, w')"
    using assms(1,2) False g u by (simp add: reconcile_quota_def ignored_def)
  show ?thesis
  proof (cases "Rqs (abs w2) (quota_key ?ns)")
    case None
    from get_rq_eq(2)[OF None] obtain w3
      where g3: "get_rq C (quota_key ?ns) w2 = (Inl NotFound, w3)" "abs w3 = abs w2" by blast
    with create_quota_total[of w3 q rl] None p a show ?thesis by (auto simp: apply_quota_def)
  next
    case (Some rq)
    from get_rq_eq(1)[OF Some] obtain w3
      where g3: "get_rq C (quota_key ?ns) w2 = (Inr rq, w3)" "abs w3 = abs w2" by blast
    have "key_of rq = quota_key ?ns" using well_keyedD(3)[OF well_keyed_abs Some] .
    with update_quota_total[of w3 rq q s] Some g3 p a show ?thesis by (auto simp: apply_quota_def)
  qed
qed

lemma register_finalizer_total:
  assumes "Rls (abs w) n = Some rl"
  shows "\<exists>x w'. register_finalizer C L n rl w = (Inr x, w')"
proof (cases "DefaultFinalizer \<in> set (Finalizers (Meta rl))")
  case True
  then show ?thesis by (simp add: register_finalizer_eq)
next
  case False
  note n = rl_name_stored[OF assms]
  have "fst (patch_rl C (patch_base L rl) (with_ours rl) w) = None"
    using assms n by (intro patch_rl_total) simp
  then obtain w1 where p: "patch_rl C (patch_base L rl) (with_ours rl) w = (None, w1)"
    by (metis prod.collapse)
  from patch_rl_ok[OF p patch_base_only] eff_patch_ours[of "abs w" rl] assms n
  have "Rls (abs w1) n \<noteq> None" by simp
  with get_rl_total[of n w1] False p show ?thesis by (auto simp: register_finalizer_eq)
qed

lemma Reconcile_total:
  assumes "Rls (abs w) n = Some rl"
    and "\<And>rl1 w1. registered L rl rl1 \<Longrightarrow> abs w1 = set_rl n rl1 (abs w) \<Longrightarrow>
      fst (if DeletionTimestamp (Meta rl) \<noteq> None then reconcileDelete C L rl1 w1
        else reconcile C L rl1 w1) = Done None"
  shows "fst (Reconcile C L n w) = Done None"
proof -
  obtain w0 where g: "get_rl C n w = (Inr rl, w0)" using get_rl_total[of n w] assms(1) by auto
  have w0: "abs w0 = abs w" using get_rlD(1)[OF g] .
  with assms(1) have st: "Rls (abs w0) n = Some rl" by simp
  obtain x w1 where r: "register_finalizer C L n rl w0 = (Inr x, w1)"
    using register_finalizer_total[OF st] by blast
  from register_finalizer_cases[OF r st] obtain rl1 where "abs w1 = set_rl n rl1 (abs w)"
    "registered L rl rl1" "x = rl1" using w0 by auto
  with assms(2)[of x w1] g r registeredD(2)[of L rl x]
  show ?thesis by (auto simp: Reconcile_def)
qed

lemma reconcile_total:
  assumes "Rls (abs w) (rl_name rl) = Some rl" and "Applied (Spec rl)"
    and "\<And>q. q \<in> set (live_quotas (Quotas (Spec rl))) \<Longrightarrow>
      Nss (abs w) (NamespaceName q) \<noteq> None \<and> parses L q"
  shows "fst (reconcile C L rl w) = Done None"
proof -
  let ?body = "reconcile_quota C L rl" and ?qs = "Quotas (Spec rl)"
  obtain c w1 where l: "for_loop ?body ?qs [] w = (c, w1)" by (cases "for_loop ?body ?qs [] w") blast
  show ?thesis
  proof (cases "\<exists>s. c = Continue s")
    case True
    then obtain s where c: "c = Continue s" by blast
    have "Rls (abs w1) (rl_name rl) \<noteq> None"
      using only_touchesD(1)[OF live.loop_local[OF l]] assms(1) by simp
    then have "fst (updateStatus C rl \<lparr>State = Ready, StatusQuotas = s\<rparr> w1) = None"
      unfolding updateStatus_def by (intro update_status_total) simp
    with l c assms(2) show ?thesis
      by (cases "updateStatus C rl \<lparr>State = Ready, StatusQuotas = s\<rparr> w1") (simp add: reconcile_def)
  next
    case False
    with for_loop_stopped[OF l] obtain pre x post s1 w2 where qs: "?qs = pre @ x # post"
      and p: "for_loop ?body pre [] w = (Continue s1, w2)" and b: "?body x s1 w2 = (c, w1)" by blast
    have "Nss (abs w2) (NamespaceName x) \<noteq> None \<and> parses L x" if "\<not> ignored (NamespaceName x)"
      using assms(3)[of x] that qs only_touchesD(3)[OF live.loop_local[OF p]] by simp
    from reconcile_quota_total[OF assms(2) b this] False have "c = Return None" by blast
    with l show ?thesis by (simp add: reconcile_def)
  qed
qed

text \<open>One run on a live object whose entries can be served.\<close>

lemma progress_step:
  assumes "runnable L n sp (abs w)" and "Applied sp" and run: "Reconcile C L n w = (out, w')"
  shows "out = Done None" "runnable L n sp (abs w')"
    "ready L n sp (abs w') \<or> missing sp (abs w') < missing sp (abs w)"
proof -
  from assms(1) obtain rl where rl: "Rls (abs w) n = Some rl" "Spec rl = sp"
    "DeletionTimestamp (Meta rl) = None" unfolding runnable_def by blast
  have q: "Nss (abs w) (NamespaceName q) \<noteq> None \<and> parses L q" if "q \<in> set (live_quotas (Quotas sp))" for q
    using assms(1) that unfolding runnable_def by blast
  have "fst (Reconcile C L n w) = Done None"
  proof (rule Reconcile_total[OF rl(1)])
    fix rl1 w1 assume r: "registered L rl rl1" and w1: "abs w1 = set_rl n rl1 (abs w)"
    have n: "rl_name rl1 = n" using registeredD(1)[OF r] rl_name_stored[OF rl(1)] by simp
    have "fst (reconcile C L rl1 w1) = Done None"
      using registeredD(3)[OF r] rl(2) assms(2) q w1 n by (intro reconcile_total) simp_all
    then show "fst (if DeletionTimestamp (Meta rl) \<noteq> None then reconcileDelete C L rl1 w1
        else reconcile C L rl1 w1) = Done None" using rl(3) by simp
  qed
  then show out: "out = Done None" using run by simp
  obtain rl' where rl': "Rls (abs w') n = Some rl'" using live_run_meta[OF run rl(1,3)] by blast
  note fr = Reconcile_run_frame[OF run rl(1)]
  have "Spec rl' = sp \<and> DeletionTimestamp (Meta rl') = None"
    using fr[unfolded run_frame_def, THEN conjunct2, THEN conjunct2, THEN conjunct2,
      rule_format, OF rl(1) rl'] rl(2,3) by simp
  moreover have "Nss (abs w') m = None \<longleftrightarrow> Nss (abs w) m = None" for m
    using only_touchesD(3)[OF fr[unfolded run_frame_def, THEN conjunct1], of m] by simp
  ultimately show "runnable L n sp (abs w')" using rl' q unfolding runnable_def by blast
  from applied_run[OF run[unfolded out] rl(1,3)] rl(2) assms(2) missing_created
  show "ready L n sp (abs w') \<or> missing sp (abs w') < missing sp (abs w)"
    unfolding ready_def by fastforce
qed

lemma progress_runs:
  assumes "runnable L n sp (abs w)" and "Applied sp"
  shows "runnable L n sp (abs (after_runs C L n k w)) \<and>
    (ready L n sp (abs (after_runs C L n k w)) \<or>
     missing sp (abs (after_runs C L n k w)) + k \<le> missing sp (abs w))"
proof (induction k)
  case 0
  with assms(1) show ?case by simp
next
  case (Suc k)
  let ?u = "after_runs C L n k w"
  from Suc have u: "runnable L n sp (abs ?u)" by blast
  note st = progress_step[OF u assms(2) prod.collapse[symmetric]]
  show ?case
  proof (cases "ready L n sp (abs ?u)")
    case True
    from ready_missing[OF this] st(2,3) show ?thesis by simp
  next
    case False
    with Suc st(2,3) show ?thesis by auto
  qed
qed

section \<open>Runs that panic\<close>

lemma setHard_panics: "\<not> parses L q \<Longrightarrow> \<exists>m. setHard L rq q = Inl m"
  by (auto simp: parses_def setHard_def Let_def split: sum.splits)

lemma create_quota_panics:
  assumes "\<not> parses L q"
  shows "\<exists>m. create_quota C L rl q w = (Panic m, w)"
proof -
  let ?rq = "empty_rq\<lparr>QuotaName := quota_name (NamespaceName q), QuotaNamespace := NamespaceName q\<rparr>"
  have "SetControllerReference L rl ?rq = Inr (?rq\<lparr>Owner := Some (rl_name rl)\<rparr>)"
    by (rule SetControllerReference_total) (simp add: empty_rq_def)
  with setHard_panics[OF assms, of "?rq\<lparr>Owner := Some (rl_name rl), Hard := []\<rparr>"]
  show ?thesis by (auto simp: create_quota_def Let_def)
qed

lemma reconcile_quota_panics:
  assumes "Applied (Spec rl)" and "\<not> ignored (NamespaceName q)"
    and "Nss (abs w) (NamespaceName q) \<noteq> None" and "\<not> parses L q"
  shows "\<exists>m w'. reconcile_quota C L rl q s w = (Panic m, w')"
proof -
  let ?ns = "NamespaceName q"
  from assms(3) obtain n where n: "Nss (abs w) ?ns = Some n" by blast
  from get_ns_eq[OF n] obtain w1 where g: "get_ns C (?ns, ?ns) w = (Inr n, w1)" "abs w1 = abs w" by blast
  have nm: "NsName n = ?ns" using well_keyedD(2)[OF well_keyed_abs n] .
  have "Nss (abs w1) (NsName (label_namespace n)) \<noteq> None" using g(2) n nm by simp
  from update_ns_eq[OF this] obtain w2 where u: "update_ns C (label_namespace n) w1 = (None, w2)" by blast
  have r: "reconcile_quota C L rl q s w = apply_quota C L rl q s w2"
    using assms(1,2) g u by (simp add: reconcile_quota_def ignored_def)
  show ?thesis
  proof (cases "Rqs (abs w2) (quota_key ?ns)")
    case None
    from get_rq_eq(2)[OF None] create_quota_panics[OF assms(4)] r
    show ?thesis by (auto simp: apply_quota_def) blast
  next
    case (Some rq)
    from get_rq_eq(1)[OF Some] setHard_panics[OF assms(4), of "rq\<lparr>Hard := []\<rparr>"] r
    show ?thesis by (auto simp: apply_quota_def update_quota_def)
  qed
qed

lemma panic_run:
  assumes "Rls (abs w) n = Some rl" and "DeletionTimestamp (Meta rl) = None" and "Applied (Spec rl)"
    and qs: "Quotas (Spec rl) = pre @ q # post" and "\<not> ignored (NamespaceName q)"
    and "Nss (abs w) (NamespaceName q) \<noteq> None" and "\<not> parses L q"
    and pre: "\<And>p. p \<in> set (live_quotas pre) \<Longrightarrow> Nss (abs w) (NamespaceName p) \<noteq> None \<and>
      Rqs (abs w) (quota_key (NamespaceName p)) \<noteq> None \<and> parses L p"
  shows "\<exists>m. fst (Reconcile C L n w) = Panicked m"
proof -
  obtain w0 where g: "get_rl C n w = (Inr rl, w0)" using get_rl_total[of n w] assms(1) by auto
  have st: "Rls (abs w0) n = Some rl" using get_rlD(1)[OF g] assms(1) by simp
  obtain x w1 where r: "register_finalizer C L n rl w0 = (Inr x, w1)"
    using register_finalizer_total[OF st] by blast
  from register_finalizer_cases[OF r st] obtain rl1 where w1: "abs w1 = set_rl n rl1 (abs w)"
    and reg: "registered L rl rl1" and x: "x = rl1" using get_rlD(1)[OF g] by auto
  note rd = registeredD[OF reg]
  let ?body = "reconcile_quota C L rl1"
  obtain c w2 where l: "for_loop ?body pre [] w1 = (c, w2)" by (cases "for_loop ?body pre [] w1") blast
  have "\<exists>s. c = Continue s"
  proof (rule ccontr)
    assume "\<not> (\<exists>s. c = Continue s)"
    with for_loop_stopped[OF l] obtain pre1 p post1 s1 w3 where p: "pre = pre1 @ p # post1"
      and l1: "for_loop ?body pre1 [] w1 = (Continue s1, w3)" and b: "?body p s1 w3 = (c, w2)" by blast
    have ap: "Applied (Spec rl1)" using rd(3) assms(3) by simp
    have "Nss (abs w3) (NamespaceName p) \<noteq> None \<and> parses L p" if "\<not> ignored (NamespaceName p)"
      using pre[of p] that p w1 only_touchesD(3)[OF live.loop_local[OF l1]] by simp
    from reconcile_quota_total[OF ap b this] \<open>\<not> (\<exists>s. c = Continue s)\<close> have c: "c = Return None" by blast
    from reconcile_quota_created[OF b[unfolded c]] have "\<not> ignored (NamespaceName p)"
      and "Rqs (abs w3) (quota_key (NamespaceName p)) = None" by (simp_all add: quota_created_def)
    with pre[of p] p w1 same_usage_None[OF applied_loop(2)[OF l1 ap]] show False by simp
  qed
  then obtain s where c: "c = Continue s" by blast
  have "Nss (abs w2) (NamespaceName q) \<noteq> None"
    using assms(6) w1 only_touchesD(3)[OF live.loop_local[OF l]] by simp
  with reconcile_quota_panics[of rl1 q w2 s] rd(3) assms(3,5,7) obtain m w3
    where "?body q s w2 = (Panic m, w3)" by auto
  with l c have "for_loop ?body (Quotas (Spec rl1)) [] w1 = (Panic m, w3)"
    using qs rd(3) by (simp add: for_loop_append)
  then have "reconcile C L rl1 w1 = (Panicked m, w3)" by (simp add: reconcile_def)
  with g r x rd(2) assms(2) show ?thesis by (auto simp: Reconcile_def)
qed

section \<open>Deletions that go through\<close>

lemma delete_quota_total:
  assumes "Nss (abs w) (NamespaceName q) \<noteq> None \<Longrightarrow> Rqs (abs w) (quota_key (NamespaceName q)) \<noteq> None"
  shows "\<exists>w'. delete_quota C q u w = (Continue (), w')"
proof (cases "Nss (abs w) (NamespaceName q)")
  case None
  with get_ns_total[of "('''', NamespaceName q)" w] show ?thesis by (auto simp: delete_quota_def)
next
  case (Some n)
  let ?ns = "NamespaceName q"
  from get_ns_total[of "('''', ?ns)" w] Some obtain w1 where g1: "get_ns C ('''', ?ns) w = (Inr n, w1)"
    by auto
  have a1: "abs w1 = abs w" using get_nsD(1)[OF g1] .
  from assms Some obtain rq where rq: "Rqs (abs w) (quota_key ?ns) = Some rq" by auto
  from get_rq_eq(1)[of w1 "quota_key ?ns" rq] rq a1 obtain w2
    where g2: "get_rq C (quota_key ?ns) w1 = (Inr rq, w2)" and a2: "abs w2 = abs w" by auto
  have k: "key_of rq = quota_key ?ns" using well_keyedD(3)[OF well_keyed_abs rq] .
  from delete_rq_eq[of w2 rq] k rq a2 obtain w3
    where g3: "delete_rq C rq w2 = (None, w3)" and a3: "abs w3 = eff_delete_rq rq (abs w)" by auto
  from get_ns_eq[of w3 ?ns n] Some a3 obtain w4
    where g4: "get_ns C (?ns, ?ns) w3 = (Inr n, w4)" and a4: "abs w4 = abs w3"
    by (auto simp: eff_delete_rq_def)
  have "NsName n = ?ns" using well_keyedD(2)[OF well_keyed_abs Some] .
  with update_ns_eq[of w4 "unlabel_namespace n"] Some a3 a4
  obtain w5 where "update_ns C (unlabel_namespace n) w4 = (None, w5)"
    by (auto simp: eff_delete_rq_def unlabel_namespace_def)
  with g1 g2 g3 g4 show ?thesis by (simp add: delete_quota_def)
qed

lemma delete_loop_total:
  assumes "distinct (map NamespaceName qs)" and "\<And>q. q \<in> set qs \<Longrightarrow> \<not> blocking (abs w) q"
  shows "\<exists>w'. for_loop (delete_quota C) qs () w = (Continue (), w')"
proof -
  obtain c w' where l: "for_loop (delete_quota C) qs () w = (c, w')"
    by (cases "for_loop (delete_quota C) qs () w") blast
  have "\<exists>s. c = Continue s"
  proof (rule ccontr)
    assume nc: "\<not> (\<exists>s. c = Continue s)"
    with for_loop_stopped[OF l] obtain pre q post s1 w1 where qs: "qs = pre @ q # post"
      and p: "for_loop (delete_quota C) pre () w = (Continue s1, w1)"
      and b: "delete_quota C q s1 w1 = (c, w')" by auto
    have t: "only_touches (NamespaceName ` set pre) (abs w) (abs w1)"
      using deletion.loop_local[OF p] by (rule only_touches_mono) auto
    have q: "NamespaceName q \<notin> NamespaceName ` set pre" using assms(1) qs by auto
    then have "quota_key (NamespaceName q) \<notin> quota_key ` NamespaceName ` set pre" by auto
    note same = only_touchesD(2)[OF t q] only_touchesD(4)[OF t this]
    have "\<not> blocking (abs w1) q"
      using assms(2)[of q] qs unfolding blocking_def same by simp
    with delete_quota_total[of w1 q s1] b nc show False by (auto simp: blocking_def)
  qed
  with l show ?thesis by auto
qed

lemma deletion_total:
  assumes "Rls (abs w) n = Some rl" and "DeletionTimestamp (Meta rl) \<noteq> None"
    and "DefaultFinalizer \<in> set (Finalizers (Meta rl))" and "distinct (map NamespaceName (Quotas (Spec rl)))"
    and "\<And>q. q \<in> set (Quotas (Spec rl)) \<Longrightarrow> \<not> blocking (abs w) q"
  shows "fst (Reconcile C L n w) = Done None"
proof (rule Reconcile_total[OF assms(1)])
  fix rl1 w1 assume r: "registered L rl rl1" and w1: "abs w1 = set_rl n rl1 (abs w)"
  have rl1: "rl1 = rl" using r assms(3) by (auto simp: registered_def)
  have n: "rl_name rl = n" using rl_name_stored[OF assms(1)] .
  have fin: "\<exists>w'. remove_our_finalizer C L rl u = (Done None, w')" if "Rls (abs u) n = Some rl" for u
  proof -
    obtain out u' where f: "remove_our_finalizer C L rl u = (out, u')"
      by (cases "remove_our_finalizer C L rl u") blast
    let ?obj = "RemoveFinalizer L rl DefaultFinalizer"
    have "fst (patch_rl C b ?obj u) = None" for b
      using that n by (intro patch_rl_total) (simp add: RemoveFinalizer_eq)
    then show ?thesis
      by (auto simp: remove_our_finalizer_def Let_def split: prod.splits option.splits) (metis fst_conv option.distinct(1))+
  qed
  have "fst (reconcileDelete C L rl w1) = Done None"
  proof (cases "State (Status rl) = Stopped")
    case True
    with fin[of w1] w1 rl1 assms(3) show ?thesis
      by (auto simp: reconcileDelete_def ContainsFinalizer_iff)
  next
    case False
    have "\<not> blocking (abs w1) q" if "q \<in> set (Quotas (Spec rl))" for q
      using assms(5)[OF that] w1 by (simp add: blocking_def)
    from delete_loop_total[OF assms(4) this] obtain w2
      where l: "for_loop (delete_quota C) (Quotas (Spec rl)) () w1 = (Continue (), w2)" by blast
    have "Rls (abs w2) n = Some rl" using only_touchesD(1)[OF deletion.loop_local[OF l]] w1 rl1 by simp
    with fin[of w2] l False assms(3) show ?thesis
      by (auto simp: reconcileDelete_def ContainsFinalizer_iff)
  qed
  with rl1 assms(2) show "fst (if DeletionTimestamp (Meta rl) \<noteq> None then reconcileDelete C L rl1 w1
      else reconcile C L rl1 w1) = Done None" by simp
qed

end

end
