(* ===== verification/Controller_Safety.thy ===== *)
theory Controller_Safety
  imports Reconciler_Correct
begin

text \<open>
  The safety properties of the controller, for every client and helper library that keep their
  contracts: \<open>reconciler C abs L\<close> is the conjunction of \<open>kube_api C abs\<close> and \<open>kube_lib L\<close>. Each is
  stated for one run of \<open>Reconcile\<close>, whatever the cluster looks like and whichever call fails. The
  witnesses run the in-memory API server on the cluster below: one object for the namespaces
  \<open>default\<close> and \<open>kube-system\<close>.
\<close>

section \<open>An example cluster\<close>

definition ex_quota :: ResourceLimiterQuota where
  "ex_quota = \<lparr>NamespaceName = ''default'', CpuRequest = ''1'', MemRequest = ''150Mi'',
     CpuLimit = ''2'', MemLimit = ''200Mi''\<rparr>"

definition ex_rl :: ResourceLimiter where
  "ex_rl = empty_rl\<lparr>Meta := empty_meta\<lparr>Name := ''rl''\<rparr>,
     Spec := \<lparr>Quotas = [ex_quota, ex_quota\<lparr>NamespaceName := ''kube-system''\<rparr>], Applied = True\<rparr>\<rparr>"

definition ex_deleting :: ResourceLimiter where
  "ex_deleting = ex_rl\<lparr>Meta := \<lparr>Name = ''rl'', Finalizers = [DefaultFinalizer],
     DeletionTimestamp = Some ''now''\<rparr>, Spec := \<lparr>Quotas = [ex_quota], Applied = True\<rparr>\<rparr>"

definition ex_stopped :: ResourceLimiter where
  "ex_stopped = ex_rl\<lparr>Spec := (Spec ex_rl)\<lparr>Applied := False\<rparr>\<rparr>"

definition ex_ns :: Namespace where
  "ex_ns = \<lparr>NsName = ''default'', Labels = [(''team'', ''a'')]\<rparr>"

definition ex_cluster :: "ResourceLimiter \<Rightarrow> string cluster" where
  "ex_cluster rl = \<lparr>Rls = [''rl'' \<mapsto> rl], Nss = [''default'' \<mapsto> ex_ns,
     ''kube-system'' \<mapsto> \<lparr>NsName = ''kube-system'', Labels = []\<rparr>], Rqs = Map.empty\<rparr>"

text \<open>The cluster after one run: the quota of \<open>default\<close> is there.\<close>

definition ex_cluster1 :: "ResourceLimiter \<Rightarrow> string cluster" where
  "ex_cluster1 rl = snd (Reconcile mem_client mem_lib ''rl'' (ex_cluster ex_rl))\<lparr>Rls := [''rl'' \<mapsto> rl]\<rparr>"

lemma Rls_ex [simp]: "rl_name rl = ''rl'' \<Longrightarrow> Rls (proper (ex_cluster rl)) ''rl'' = Some rl"
  "rl_name rl = ''rl'' \<Longrightarrow> Rls (proper (ex_cluster1 rl)) ''rl'' = Some rl"
  by (simp_all add: ex_cluster_def ex_cluster1_def proper_def)

lemma rl_name_ex [simp]: "rl_name ex_rl = ''rl''" "rl_name ex_deleting = ''rl''"
  "rl_name ex_stopped = ''rl''"
  by (simp_all add: ex_rl_def ex_deleting_def ex_stopped_def)

section \<open>Live objects\<close>

text \<open>The runs the witnesses use, evaluated.\<close>

lemma ex_run_applied:
  "Reconcile mem_client mem_lib ''rl'' (ex_cluster1 ex_rl) =
     (Done None, snd (Reconcile mem_client mem_lib ''rl'' (ex_cluster1 ex_rl)))"
  by (rule prod_eqI) (code_simp, simp)

lemma ex_run_stopped:
  "Reconcile mem_client mem_lib ''rl'' (ex_cluster1 ex_stopped) =
     (Done None, snd (Reconcile mem_client mem_lib ''rl'' (ex_cluster1 ex_stopped)))"
  by (rule prod_eqI) (code_simp, simp)

lemma ex_run_deleting:
  "Reconcile mem_client mem_lib ''rl'' (ex_cluster1 ex_deleting) =
     (Done None, snd (Reconcile mem_client mem_lib ''rl'' (ex_cluster1 ex_deleting)))"
  by (rule prod_eqI) (code_simp, simp)

section \<open>Live objects\<close>

text \<open>C1: a run without an error on a live object with \<open>applied\<close> set has either put everything in
  place - every listed namespace that is not ignored carries both labels and the quota its last entry
  asks for, and the status is \<open>ready\<close> with usage and limit of every entry - or it has created
  exactly one missing quota, owned by the object and with the limits of its entry.\<close>

theorem Reconcile_applied:
  assumes "reconciler C view L" and "Reconcile C L n w = (Done None, w')"
    and "Rls (view w) n = Some rl" and "DeletionTimestamp (Meta rl) = None" and "Applied (Spec rl)"
  shows "(\<exists>rl'. Rls (view w') n = Some rl' \<and> Status rl' = \<lparr>State = Ready, StatusQuotas =
            map (\<lambda>q. status_entry L (the (Rqs (view w) (quota_key (NamespaceName q)))) q)
              (live_quotas (Quotas (Spec rl)))\<rparr> \<and>
          (\<forall>ns q. effective (live_quotas (Quotas (Spec rl))) ns = Some q \<longrightarrow> converged L (view w') q)) \<or>
    (\<exists>q \<in> set (live_quotas (Quotas (Spec rl))). quota_created L rl q (view w) (view w'))"
  by (rule reconciler.applied_run[OF assms])

theorem Reconcile_applied_witness:
  "\<exists>w'. Reconcile mem_client mem_lib ''rl'' (ex_cluster1 ex_rl) = (Done None, w') \<and>
     ((\<exists>rl'. Rls (proper w') ''rl'' = Some rl' \<and> State (Status rl') = Ready) \<or>
      (\<exists>q. quota_created mem_lib ex_rl q (proper (ex_cluster1 ex_rl)) (proper w')))"
proof -
  have h: "DeletionTimestamp (Meta ex_rl) = None" "Applied (Spec ex_rl)"
    by (simp_all add: ex_rl_def empty_meta_def)
  from Reconcile_applied[OF memr.reconciler_axioms ex_run_applied Rls_ex(2)[OF rl_name_ex(1)] h]
  have "(\<exists>rl'. Rls (proper (snd (Reconcile mem_client mem_lib ''rl'' (ex_cluster1 ex_rl)))) ''rl'' =
        Some rl' \<and> State (Status rl') = Ready) \<or>
      (\<exists>q. quota_created mem_lib ex_rl q (proper (ex_cluster1 ex_rl))
         (proper (snd (Reconcile mem_client mem_lib ''rl'' (ex_cluster1 ex_rl)))))"
    by (elim disjE) (rule disjI1, force, rule disjI2, blast)
  then show ?thesis using ex_run_applied by blast
qed

text \<open>C26: a run without an error on a live object with \<open>applied\<close> not set leaves no quota of ours in the
  listed namespaces that are not ignored and sets the status to \<open>stopped\<close> - but the two labels
  that subject the namespaces to the webhooks are set all the same.\<close>

theorem Reconcile_stopped:
  assumes "reconciler C view L" and "Reconcile C L n w = (Done None, w')"
    and "Rls (view w) n = Some rl" and "DeletionTimestamp (Meta rl) = None" and "\<not> Applied (Spec rl)"
  shows "(\<exists>rl'. Rls (view w') n = Some rl' \<and> Status rl' = \<lparr>State = Stopped, StatusQuotas = []\<rparr>) \<and>
    (\<forall>q. q \<in> set (live_quotas (Quotas (Spec rl))) \<longrightarrow>
       Rqs (view w') (quota_key (NamespaceName q)) = None \<and> ns_enabled (view w') (NamespaceName q))"
  by (rule reconciler.stopped_run[OF assms])

theorem Reconcile_stopped_witness:
  "\<exists>w'. Reconcile mem_client mem_lib ''rl'' (ex_cluster1 ex_stopped) = (Done None, w') \<and>
     Rqs (proper (ex_cluster1 ex_stopped)) (''default'', ''rl-quota-default'') \<noteq> None \<and>
     Rqs (proper w') (''default'', ''rl-quota-default'') = None"
proof -
  have h: "DeletionTimestamp (Meta ex_stopped) = None" "\<not> Applied (Spec ex_stopped)"
    by (simp_all add: ex_stopped_def empty_meta_def ex_rl_def)
  have "ex_quota \<in> set (live_quotas (Quotas (Spec ex_stopped)))"
    by (simp add: ex_stopped_def ex_rl_def ex_quota_def ignored_def go_defs)
  with Reconcile_stopped[OF memr.reconciler_axioms ex_run_stopped Rls_ex(2)[OF rl_name_ex(3)] h]
  have "Rqs (proper (snd (Reconcile mem_client mem_lib ''rl'' (ex_cluster1 ex_stopped))))
      (''default'', ''rl-quota-default'') = None"
    by (auto simp: quota_key_def quota_name_def ex_quota_def)
  moreover have "Rqs (proper (ex_cluster1 ex_stopped)) (''default'', ''rl-quota-default'') \<noteq> None"
    by code_simp
  ultimately show ?thesis using ex_run_stopped by blast
qed

text \<open>C7: whatever happens in a run - also when a call fails or the code panics - nothing outside of the
  object's own namespaces is touched (for a live object: of those that are not ignored), inside them
  only the two labels and the quota \<open>rl-quota-<namespace>\<close>, no other object, and of the object itself
  neither the spec nor the deletion timestamp.\<close>

theorem Reconcile_frame:
  assumes "reconciler C view L" and "Reconcile C L n w = (out, w')" and "Rls (view w) n = Some rl"
  shows "run_frame n (NamespaceName ` set (if DeletionTimestamp (Meta rl) = None
    then live_quotas (Quotas (Spec rl)) else Quotas (Spec rl))) (view w) (view w')"
  by (rule reconciler.Reconcile_run_frame[OF assms])

theorem Reconcile_frame_witness:
  "Nss (proper (snd (Reconcile mem_client mem_lib ''rl'' (ex_cluster ex_rl)))) ''kube-system'' =
     Nss (proper (ex_cluster ex_rl)) ''kube-system''"
proof -
  have "run_frame ''rl'' (NamespaceName ` set (live_quotas (Quotas (Spec ex_rl))))
      (proper (ex_cluster ex_rl)) (proper (snd (Reconcile mem_client mem_lib ''rl'' (ex_cluster ex_rl))))"
    using Reconcile_frame[OF memr.reconciler_axioms prod.collapse[symmetric] Rls_ex(1)[OF rl_name_ex(1)]]
    by (simp add: ex_rl_def empty_meta_def)
  then have "only_touches (NamespaceName ` set (live_quotas (Quotas (Spec ex_rl))))
      (proper (ex_cluster ex_rl)) (proper (snd (Reconcile mem_client mem_lib ''rl'' (ex_cluster ex_rl)))
        \<lparr>Rls := Rls (proper (ex_cluster ex_rl))\<rparr>)"
    unfolding run_frame_def by (rule conjunct1)
  from only_touchesD(2)[OF this, of "''kube-system''"] show ?thesis
    by (simp add: ex_rl_def ex_quota_def ignored_def go_defs)
qed

section \<open>Objects under deletion\<close>

text \<open>C14: our finalizer comes off an object under deletion, which carries it, only when the deletion is done, unless its
  status already said \<open>stopped\<close>. A run on it does not panic. Either the object is as before and the run has returned an error, or
  the finalizer is gone (or the object is), and then, with a status other than \<open>stopped\<close>, every listed namespace that
  exists had its quota and has lost it and both labels.\<close>

theorem Reconcile_deletion:
  assumes "reconciler C view L" and "Reconcile C L n w = (out, w')"
    and "Rls (view w) n = Some rl" and "DeletionTimestamp (Meta rl) \<noteq> None"
    and "DefaultFinalizer \<in> set (Finalizers (Meta rl))"
  shows "(\<exists>e. out = Done e) \<and>
    (Rls (view w') n = Some rl \<and> out \<noteq> Done None \<or>
     (let fs = filter (\<lambda>g. g \<noteq> DefaultFinalizer) (Finalizers (Meta rl))
      in Rls (view w') n = (if fs = [] then None else Some (set_finalizers fs rl))) \<and>
     (State (Status rl) \<noteq> Stopped \<longrightarrow> (\<forall>q. q \<in> set (Quotas (Spec rl)) \<longrightarrow>
        Nss (view w) (NamespaceName q) \<noteq> None \<longrightarrow>
        cleaned (view w') (NamespaceName q) \<and> \<not> blocking (view w) q)))"
  unfolding Let_def by (rule reconciler.deletion_run[OF assms])

theorem Reconcile_deletion_witness:
  "\<exists>w'. Reconcile mem_client mem_lib ''rl'' (ex_cluster1 ex_deleting) = (Done None, w') \<and>
     Rls (proper w') ''rl'' = None \<and> cleaned (proper w') ''default''"
proof -
  have h: "DeletionTimestamp (Meta ex_deleting) \<noteq> None"
    "DefaultFinalizer \<in> set (Finalizers (Meta ex_deleting))"
    by (simp_all add: ex_deleting_def)
  have f: "filter (\<lambda>g. g \<noteq> DefaultFinalizer) (Finalizers (Meta ex_deleting)) = []"
    "State (Status ex_deleting) \<noteq> Stopped" "Quotas (Spec ex_deleting) = [ex_quota]"
    by (simp_all add: ex_deleting_def ex_rl_def empty_rl_def go_defs)
  have "Nss (proper (ex_cluster1 ex_deleting)) (NamespaceName ex_quota) \<noteq> None" by code_simp
  with Reconcile_deletion[OF memr.reconciler_axioms ex_run_deleting Rls_ex(2)[OF rl_name_ex(2)] h] f
  have "Rls (proper (snd (Reconcile mem_client mem_lib ''rl'' (ex_cluster1 ex_deleting)))) ''rl'' = None"
    "cleaned (proper (snd (Reconcile mem_client mem_lib ''rl'' (ex_cluster1 ex_deleting)))) (NamespaceName ex_quota)"
    by simp_all
  then show ?thesis using ex_run_deleting by (auto simp: ex_quota_def)
qed

text \<open>C27: the deletion is not restartable. Take an object under deletion with our finalizer, whose status does not say
  \<open>stopped\<close>. If one listed namespace exists whose quota does not - it was
  never created, or a first attempt at the deletion got as far as deleting it, or it is one of the
  ignored namespaces - then no number of runs removes the finalizer, whatever the calls return:
  every run ends in an error or a panic and the object stays.\<close>

theorem Reconcile_deletion_stuck:
  assumes "reconciler C view L" and "Rls (view w) n = Some rl" and "DeletionTimestamp (Meta rl) \<noteq> None"
    and "DefaultFinalizer \<in> set (Finalizers (Meta rl))" and "State (Status rl) \<noteq> Stopped"
    and "q \<in> set (Quotas (Spec rl))" and "blocking (view w) q"
  shows "fst (Reconcile C L n (after_runs C L n k w)) \<noteq> Done None \<and>
    Rls (view (after_runs C L n k w)) n = Some rl"
proof -
  let ?u = "after_runs C L n k w"
  from reconciler.stuck_runs[OF assms] have u: "Rls (view ?u) n = Some rl" "blocking (view ?u) q" by blast+
  obtain out u' where "Reconcile C L n ?u = (out, u')" by (cases "Reconcile C L n ?u") blast
  with reconciler.stuck_run(1)[OF assms(1) this u(1) assms(3-6) u(2)] u(1) show ?thesis by simp
qed

theorem Reconcile_deletion_stuck_witness:
  "blocking (proper (ex_cluster ex_deleting)) ex_quota \<and>
   fst (Reconcile mem_client mem_lib ''rl'' (after_runs mem_client mem_lib ''rl'' 3 (ex_cluster ex_deleting)))
     \<noteq> Done None"
proof -
  have h: "DeletionTimestamp (Meta ex_deleting) \<noteq> None" "State (Status ex_deleting) \<noteq> Stopped"
    "DefaultFinalizer \<in> set (Finalizers (Meta ex_deleting))" "ex_quota \<in> set (Quotas (Spec ex_deleting))"
    by (simp_all add: ex_deleting_def ex_rl_def empty_rl_def go_defs)
  have b: "blocking (proper (ex_cluster ex_deleting)) ex_quota"
    by (simp add: blocking_def ex_cluster_def proper_def ex_quota_def ex_ns_def)
  from Reconcile_deletion_stuck[OF memr.reconciler_axioms Rls_ex(1)[OF rl_name_ex(2)] h(1,3,2,4) b, of 3] b
  show ?thesis by blast
qed

section \<open>The finalizer\<close>

text \<open>C28: when \<open>client.MergeFrom\<close> keeps the pointer it is given, the patch of \<open>Reconcile\<close> compares the
  object with itself: after any number of runs a live object has the metadata it had at the start,
  so the finalizer is never registered.\<close>

theorem Reconcile_never_registers:
  assumes "reconciler C view L" and "\<And>p x. MergeFrom L p x = BaseRef p"
    and "Rls (view w) n = Some rl" and "DeletionTimestamp (Meta rl) = None"
  shows "\<exists>rl'. Rls (view (after_runs C L n k w)) n = Some rl' \<and> Meta rl' = Meta rl"
  by (rule reconciler.unregistered_runs[OF assms])

theorem Reconcile_never_registers_witness:
  "\<exists>rl'. Rls (proper (after_runs mem_client mem_lib ''rl'' 2 (ex_cluster ex_rl))) ''rl'' = Some rl' \<and>
     DefaultFinalizer \<notin> set (Finalizers (Meta rl'))"
proof -
  have h: "DeletionTimestamp (Meta ex_rl) = None" "Finalizers (Meta ex_rl) = []"
    by (simp_all add: ex_rl_def empty_meta_def)
  have "\<And>p x. MergeFrom mem_lib p x = BaseRef p" by (simp add: mem_lib_def)
  from Reconcile_never_registers[OF memr.reconciler_axioms this Rls_ex(1)[OF rl_name_ex(1)] h(1), of 2] h(2)
  show ?thesis by auto
qed

text \<open>Were the patch made against a copy, as the comment in the code intends, every run on a live
  object that does not return an error would leave it with our finalizer.\<close>

theorem Reconcile_registers_with_copy:
  assumes "reconciler C view L" and "\<And>p x. MergeFrom L p x = BaseCopy x"
    and "Reconcile C L n w = (out, w')" and "\<And>e. out \<noteq> Done (Some e)"
    and "Rls (view w) n = Some rl" and "DeletionTimestamp (Meta rl) = None"
  shows "\<exists>rl'. Rls (view w') n = Some rl' \<and> DefaultFinalizer \<in> set (Finalizers (Meta rl'))"
  using reconciler.live_run_meta[OF assms(1,3,5,6)] assms(2,4) by blast

text \<open>The helper library with a \<open>MergeFrom\<close> that copies.\<close>

definition copy_lib :: "string lib" where
  "copy_lib = mem_lib\<lparr>MergeFrom := \<lambda>p rl. BaseCopy rl\<rparr>"

interpretation copyr: reconciler mem_client proper copy_lib
  by unfold_locales (auto simp: copy_lib_def mem_lib_def split: if_splits)

theorem Reconcile_registers_with_copy_witness:
  "\<exists>rl'. Rls (proper (snd (Reconcile mem_client copy_lib ''rl'' (ex_cluster ex_rl)))) ''rl'' = Some rl' \<and>
     DefaultFinalizer \<in> set (Finalizers (Meta rl'))"
proof -
  have h: "DeletionTimestamp (Meta ex_rl) = None" by (simp add: ex_rl_def empty_meta_def)
  have m: "\<And>p x. MergeFrom copy_lib p x = BaseCopy x" by (simp add: copy_lib_def)
  have "fst (Reconcile mem_client copy_lib ''rl'' (ex_cluster ex_rl)) = Done None" by code_simp
  then have o: "\<And>e. fst (Reconcile mem_client copy_lib ''rl'' (ex_cluster ex_rl)) \<noteq> Done (Some e)" by simp
  from Reconcile_registers_with_copy[OF copyr.reconciler_axioms m prod.collapse[symmetric] o
    Rls_ex(1)[OF rl_name_ex(1)] h] show ?thesis .
qed

end
