(* ===== verification/Controller_Progress.thy ===== *)
theory Controller_Progress
  imports Reconciler_Progress Controller_Safety
begin

text \<open>
  The progress properties of the controller, for every client on which no call fails without a
  reason (\<open>reliable_reconciler C abs L\<close>: the contracts of \<open>reliable_api\<close> and \<open>kube_lib\<close>). The
  code returns after each quota it creates; what makes it come back is the watch on the quotas it
  owns, whose create events pass the event filter. So progress is a property of repeated runs.
\<close>

interpretation memp: reliable_reconciler mem_client proper mem_lib ..

section \<open>The events that start a run\<close>

text \<open>The event filter drops an event only if it is an update that changes neither the generation nor the
  resource version; so the creation of an owned quota, after which \<open>reconcile\<close> has returned early,
  always starts another run.\<close>

lemma eventPredicate_drops:
  "eventPredicate e \<longleftrightarrow> (\<forall>old new. e = UpdateEvent old new \<longrightarrow>
     (Generation old, ResourceVersion old) \<noteq> (Generation new, ResourceVersion new))"
  by (cases e) auto

section \<open>Repeated runs converge\<close>

text \<open>C3: if no call fails without a reason, and the namespaces a live, applied object lists exist and ask for quantities that
  parse, then after more runs than there are missing quotas the status is \<open>ready\<close> and every listed namespace that
  is not ignored carries both labels and the quota its last entry asks for - and it stays so.\<close>

theorem Reconcile_converges:
  assumes "reliable_reconciler C view L" and "runnable L n sp (view w)" and "Applied sp"
    and "missing sp (view w) < k"
  shows "ready L n sp (view (after_runs C L n k w))"
  using reliable_reconciler.progress_runs[OF assms(1-3), of k] assms(4) by auto

theorem Reconcile_converges_witness:
  "missing (Spec ex_rl) (proper (ex_cluster ex_rl)) < 2 \<and>
   ready mem_lib ''rl'' (Spec ex_rl) (proper (after_runs mem_client mem_lib ''rl'' 2 (ex_cluster ex_rl)))"
proof -
  have q: "live_quotas (Quotas (Spec ex_rl)) = [ex_quota]"
    by (simp add: ex_rl_def ex_quota_def ignored_def go_defs)
  have r: "runnable mem_lib ''rl'' (Spec ex_rl) (proper (ex_cluster ex_rl))"
    unfolding runnable_def q using Rls_ex(1)[OF rl_name_ex(1)]
    by (auto simp: ex_cluster_def proper_def ex_ns_def ex_quota_def parses_def mem_lib_def
      ex_rl_def empty_meta_def)
  have "card {ns \<in> NamespaceName ` set [ex_quota]. Rqs (proper (ex_cluster ex_rl)) (quota_key ns) = None}
      \<le> card (NamespaceName ` set [ex_quota])" by (rule card_mono) auto
  then have m: "missing (Spec ex_rl) (proper (ex_cluster ex_rl)) < 2" unfolding missing_def q by simp
  have "Applied (Spec ex_rl)" by (simp add: ex_rl_def)
  from Reconcile_converges[OF memp.reliable_reconciler_axioms r this m] m show ?thesis by blast
qed

text \<open>C32: a quantity that does not parse is a panic of the controller. The object is live and applied, and no call fails without
  a reason: when the entries before it have their namespaces and quotas and parse, and its own namespace exists and is not
  ignored, every run on the object ends in the panic of \<open>MustParse\<close>.\<close>

theorem Reconcile_panics:
  assumes "reliable_reconciler C view L" and "Rls (view w) n = Some rl"
    and "DeletionTimestamp (Meta rl) = None" and "Applied (Spec rl)"
    and "Quotas (Spec rl) = pre @ q # post" and "\<not> ignored (NamespaceName q)"
    and "Nss (view w) (NamespaceName q) \<noteq> None" and "\<not> parses L q"
    and "\<And>p. p \<in> set (live_quotas pre) \<Longrightarrow> Nss (view w) (NamespaceName p) \<noteq> None \<and>
      Rqs (view w) (quota_key (NamespaceName p)) \<noteq> None \<and> parses L p"
  shows "\<exists>m. fst (Reconcile C L n w) = Panicked m"
  by (rule reliable_reconciler.panic_run[OF assms])

definition ex_unparsable :: ResourceLimiter where
  "ex_unparsable = ex_rl\<lparr>Spec := \<lparr>Quotas = [ex_quota\<lparr>MemLimit := ''''\<rparr>], Applied = True\<rparr>\<rparr>"

theorem Reconcile_panics_witness:
  "\<exists>m. fst (Reconcile mem_client mem_lib ''rl'' (ex_cluster ex_unparsable)) = Panicked m"
proof -
  let ?q = "ex_quota\<lparr>MemLimit := ''''\<rparr>"
  have s: "Rls (proper (ex_cluster ex_unparsable)) ''rl'' = Some ex_unparsable"
    by (rule Rls_ex) (simp add: ex_unparsable_def ex_rl_def)
  have h: "DeletionTimestamp (Meta ex_unparsable) = None" "Applied (Spec ex_unparsable)"
    "Quotas (Spec ex_unparsable) = [] @ ?q # []" "\<not> ignored (NamespaceName ?q)"
    by (simp_all add: ex_unparsable_def ex_rl_def empty_meta_def ex_quota_def ignored_def go_defs)
  have n: "Nss (proper (ex_cluster ex_unparsable)) (NamespaceName ?q) \<noteq> None" by code_simp
  have p: "\<not> parses mem_lib ?q" by (simp add: parses_def mem_lib_def)
  show ?thesis
    by (rule Reconcile_panics[OF memp.reliable_reconciler_axioms s h n p]) simp_all
qed

section \<open>Deletions that go through\<close>

text \<open>C15: if no call fails without a reason, no namespace is listed twice and every listed namespace that
  exists still has its quota, then a single run takes the object under deletion all the way: it
  returns no error, and our finalizer is off (the object gone, if ours was the last).\<close>

theorem Reconcile_deletion_completes:
  assumes "reliable_reconciler C view L" and "Rls (view w) n = Some rl"
    and "DeletionTimestamp (Meta rl) \<noteq> None" and "DefaultFinalizer \<in> set (Finalizers (Meta rl))"
    and "distinct (map NamespaceName (Quotas (Spec rl)))"
    and "\<And>q. q \<in> set (Quotas (Spec rl)) \<Longrightarrow> \<not> blocking (view w) q"
  shows "fst (Reconcile C L n w) = Done None \<and>
    (\<forall>rl'. Rls (view (snd (Reconcile C L n w))) n = Some rl' \<longrightarrow>
       DefaultFinalizer \<notin> set (Finalizers (Meta rl')))"
proof
  show d: "fst (Reconcile C L n w) = Done None"
    by (rule reliable_reconciler.deletion_total[OF assms])
  have "reconciler C view L" by (rule reliable_reconciler.axioms(1)[OF assms(1)])
  from reconciler.deletion_run[OF this prod.collapse[symmetric] assms(2-4)] d
  show "\<forall>rl'. Rls (view (snd (Reconcile C L n w))) n = Some rl' \<longrightarrow>
      DefaultFinalizer \<notin> set (Finalizers (Meta rl'))" by (auto split: if_splits)
qed

theorem Reconcile_deletion_completes_witness:
  "fst (Reconcile mem_client mem_lib ''rl'' (ex_cluster1 ex_deleting)) = Done None"
proof -
  have h: "DeletionTimestamp (Meta ex_deleting) \<noteq> None"
    "DefaultFinalizer \<in> set (Finalizers (Meta ex_deleting))"
    "distinct (map NamespaceName (Quotas (Spec ex_deleting)))"
    by (simp_all add: ex_deleting_def)
  have "Rqs (proper (ex_cluster1 ex_deleting)) (quota_key (NamespaceName ex_quota)) \<noteq> None" by code_simp
  then have b: "\<not> blocking (proper (ex_cluster1 ex_deleting)) q"
    if "q \<in> set (Quotas (Spec ex_deleting))" for q
    using that by (simp add: blocking_def ex_deleting_def)
  from Reconcile_deletion_completes[OF memp.reliable_reconciler_axioms Rls_ex(2)[OF rl_name_ex(2)] h b]
  show ?thesis by blast
qed

end
