(* ===== verification/Validate.thy ===== *)
theory Validate
  imports Admission
begin

text \<open>
  The validating webhook of \<open>pkg/cmd/webhook.go\<close>: \<open>validate\<close>, \<open>recordR\<close> and the handler
  \<open>ServeValidate\<close>. \<open>MustParse\<close> panics on a quantity that does not parse; \<open>validate\<close> recovers, leaves
  its result nil and puts the error into the package variable \<open>resFormErr\<close>, which the handler reads.
  That variable is the state of this component; here it is passed along, and the theory
  \<open>Validate_Race\<close> is about handlers that share it.

  A piece of the body ends in a panic (\<open>Inl\<close>), returns a response (\<open>Inr (Some r)\<close>) or goes on
  (\<open>Inr None\<close>).
\<close>

type_synonym verdict = "string + AdmissionResponse option"

section \<open>Resource limiters\<close>

fun check_targets :: "string list \<Rightarrow> AdmissionResponse option" where
  "check_targets [] = None"
| "check_targets (ns # nss) =
     (if ns = IgnoreKubeSystem \<or> ns = IgnoreKubePublic
      then Some (denied ''should avoid limit on the preset namespace'') else check_targets nss)"

fun check_types :: "'q lib \<Rightarrow> (string, string) gomap \<Rightarrow> verdict" where
  "check_types L [] = Inr None"
| "check_types L ((t, v) # ts) = (case MustParse L v of Inl m \<Rightarrow> Inl m | Inr _ \<Rightarrow> check_types L ts)"

definition validate_v1beta1 :: "'q wire \<Rightarrow> 'q lib \<Rightarrow> json option \<Rightarrow> verdict" where
  "validate_v1beta1 D L raw =
     (case unmarshal_rl1 D raw of
        Inl err \<Rightarrow> Inr (Some (denied err))
      | Inr rl \<Rightarrow>
          (case check_targets (Targets (Spec1 rl)) of
             Some r \<Rightarrow> Inr (Some r)
           | None \<Rightarrow> check_types L (Types (Spec1 rl))))"

fun check_quotas :: "'q lib \<Rightarrow> ResourceLimiterQuota list \<Rightarrow> verdict" where
  "check_quotas L [] = Inr None"
| "check_quotas L (quota # quotas) =
     (if NamespaceName quota = IgnoreKubeSystem \<or> NamespaceName quota = IgnoreKubePublic
      then Inr (Some (denied ''should avoid limit on the preset namespace''))
      else case MustParse L (CpuLimit quota) of Inl m \<Rightarrow> Inl m | Inr _ \<Rightarrow>
           (case MustParse L (CpuRequest quota) of Inl m \<Rightarrow> Inl m | Inr _ \<Rightarrow>
           (case MustParse L (MemLimit quota) of Inl m \<Rightarrow> Inl m | Inr _ \<Rightarrow>
           (case MustParse L (MemRequest quota) of Inl m \<Rightarrow> Inl m | Inr _ \<Rightarrow>
              check_quotas L quotas))))"

definition validate_v1beta2 :: "'q wire \<Rightarrow> 'q lib \<Rightarrow> json option \<Rightarrow> verdict" where
  "validate_v1beta2 D L raw =
     (case unmarshal_rl D raw of
        Inl err \<Rightarrow> Inr (Some (denied err))
      | Inr rl \<Rightarrow> check_quotas L (Quotas (Spec rl)))"

section \<open>Workloads\<close>

definition check_resources :: "'q wire \<Rightarrow> 'q lib \<Rightarrow> (string, 'q) gomap option \<Rightarrow> string + unit" where
  "check_resources D L resources =
     (case resources of
        None \<Rightarrow> Inr ()
      | Some m \<Rightarrow>
          (case MustParse L (QuantityString L (cpu_of D m)) of Inl e \<Rightarrow> Inl e | Inr _ \<Rightarrow>
          (case MustParse L (QuantityString L (memory_of D m)) of Inl e \<Rightarrow> Inl e | Inr _ \<Rightarrow> Inr ())))"

definition unset :: "(string, 'q) gomap option \<Rightarrow> bool" where
  "unset resources \<longleftrightarrow> resources = None \<or> length (the resources) = 0"

fun check_containers :: "'q wire \<Rightarrow> 'q lib \<Rightarrow> string \<Rightarrow> 'q Container list \<Rightarrow> verdict" where
  "check_containers D L message [] = Inr None"
| "check_containers D L message (cont # conts) =
     (if unset (Limits cont) \<or> unset (Requests cont) then Inr (Some (denied message))
      else case check_resources D L (Limits cont) of Inl m \<Rightarrow> Inl m | Inr _ \<Rightarrow>
           (case check_resources D L (Requests cont) of Inl m \<Rightarrow> Inl m | Inr _ \<Rightarrow>
              check_containers D L message conts))"

definition validate_pod :: "'q wire \<Rightarrow> 'q lib \<Rightarrow> json option \<Rightarrow> verdict" where
  "validate_pod D L raw =
     (case unmarshal_pod D raw of
        Inl err \<Rightarrow> Inr (Some (denied err))
      | Inr pod \<Rightarrow> check_containers D L (''failed to validate pod '' @ WorkloadName pod
          @ '' not set any resources limits or requests'') (Containers pod))"

definition validate_deployment :: "'q wire \<Rightarrow> 'q lib \<Rightarrow> json option \<Rightarrow> verdict" where
  "validate_deployment D L raw =
     (case unmarshal_deployment D raw of
        Inl err \<Rightarrow> Inr (Some (denied err))
      | Inr deployment \<Rightarrow> check_containers D L (''failed to validate deployment '' @ WorkloadName deployment
          @ '' not set any resources limits or requests'') (Containers deployment))"

definition validate_daemonset :: "'q wire \<Rightarrow> 'q lib \<Rightarrow> json option \<Rightarrow> verdict" where
  "validate_daemonset D L raw =
     (case unmarshal_daemonset D raw of
        Inl err \<Rightarrow> Inr (Some (denied err))
      | Inr daemonset \<Rightarrow> check_containers D L (''failed to validate daemonset '' @ WorkloadName daemonset
          @ '' not set any resources limits or requests'') (Containers daemonset))"

section \<open>validate\<close>

definition validate_switch :: "'q wire \<Rightarrow> 'q lib \<Rightarrow> AdmissionRequest \<Rightarrow> verdict" where
  "validate_switch D L req =
     (if Kind req = ''ResourceLimiter'' then
        (if Version req = ''v1beta1'' then validate_v1beta1 D L (ObjectRaw req)
         else if Version req = ''v1beta2'' then validate_v1beta2 D L (ObjectRaw req)
         else Inr None)
      else if Kind req = ''Pod'' then validate_pod D L (ObjectRaw req)
      else if Kind req = ''Deployment'' then validate_deployment D L (ObjectRaw req)
      else if Kind req = ''Daemonset'' then validate_daemonset D L (ObjectRaw req)
      else Inr None)"

definition allowed :: "string \<Rightarrow> AdmissionResponse" where
  "allowed m = empty_response\<lparr>Allowed := True, Message := Some m\<rparr>"

definition recordR :: "string \<Rightarrow> string option" where
  "recordR err = Some (''MustParse failed due to '' @ err)"

text \<open>The body up to its return, or the panic that ends it; and the whole function: its result (nil after
  a panic) and \<open>resFormErr\<close>, which is reset first.\<close>

definition validate_body :: "'q wire \<Rightarrow> 'q lib \<Rightarrow> AdmissionReview \<Rightarrow> string + AdmissionResponse" where
  "validate_body D L ar =
     (case Request ar of
        None \<Rightarrow> Inl nil_deref
      | Some req \<Rightarrow>
          (case validate_switch D L req of
             Inl m \<Rightarrow> Inl m
           | Inr (Some r) \<Rightarrow> Inr r
           | Inr None \<Rightarrow> Inr (allowed (''Validate '' @ ReqName req @ '' of '' @ Kind req @ '' OK''))))"

definition validate ::
  "'q wire \<Rightarrow> 'q lib \<Rightarrow> AdmissionReview \<Rightarrow> string option \<Rightarrow> AdmissionResponse option \<times> string option" where
  "validate D L ar resFormErr =
     (let resFormErr = None
      in case validate_body D L ar of
           Inl m \<Rightarrow> (None, recordR m)
         | Inr r \<Rightarrow> (Some r, resFormErr))"

section \<open>The handler\<close>

text \<open>Lines 624 to 632.\<close>

definition override :: "string option \<Rightarrow> AdmissionResponse option \<Rightarrow> AdmissionResponse option" where
  "override resFormErr admissionResponse =
     (case resFormErr of Some e \<Rightarrow> Some (denied e) | None \<Rightarrow> admissionResponse)"

definition ServeValidate ::
  "'q wire \<Rightarrow> 'q lib \<Rightarrow> http_request \<Rightarrow> string option \<Rightarrow> handled \<times> string option" where
  "ServeValidate D L r resFormErr =
     (let w = empty_writer; body = read_body r
      in if length body = 0 then (Served (http_Error ''empty body'' 400 w), resFormErr)
         else if ContentType r \<noteq> ''application/json''
         then (Served (http_Error ''invalid Content-Type, expect `application/json`'' 415 w), resFormErr)
         else let (err, ar) = decode_review D body;
                  (admissionResponse, resFormErr) =
                    (case err of Some e \<Rightarrow> (Some (denied e), resFormErr)
                     | None \<Rightarrow> validate D L ar resFormErr)
              in (Served (send_answer D ar (override resFormErr admissionResponse) w), resFormErr))"

end
