(* ===== verification/Validate_Props.thy ===== *)
theory Validate_Props
  imports Validate Mutate_Props Reconciler_Spec
begin

text \<open>
  The decisions of the validating webhook against what an acceptable object is (\<open>acceptable\<close>), for
  every helper library that prints quantities so that they parse (\<open>quantity_lib\<close>). The three
  workload branches keep one contract (\<open>workload_branch\<close>).
\<close>

section \<open>What is acceptable\<close>

definition limited :: "'q Workload \<Rightarrow> bool" where
  "limited wl \<longleftrightarrow> (\<forall>cont \<in> set (Containers wl). \<not> unset (Limits cont) \<and> \<not> unset (Requests cont))"

definition acceptable1 :: "'q lib \<Rightarrow> ResourceLimiterSpec1 \<Rightarrow> bool" where
  "acceptable1 L sp \<longleftrightarrow> (\<forall>ns \<in> set (Targets sp). \<not> ignored ns) \<and>
     (\<forall>v \<in> snd ` set (Types sp). \<exists>q. MustParse L v = Inr q)"

definition acceptable2 :: "'q lib \<Rightarrow> ResourceLimiterSpec \<Rightarrow> bool" where
  "acceptable2 L sp \<longleftrightarrow> (\<forall>q \<in> set (Quotas sp). \<not> ignored (NamespaceName q) \<and> parses L q)"

definition acceptable :: "'q wire \<Rightarrow> 'q lib \<Rightarrow> AdmissionRequest \<Rightarrow> bool" where
  "acceptable D L req \<longleftrightarrow>
     (if Kind req = ''ResourceLimiter'' \<and> Version req = ''v1beta1''
      then \<exists>rl. unmarshal_rl1 D (ObjectRaw req) = Inr rl \<and> acceptable1 L (Spec1 rl)
      else if Kind req = ''ResourceLimiter'' \<and> Version req = ''v1beta2''
      then \<exists>rl. unmarshal_rl D (ObjectRaw req) = Inr rl \<and> acceptable2 L (Spec rl)
      else if Kind req = ''Pod'' then \<exists>wl. unmarshal_pod D (ObjectRaw req) = Inr wl \<and> limited wl
      else if Kind req = ''Deployment'' then \<exists>wl. unmarshal_deployment D (ObjectRaw req) = Inr wl \<and> limited wl
      else if Kind req = ''Daemonset'' then \<exists>wl. unmarshal_daemonset D (ObjectRaw req) = Inr wl \<and> limited wl
      else True)"

text \<open>A verdict that lets the request pass, and one that does not and is not a bug.\<close>

abbreviation passes :: "verdict \<Rightarrow> bool" where
  "passes v \<equiv> v = Inr None"

definition sound :: "verdict \<Rightarrow> bool" where
  "sound v \<longleftrightarrow> (\<forall>r. v = Inr (Some r) \<longrightarrow> \<not> Allowed r)"

section \<open>The pieces\<close>

lemma check_targets_passes: "check_targets nss = None \<longleftrightarrow> (\<forall>ns \<in> set nss. \<not> ignored ns)"
  by (induction nss) (auto simp: ignored_def)

lemma check_targets_denies: "check_targets nss = Some r \<Longrightarrow> \<not> Allowed r"
  by (induction nss) (auto split: if_splits)

lemma check_types_passes: "passes (check_types L ts) \<longleftrightarrow> (\<forall>v \<in> snd ` set ts. \<exists>q. MustParse L v = Inr q)"
  by (induction ts) (auto split: sum.splits)

lemma check_types_no_reply: "check_types L ts \<noteq> Inr (Some r)"
  by (induction ts) (auto split: sum.splits)

lemma check_quotas_passes:
  "passes (check_quotas L qs) \<longleftrightarrow> (\<forall>q \<in> set qs. \<not> ignored (NamespaceName q) \<and> parses L q)"
proof (induction qs)
  case Nil
  then show ?case by simp
next
  case (Cons q qs)
  then show ?case by (auto simp: ignored_def parses_def split: sum.splits)
qed

lemma check_quotas_sound: "sound (check_quotas L qs)"
  by (induction qs) (auto simp: sound_def split: if_splits sum.splits)

lemma validate_v1beta1_decides:
  "passes (validate_v1beta1 D L raw) \<longleftrightarrow> (\<exists>rl. unmarshal_rl1 D raw = Inr rl \<and> acceptable1 L (Spec1 rl))"
  "sound (validate_v1beta1 D L raw)"
proof -
  show "passes (validate_v1beta1 D L raw) \<longleftrightarrow> (\<exists>rl. unmarshal_rl1 D raw = Inr rl \<and> acceptable1 L (Spec1 rl))"
  proof (cases "unmarshal_rl1 D raw")
    case (Inr rl)
    then show ?thesis
      using check_targets_passes[of "Targets (Spec1 rl)"] check_types_passes[of L "Types (Spec1 rl)"]
      by (cases "check_targets (Targets (Spec1 rl))") (auto simp: validate_v1beta1_def acceptable1_def)
  qed (simp add: validate_v1beta1_def)
  show "sound (validate_v1beta1 D L raw)"
    using check_types_no_reply check_targets_denies
    by (fastforce simp: validate_v1beta1_def sound_def split: sum.splits option.splits)
qed

lemma validate_v1beta2_decides:
  "passes (validate_v1beta2 D L raw) \<longleftrightarrow> (\<exists>rl. unmarshal_rl D raw = Inr rl \<and> acceptable2 L (Spec rl))"
  "sound (validate_v1beta2 D L raw)"
  using check_quotas_passes[of L] check_quotas_sound[of L]
  by (auto simp: validate_v1beta2_def acceptable2_def sound_def split: sum.splits)

section \<open>The contract of the workload branches\<close>

locale workload_branch = quantity_lib L for L :: "'q lib" +
  fixes D :: "'q wire" and branch :: "json option \<Rightarrow> verdict"
    and unmarshal :: "json option \<Rightarrow> string + 'q Workload" and message :: "'q Workload \<Rightarrow> string"
  assumes branch_eq: "branch raw = (case unmarshal raw of Inl err \<Rightarrow> Inr (Some (denied err))
    | Inr wl \<Rightarrow> check_containers D L (message wl) (Containers wl))"
begin

lemma check_resources_ok: "check_resources D L res = Inr ()"
  using printed_parses by (auto simp: check_resources_def split: option.splits sum.splits)

lemma check_containers_eq:
  "check_containers D L m conts =
     (if \<forall>cont \<in> set conts. \<not> unset (Limits cont) \<and> \<not> unset (Requests cont) then Inr None
      else Inr (Some (denied m)))"
  by (induction conts) (auto simp: check_resources_ok)

lemma branch_passes: "passes (branch raw) \<longleftrightarrow> (\<exists>wl. unmarshal raw = Inr wl \<and> limited wl)"
  by (auto simp: branch_eq check_containers_eq limited_def split: sum.splits)

lemma branch_sound: "sound (branch raw)"
  by (auto simp: branch_eq check_containers_eq sound_def split: sum.splits)

end

sublocale quantity_lib \<subseteq> pod: workload_branch L D "validate_pod D L" "unmarshal_pod D"
    "\<lambda>wl. ''failed to validate pod '' @ WorkloadName wl @ '' not set any resources limits or requests''"
  for D
  by unfold_locales (simp add: validate_pod_def)

sublocale quantity_lib \<subseteq> deployment: workload_branch L D "validate_deployment D L" "unmarshal_deployment D"
    "\<lambda>wl. ''failed to validate deployment '' @ WorkloadName wl @ '' not set any resources limits or requests''"
  for D
  by unfold_locales (simp add: validate_deployment_def)

sublocale quantity_lib \<subseteq> daemonset: workload_branch L D "validate_daemonset D L" "unmarshal_daemonset D"
    "\<lambda>wl. ''failed to validate daemonset '' @ WorkloadName wl @ '' not set any resources limits or requests''"
  for D
  by unfold_locales (simp add: validate_daemonset_def)

context quantity_lib
begin

lemma switch_passes: "passes (validate_switch D L req) \<longleftrightarrow> acceptable D L req"
  by (simp add: validate_switch_def acceptable_def validate_v1beta1_decides validate_v1beta2_decides
    pod.branch_passes deployment.branch_passes daemonset.branch_passes)

lemma switch_sound: "sound (validate_switch D L req)"
proof -
  have "sound (Inr None)" by (simp add: sound_def)
  then show ?thesis
    by (simp add: validate_switch_def validate_v1beta1_decides validate_v1beta2_decides
      pod.branch_sound deployment.branch_sound daemonset.branch_sound)
qed

text \<open>The body ends in a panic only for a request that is not acceptable, and its verdict is right.\<close>

lemma body_decides:
  "validate_body D L ar = Inr r \<Longrightarrow> Allowed r \<longleftrightarrow> (\<exists>req. Request ar = Some req \<and> acceptable D L req)"
  "validate_body D L ar = Inl m \<Longrightarrow> \<not> (\<exists>req. Request ar = Some req \<and> acceptable D L req)"
proof -
  show "Allowed r \<longleftrightarrow> (\<exists>req. Request ar = Some req \<and> acceptable D L req)" if "validate_body D L ar = Inr r"
  proof (cases "Request ar")
    case (Some req)
    with that switch_passes[of D req] switch_sound[of D req] show ?thesis
      by (auto simp: validate_body_def sound_def allowed_def split: sum.splits option.splits)
  qed (use that in \<open>simp add: validate_body_def\<close>)
  show "\<not> (\<exists>req. Request ar = Some req \<and> acceptable D L req)" if "validate_body D L ar = Inl m"
    using that by (auto simp: validate_body_def switch_passes[symmetric] split: sum.splits option.splits)
qed

lemma override_validate:
  obtains r where "override (snd (validate D L ar st)) (fst (validate D L ar st)) = Some r"
    "Allowed r \<longleftrightarrow> (\<exists>req. Request ar = Some req \<and> acceptable D L req)"
proof (cases "validate_body D L ar")
  case (Inl m)
  with body_decides(2)[OF Inl] show thesis
    by (intro that[of "denied (''MustParse failed due to '' @ m)"])
      (simp_all add: validate_def override_def recordR_def)
next
  case (Inr r)
  with body_decides(1)[OF Inr] show thesis
    by (intro that[of r]) (simp_all add: validate_def override_def)
qed

end

section \<open>The handler\<close>

text \<open>C16: the validating webhook answers every review it can decode with a verdict, whatever an earlier
  request has left in \<open>resFormErr\<close>, and the verdict is right: the request is allowed exactly when it
  is acceptable - a resource limiter that names no preset namespace and whose quantities all
  parse, a workload all of whose containers set limits and requests, or anything of another kind.\<close>

theorem ServeValidate_decides:
  assumes "quantity_lib L" and "read_body r \<noteq> ''''" and "ContentType r = ''application/json''"
    and "decode_review D (read_body r) = (None, ar)"
  shows "\<exists>resp. fst (ServeValidate D L r st) = Served (send_answer D ar (Some resp) empty_writer) \<and>
    (Allowed resp \<longleftrightarrow> (\<exists>req. Request ar = Some req \<and> acceptable D L req))"
proof -
  obtain resp where resp: "override (snd (validate D L ar st)) (fst (validate D L ar st)) = Some resp"
    "Allowed resp \<longleftrightarrow> (\<exists>req. Request ar = Some req \<and> acceptable D L req)"
    by (rule quantity_lib.override_validate[OF assms(1)])
  have "fst (ServeValidate D L r st) = Served (send_answer D ar (Some resp) empty_writer)"
    using assms(2-4) resp(1) by (simp add: ServeValidate_def case_prod_beta)
  with resp(2) show ?thesis by blast
qed

definition review_wire :: "AdmissionReview \<Rightarrow> string wire" where
  "review_wire ar = mem_wire\<lparr>decode_review := \<lambda>_. (None, ar)\<rparr>"

definition post :: http_request where
  "post = \<lparr>ReqBody = Some (Inr ''review''), ContentType = ''application/json''\<rparr>"

theorem ServeValidate_decides_witness:
  "\<exists>resp. fst (ServeValidate (review_wire (review ''ResourceLimiter'' ''v1beta2'' (Some (JObj ex_ms)))) mem_lib
       post (Some ''an earlier error'')) =
     Served (send_answer (review_wire (review ''ResourceLimiter'' ''v1beta2'' (Some (JObj ex_ms))))
       (review ''ResourceLimiter'' ''v1beta2'' (Some (JObj ex_ms))) (Some resp) empty_writer) \<and> \<not> Allowed resp"
proof -
  let ?ar = "review ''ResourceLimiter'' ''v1beta2'' (Some (JObj ex_ms))" and ?D = "review_wire
    (review ''ResourceLimiter'' ''v1beta2'' (Some (JObj ex_ms)))"
  have p: "read_body post \<noteq> ''''" "ContentType post = ''application/json''"
    "decode_review ?D (read_body post) = (None, ?ar)"
    by (simp_all add: post_def read_body_def review_wire_def)
  have "decode_meta ?D = mem_meta" by (simp add: review_wire_def)
  then have u: "unmarshal_rl ?D (Some (JObj ex_ms)) = Inr ex_obj"
    using shaped_ex_ms by (simp add: unmarshal_rl_def shaped_def)
  have "\<not> parses mem_lib (empty_quota\<lparr>NamespaceName := ''team''\<rparr>)"
    by (simp add: parses_def mem_lib_def empty_quota_def)
  then have "\<not> acceptable2 mem_lib (Spec ex_obj)" by (simp add: acceptable2_def ex_obj_def)
  with u have "\<not> acceptable ?D mem_lib (the (Request ?ar))" by (simp add: acceptable_def review_def)
  with ServeValidate_decides[OF memq.quantity_lib_axioms p, of "Some ''an earlier error''"]
  show ?thesis by auto
qed

text \<open>Daemon sets are not validated: the kind of a request for one is \<open>DaemonSet\<close>, the code compares
  with \<open>Daemonset\<close>, so the request is allowed whatever the object is - it is not even decoded.\<close>

theorem validate_DaemonSet:
  assumes "Request ar = Some req" and "Kind req = ''DaemonSet''"
  shows "\<exists>resp. validate D L ar st = (Some resp, None) \<and> Allowed resp"
  using assms by (simp add: validate_def validate_body_def validate_switch_def allowed_def)

theorem validate_DaemonSet_witness:
  "\<exists>resp. validate mem_wire mem_lib (review ''DaemonSet'' ''v1'' None) None = (Some resp, None) \<and> Allowed resp \<and>
     (\<exists>wl. unmarshal_daemonset mem_wire None = Inr wl \<and> \<not> limited wl)"
proof -
  have h: "Request (review ''DaemonSet'' ''v1'' None) = Some (the (Request (review ''DaemonSet'' ''v1'' None)))"
    "Kind (the (Request (review ''DaemonSet'' ''v1'' None))) = ''DaemonSet''" by (simp_all add: review_def)
  have "\<exists>wl. unmarshal_daemonset mem_wire None = Inr wl \<and> \<not> limited wl"
    by (simp add: mem_wire_def limited_def unset_def)
  with validate_DaemonSet[OF h] show ?thesis by blast
qed

text \<open>A panic leaves the mutating handler on exactly one kind of input, a review without a request; the
  connection is dropped. The validating handler recovers from that one as well and always answers,
  and what it answers to a review it cannot decode is never an approval.\<close>

theorem handlers_panic:
  "(ServeMutate D r = Aborted m \<longleftrightarrow> m = nil_deref \<and> read_body r \<noteq> '''' \<and>
      ContentType r = ''application/json'' \<and>
      (\<exists>ar. decode_review D (read_body r) = (None, ar) \<and> Request ar = None)) \<and>
   fst (ServeValidate D L r st) \<noteq> Aborted m \<and>
   (\<forall>err ar. read_body r \<noteq> '''' \<longrightarrow> ContentType r = ''application/json'' \<longrightarrow>
      decode_review D (read_body r) = (Some err, ar) \<longrightarrow>
      (\<exists>resp. fst (ServeValidate D L r st) = Served (send_answer D ar (Some resp) empty_writer) \<and>
         \<not> Allowed resp))"
proof (intro conjI)
  obtain e ar where d: "decode_review D (read_body r) = (e, ar)" by (cases "decode_review D (read_body r)")
  show "ServeMutate D r = Aborted m \<longleftrightarrow> m = nil_deref \<and> read_body r \<noteq> '''' \<and>
      ContentType r = ''application/json'' \<and>
      (\<exists>ar. decode_review D (read_body r) = (None, ar) \<and> Request ar = None)"
    using d by (auto simp: ServeMutate_def mutate_def Let_def split: option.splits)
  show "fst (ServeValidate D L r st) \<noteq> Aborted m"
    by (simp add: ServeValidate_def Let_def case_prod_beta)
  show "\<forall>err ar. read_body r \<noteq> '''' \<longrightarrow> ContentType r = ''application/json'' \<longrightarrow>
      decode_review D (read_body r) = (Some err, ar) \<longrightarrow>
      (\<exists>resp. fst (ServeValidate D L r st) = Served (send_answer D ar (Some resp) empty_writer) \<and>
         \<not> Allowed resp)"
    by (auto simp: ServeValidate_def override_def split: option.split)
qed

theorem handlers_panic_witness:
  "ServeMutate (review_wire (review ''Pod'' ''v1'' None\<lparr>Request := None\<rparr>)) post = Aborted nil_deref"
  unfolding handlers_panic[of _ _ _ mem_lib None, THEN conjunct1]
  by (simp add: post_def read_body_def review_wire_def)

end
