(* ===== verification/Validate_Race.thy ===== *)
theory Validate_Race
  imports Validate_Props
begin

text \<open>
  The validating handler under concurrency. The HTTP server runs every request in a goroutine of its
  own, and all of them share the package variable \<open>resFormErr\<close> without a lock. A state holds that
  variable and the place each handler has got to; a step is one access to the variable (reset,
  recover, check, read of the message), or the local work between two of them. Handlers are
  numbered, there may be any number of them, and reads and writes are atomic.
\<close>

section \<open>The step relation\<close>

datatype place =
    Waiting
  | Running
  | Returned "AdmissionResponse option"
  | Reading
  | Answered "AdmissionResponse option"
  | Crashed

record race =
  resFormErr :: "string option"
  At :: "nat \<Rightarrow> place"

definition move :: "nat \<Rightarrow> place \<Rightarrow> race \<Rightarrow> race" where
  "move i p s = s\<lparr>At := (At s)(i := p)\<rparr>"

inductive race_step :: "'q wire \<Rightarrow> 'q lib \<Rightarrow> (nat \<Rightarrow> AdmissionReview) \<Rightarrow> nat \<Rightarrow> race \<Rightarrow> race \<Rightarrow> bool"
  for D L ars i where
  reset: "At s i = Waiting \<Longrightarrow> race_step D L ars i s (move i Running s\<lparr>resFormErr := None\<rparr>)"
| returns: "At s i = Running \<Longrightarrow> validate_body D L (ars i) = Inr r \<Longrightarrow>
    race_step D L ars i s (move i (Returned (Some r)) s)"
| recovers: "At s i = Running \<Longrightarrow> validate_body D L (ars i) = Inl m \<Longrightarrow>
    race_step D L ars i s (move i (Returned None) s\<lparr>resFormErr := recordR m\<rparr>)"
| check_nil: "At s i = Returned resp \<Longrightarrow> resFormErr s = None \<Longrightarrow>
    race_step D L ars i s (move i (Answered resp) s)"
| check_set: "At s i = Returned resp \<Longrightarrow> resFormErr s = Some e \<Longrightarrow>
    race_step D L ars i s (move i Reading s)"
| read_message: "At s i = Reading \<Longrightarrow> resFormErr s = Some e \<Longrightarrow>
    race_step D L ars i s (move i (Answered (Some (denied e))) s)"
| read_nil: "At s i = Reading \<Longrightarrow> resFormErr s = None \<Longrightarrow> race_step D L ars i s (move i Crashed s)"

inductive reachable :: "'q wire \<Rightarrow> 'q lib \<Rightarrow> (nat \<Rightarrow> AdmissionReview) \<Rightarrow> race \<Rightarrow> bool" for D L ars where
  start: "(\<And>i. At s i = Waiting) \<Longrightarrow> reachable D L ars s"
| step: "reachable D L ars s \<Longrightarrow> race_step D L ars i s s' \<Longrightarrow> reachable D L ars s'"

inductive_cases race_stepE: "race_step D L ars i s s'"

lemma move_sel [simp]: "At (move i p s) = (At s)(i := p)" "resFormErr (move i p s) = resFormErr s"
  by (simp_all add: move_def)

section \<open>Safety\<close>

text \<open>What the place of a handler says of its own request.\<close>

fun place_ok :: "string + AdmissionResponse \<Rightarrow> place \<Rightarrow> bool" where
  "place_ok v (Returned (Some r)) \<longleftrightarrow> v = Inr r"
| "place_ok v (Returned None) \<longleftrightarrow> (\<exists>m. v = Inl m)"
| "place_ok v (Answered (Some r)) \<longleftrightarrow> v = Inr r \<or> \<not> Allowed r"
| "place_ok v (Answered None) \<longleftrightarrow> (\<exists>m. v = Inl m)"
| "place_ok v _ \<longleftrightarrow> True"

lemma place_ok_answered: "place_ok v (Returned resp) \<Longrightarrow> place_ok v (Answered resp)"
  by (cases resp) auto

lemma reachable_ok: "reachable D L ars s \<Longrightarrow> place_ok (validate_body D L (ars i)) (At s i)"
proof (induction rule: reachable.induct)
  case (start s)
  then show ?case by simp
next
  case (step s j s')
  show ?case
  proof (cases "i = j")
    case False
    with step show ?thesis by (auto elim: race_stepE)
  next
    case True
    with step show ?thesis
      by (auto elim!: race_stepE intro: place_ok_answered)
  qed
qed

text \<open>C17: however the validating handlers of any number of requests interleave on the shared error
  variable, a request that is answered with an approval is acceptable.\<close>

theorem race_safe:
  assumes "quantity_lib L" and "reachable D L ars s" and "At s i = Answered (Some r)" and "Allowed r"
  shows "\<exists>req. Request (ars i) = Some req \<and> acceptable D L req"
  using reachable_ok[OF assms(2), of i] assms(3,4)
    quantity_lib.body_decides(1)[OF assms(1), of D "ars i" r] by auto

section \<open>What the race costs\<close>

text \<open>A run is a list of handler numbers: each entry lets that handler make its next step.\<close>

fun next_state :: "'q wire \<Rightarrow> 'q lib \<Rightarrow> (nat \<Rightarrow> AdmissionReview) \<Rightarrow> nat \<Rightarrow> race \<Rightarrow> race" where
  "next_state D L ars i s =
     (case At s i of
        Waiting \<Rightarrow> move i Running s\<lparr>resFormErr := None\<rparr>
      | Running \<Rightarrow> (case validate_body D L (ars i) of
            Inr r \<Rightarrow> move i (Returned (Some r)) s
          | Inl m \<Rightarrow> move i (Returned None) s\<lparr>resFormErr := recordR m\<rparr>)
      | Returned resp \<Rightarrow> if resFormErr s = None then move i (Answered resp) s else move i Reading s
      | Reading \<Rightarrow> (case resFormErr s of Some e \<Rightarrow> move i (Answered (Some (denied e))) s
          | None \<Rightarrow> move i Crashed s)
      | p \<Rightarrow> s)"

lemma next_state_reachable:
  assumes "reachable D L ars s"
  shows "reachable D L ars (next_state D L ars i s)"
proof (cases "next_state D L ars i s = s")
  case False
  then have "race_step D L ars i s (next_state D L ars i s)"
    by (auto split: place.splits sum.splits option.splits intro: race_step.intros)
  with assms show ?thesis by (rule reachable.step)
qed (use assms in simp)

definition run :: "'q wire \<Rightarrow> 'q lib \<Rightarrow> (nat \<Rightarrow> AdmissionReview) \<Rightarrow> nat list \<Rightarrow> race" where
  "run D L ars is = foldl (\<lambda>s i. next_state D L ars i s) \<lparr>resFormErr = None, At = \<lambda>_. Waiting\<rparr> is"

lemma run_reachable: "reachable D L ars (run D L ars is)"
proof (induction "is" rule: rev_induct)
  case Nil
  show ?case by (simp add: run_def reachable.start)
next
  case (snoc i "is")
  then show ?case by (simp add: run_def next_state_reachable del: next_state.simps)
qed

text \<open>A handler that is alone gives the answer of the sequential model.\<close>

lemma solo_run:
  "At (run D L ars [i, i, i, i]) i = Answered (override (snd (validate D L (ars i) st)) (fst (validate D L (ars i) st)))"
  by (cases "validate_body D L (ars i)")
    (simp_all add: run_def validate_def override_def recordR_def)

text \<open>C36: the race does cost availability. An acceptable request \<open>i\<close> that meets a request \<open>j\<close> with a
  quantity that does not parse can be denied with the error of \<open>j\<close>; the handler of \<open>j\<close> can crash on
  an error that became nil between the check and the read, or answer without any verdict.\<close>

theorem race_anomalies:
  assumes "i \<noteq> j" and "validate_body D L (ars i) = Inr r" and "validate_body D L (ars j) = Inl m"
  shows "(\<exists>s. reachable D L ars s \<and> At s i = Answered (Some (denied (''MustParse failed due to '' @ m)))) \<and>
    (\<exists>s. reachable D L ars s \<and> At s j = Crashed) \<and>
    (\<exists>s. reachable D L ars s \<and> At s j = Answered None)"
proof (intro conjI)
  have "At (run D L ars [i, j, j, i, i, i]) i = Answered (Some (denied (''MustParse failed due to '' @ m)))"
    using assms by (simp add: run_def recordR_def)
  then show "\<exists>s. reachable D L ars s \<and> At s i = Answered (Some (denied (''MustParse failed due to '' @ m)))"
    using run_reachable by blast
  have "At (run D L ars [j, j, j, i, j]) j = Crashed" using assms by (simp add: run_def recordR_def)
  then show "\<exists>s. reachable D L ars s \<and> At s j = Crashed"
    using run_reachable by blast
  have "At (run D L ars [j, j, i, j]) j = Answered None" using assms by (simp add: run_def recordR_def)
  then show "\<exists>s. reachable D L ars s \<and> At s j = Answered None" using run_reachable by blast
qed

text \<open>Two requests: number 0 allowed, all others with a quantity that does not parse.\<close>

definition ex_reviews :: "nat \<Rightarrow> AdmissionReview" where
  "ex_reviews i = (if i = 0 then review ''Service'' ''v1'' None
     else review ''ResourceLimiter'' ''v1beta2'' (Some (JObj ex_ms)))"

lemma ex_reviews_0: "validate_body mem_wire mem_lib (ex_reviews 0) = Inr (allowed ''Validate rl of Service OK'')"
  by (simp add: ex_reviews_def validate_body_def validate_switch_def review_def)

lemma ex_reviews_1: "\<exists>m. validate_body mem_wire mem_lib (ex_reviews 1) = Inl m"
proof -
  have "unmarshal_rl mem_wire (Some (JObj ex_ms)) = Inr ex_obj"
    using shaped_ex_ms by (simp add: unmarshal_rl_def shaped_def)
  then show ?thesis
    by (simp add: ex_reviews_def validate_body_def validate_switch_def review_def validate_v1beta2_def
      ex_obj_def default_quota_def empty_quota_def mem_lib_def go_defs)
qed

theorem race_safe_witness:
  "At (run mem_wire mem_lib ex_reviews [0, 0, 0]) 0 = Answered (Some (allowed ''Validate rl of Service OK'')) \<and>
   acceptable mem_wire mem_lib (the (Request (ex_reviews 0)))"
proof -
  have a: "At (run mem_wire mem_lib ex_reviews [0, 0, 0]) 0 = Answered (Some (allowed ''Validate rl of Service OK''))"
    by (simp add: run_def ex_reviews_0)
  have "Allowed (allowed ''Validate rl of Service OK'')" by (simp add: allowed_def)
  from race_safe[OF memq.quantity_lib_axioms run_reachable a this]
  have "acceptable mem_wire mem_lib (the (Request (ex_reviews 0)))" by auto
  with a show ?thesis by blast
qed

theorem race_anomalies_witness:
  "\<exists>s m. reachable mem_wire mem_lib ex_reviews s \<and> At s 0 = Answered (Some (denied m)) \<and>
     acceptable mem_wire mem_lib (the (Request (ex_reviews 0)))"
proof -
  obtain m where m: "validate_body mem_wire mem_lib (ex_reviews 1) = Inl m" using ex_reviews_1 by blast
  have "(0 :: nat) \<noteq> 1" by simp
  from race_anomalies[OF this ex_reviews_0 m]
  obtain s where "reachable mem_wire mem_lib ex_reviews s"
    "At s 0 = Answered (Some (denied (''MustParse failed due to '' @ m)))" by blast
  moreover have "acceptable mem_wire mem_lib (the (Request (ex_reviews 0)))"
    by (simp add: acceptable_def ex_reviews_def review_def)
  ultimately show ?thesis by blast
qed

end
