(* ===== verification/Webhook_Config.thy ===== *)
theory Webhook_Config
  imports Prelude
begin

text \<open>
  How the webhook server registers itself at start-up: \<open>pkg/cmd/webhookconfig.go\<close>, and the two calls
  in \<open>main\<close> of \<open>pkg/cmd/main.go\<close>. \<open>webhookConfigName\<close> is a package variable that each call extends;
  it is passed along. The structs of the mutating and the validating configuration have the same
  fields, as far as they are used here; the two clients of the clientset are parameters.
\<close>

section \<open>The configurations\<close>

record ServiceReference =
  SvcName :: string
  SvcNamespace :: string
  SvcPath :: "string option"
  SvcPort :: "int option"

record RuleWithOperations =
  Operations :: "string list"
  APIGroups :: "string list"
  APIVersions :: "string list"
  Resources :: "string list"
  Scope :: "string option"

record Webhook =
  HookName :: string
  AdmissionReviewVersions :: "string list"
  SideEffects :: "string option"
  CABundle :: string
  Service :: "ServiceReference option"
  Rules :: "RuleWithOperations list"
  NamespaceSelector :: "(string, string) gomap option"
  FailurePolicy :: "string option"

record WebhookConfiguration =
  CfgName :: string
  CfgNamespace :: string
  CfgResourceVersion :: string
  Webhooks :: "Webhook list"

record 'w hook_client =
  get_hook :: "string \<Rightarrow> 'w \<Rightarrow> (go_error + WebhookConfiguration) \<times> 'w"
  create_hook :: "WebhookConfiguration \<Rightarrow> 'w \<Rightarrow> go_error option \<times> 'w"
  update_hook :: "WebhookConfiguration \<Rightarrow> 'w \<Rightarrow> go_error option \<times> 'w"

record 'w clientset =
  Mutating :: "'w hook_client"
  Validating :: "'w hook_client"

section \<open>createOrUpdateWebhookConfiguration\<close>

definition initialConfigName :: string where [go_defs]: "initialConfigName = ''resourcelimiter-checker''"
definition WebhookMutatePath :: string where [go_defs]: "WebhookMutatePath = ''/mutate''"
definition WebhookValidatePath :: string where [go_defs]: "WebhookValidatePath = ''/validate''"

definition mutatingConfig :: "string \<Rightarrow> string \<Rightarrow> string \<Rightarrow> string \<Rightarrow> WebhookConfiguration" where
  "mutatingConfig name caPEM webhookService webhookNamespace =
     \<lparr>CfgName = name, CfgNamespace = webhookNamespace, CfgResourceVersion = '''',
      Webhooks = [
        \<lparr>HookName = ''resourcelimiter.mutate.cliufreever.io'',
         AdmissionReviewVersions = [''v1'', ''v1beta1''], SideEffects = Some ''None'', CABundle = caPEM,
         Service = Some \<lparr>SvcName = webhookService, SvcNamespace = webhookNamespace,
           SvcPath = Some WebhookMutatePath, SvcPort = None\<rparr>,
         Rules = [\<lparr>Operations = [''UPDATE'', ''CREATE''], APIGroups = [''resources.resourcelimiter.io''],
           APIVersions = [''v1beta1'', ''v1beta2''], Resources = [''resourcelimiters''], Scope = None\<rparr>],
         NamespaceSelector = Some [(''resourcelimiter-mutate'', ''enabled'')],
         FailurePolicy = Some ''Fail''\<rparr>]\<rparr>"

definition validatingConfig :: "string \<Rightarrow> string \<Rightarrow> string \<Rightarrow> string \<Rightarrow> WebhookConfiguration" where
  "validatingConfig name caPEM webhookService webhookNamespace =
     \<lparr>CfgName = name, CfgNamespace = webhookNamespace, CfgResourceVersion = '''',
      Webhooks = [
        \<lparr>HookName = ''resourcelimiter.validate.cliufreever.io'',
         AdmissionReviewVersions = [''v1'', ''v1beta1''], SideEffects = Some ''None'', CABundle = caPEM,
         Service = Some \<lparr>SvcName = webhookService, SvcNamespace = webhookNamespace,
           SvcPath = Some WebhookValidatePath, SvcPort = None\<rparr>,
         Rules = [
           \<lparr>Operations = [''CREATE'', ''UPDATE''], APIGroups = [''resources.resourcelimiter.io''],
            APIVersions = [''v1beta1'', ''v1beta2''], Resources = [''resourcelimiters''], Scope = None\<rparr>,
           \<lparr>Operations = [''CREATE'', ''UPDATE''], APIGroups = [''''], APIVersions = [''v1''],
            Resources = [''pods''], Scope = None\<rparr>,
           \<lparr>Operations = [''CREATE'', ''UPDATE''], APIGroups = [''apps'', ''extensions''], APIVersions = [''v1''],
            Resources = [''deployments'', ''daemonsets''], Scope = None\<rparr>],
         NamespaceSelector = Some [(''resourcelimiter-validate'', ''enabled'')],
         FailurePolicy = Some ''Fail''\<rparr>]\<rparr>"

text \<open>The comparison of the first webhooks, field by field (\<open>reflect.DeepEqual\<close>).\<close>

definition same_settings :: "Webhook \<Rightarrow> Webhook \<Rightarrow> bool" where
  "same_settings f d \<longleftrightarrow> AdmissionReviewVersions f = AdmissionReviewVersions d \<and>
     SideEffects f = SideEffects d \<and> FailurePolicy f = FailurePolicy d \<and> Rules f = Rules d \<and>
     NamespaceSelector f = NamespaceSelector d \<and> CABundle f = CABundle d \<and> Service f = Service d"

definition nil_pointer :: string where
  "nil_pointer = ''runtime error: invalid memory address or nil pointer dereference''"

text \<open>
  Lines 84 to 92 and 176 to 184: whether an update is needed. The second one reads the name from
  \<open>mutatingWebhookConfig\<close>, which is nil there: \<open>Inl\<close>. As Go evaluates from the left, that is
  reached when the numbers of webhooks agree.
\<close>

definition mutating_differs :: "WebhookConfiguration \<Rightarrow> WebhookConfiguration \<Rightarrow> bool" where
  "mutating_differs foundCfg desired \<longleftrightarrow> length (Webhooks foundCfg) \<noteq> length (Webhooks desired) \<or>
     \<not> (HookName (Webhooks foundCfg ! 0) = HookName (Webhooks desired ! 0) \<and>
        same_settings (Webhooks foundCfg ! 0) (Webhooks desired ! 0))"

definition validating_differs ::
  "WebhookConfiguration option \<Rightarrow> WebhookConfiguration \<Rightarrow> WebhookConfiguration \<Rightarrow> string + bool" where
  "validating_differs mutatingWebhookConfig foundCfg desired =
     (if length (Webhooks foundCfg) \<noteq> length (Webhooks desired) then Inr True
      else case mutatingWebhookConfig of
             None \<Rightarrow> Inl nil_pointer
           | Some m \<Rightarrow> Inr (\<not> (HookName (Webhooks foundCfg ! 0) = HookName (Webhooks m ! 0) \<and>
               same_settings (Webhooks foundCfg ! 0) (Webhooks desired ! 0))))"

definition updated :: "'w hook_client \<Rightarrow> WebhookConfiguration \<Rightarrow> WebhookConfiguration \<Rightarrow> 'w \<Rightarrow> outcome \<times> 'w" where
  "updated K foundCfg desired w =
     (case update_hook K (desired\<lparr>CfgResourceVersion := CfgResourceVersion foundCfg\<rparr>) w of
        (Some err, w1) \<Rightarrow> (Done (Some err), w1)
      | (None, w1) \<Rightarrow> (Done None, w1))"

definition createOrUpdateWebhookConfiguration ::
  "'w clientset \<Rightarrow> string \<Rightarrow> string \<Rightarrow> string \<Rightarrow> bool \<Rightarrow> string \<Rightarrow> 'w \<Rightarrow> outcome \<times> string \<times> 'w" where
  "createOrUpdateWebhookConfiguration CS caPEM webhookService webhookNamespace mutate webhookConfigName w =
     (if mutate then
        let name = webhookConfigName @ ''-mutate'';
            desired = mutatingConfig name caPEM webhookService webhookNamespace
        in (case get_hook (Mutating CS) name w of
              (Inl err, w1) \<Rightarrow>
                if err = NotFound
                then (case create_hook (Mutating CS) desired w1 of
                        (Some err, w2) \<Rightarrow> (Done (Some err), name, w2)
                      | (None, w2) \<Rightarrow> (Done None, name, w2))
                else (Done (Some err), name, w1)
            | (Inr foundCfg, w1) \<Rightarrow>
                if mutating_differs foundCfg desired
                then (case updated (Mutating CS) foundCfg desired w1 of (out, w2) \<Rightarrow> (out, name, w2))
                else (Done None, name, w1))
      else
        let name = webhookConfigName @ ''-validate'';
            desired = validatingConfig name caPEM webhookService webhookNamespace
        in (case get_hook (Validating CS) name w of
              (Inl err, w1) \<Rightarrow>
                if err = NotFound
                then (case create_hook (Validating CS) desired w1 of
                        (Some err, w2) \<Rightarrow> (Done (Some err), name, w2)
                      | (None, w2) \<Rightarrow> (Done None, name, w2))
                else (Done (Some err), name, w1)
            | (Inr foundCfg, w1) \<Rightarrow>
                (case validating_differs None foundCfg desired of
                   Inl m \<Rightarrow> (Panicked m, name, w1)
                 | Inr True \<Rightarrow>
                     (case updated (Validating CS) foundCfg desired w1 of (out, w2) \<Rightarrow> (out, name, w2))
                 | Inr False \<Rightarrow> (Done None, name, w1))))"

text \<open>
  The two calls of \<open>main\<close> in a fresh process; \<open>Fatalf\<close> ends the process, so only \<open>Done None\<close> of both
  gets to the server.
\<close>

definition register_webhooks :: "'w clientset \<Rightarrow> string \<Rightarrow> string \<Rightarrow> string \<Rightarrow> 'w \<Rightarrow> outcome \<times> 'w" where
  "register_webhooks CS caPEM webhookServiceName webhookNamespace w =
     (case createOrUpdateWebhookConfiguration CS caPEM webhookServiceName webhookNamespace True initialConfigName w of
        (Done None, name, w1) \<Rightarrow>
          (case createOrUpdateWebhookConfiguration CS caPEM webhookServiceName webhookNamespace False name w1 of
             (out, _, w2) \<Rightarrow> (out, w2))
      | (out, _, w1) \<Rightarrow> (out, w1))"

section \<open>What the clients promise\<close>

text \<open>What of a webhook an API server may not touch: the CA bundle, and whom to call where.\<close>

definition essence :: "Webhook \<Rightarrow> string \<times> (string \<times> string \<times> string option) option" where
  "essence h = (CABundle h, map_option (\<lambda>s. (SvcName s, SvcNamespace s, SvcPath s)) (Service h))"

abbreviation essences :: "WebhookConfiguration \<Rightarrow> (string \<times> (string \<times> string \<times> string option) option) list" where
  "essences c \<equiv> map essence (Webhooks c)"

text \<open>
  \<open>stored w\<close> are the configurations by name. The server may fill in defaults when it stores one
  (\<open>dflt\<close>), but keeps the name, the number of webhooks and their essence.
\<close>

locale hook_api =
  fixes K :: "'w hook_client" and stored :: "'w \<Rightarrow> string \<rightharpoonup> WebhookConfiguration"
    and dflt :: "WebhookConfiguration \<Rightarrow> WebhookConfiguration"
  assumes get_hook_stored: "get_hook K n w = (r, w') \<Longrightarrow> stored w' = stored w"
    and get_hook_found: "get_hook K n w = (Inr c, w') \<Longrightarrow> stored w n = Some c"
    and get_hook_missing: "get_hook K n w = (Inl NotFound, w') \<Longrightarrow> stored w n = None"
    and create_hook_ok: "create_hook K c w = (None, w') \<Longrightarrow>
      stored w (CfgName c) = None \<and> stored w' = (stored w)(CfgName c \<mapsto> dflt c)"
    and update_hook_ok: "update_hook K c w = (None, w') \<Longrightarrow>
      stored w (CfgName c) \<noteq> None \<and> stored w' = (stored w)(CfgName c \<mapsto> dflt c)"
    and dflt_essence: "essences (dflt c) = essences c"
begin

lemma dflt_length: "length (Webhooks (dflt c)) = length (Webhooks c)"
  using dflt_essence[of c] by (metis length_map)

lemma updated_ok:
  "updated K f d w = (Done None, w') \<Longrightarrow>
     stored w' = (stored w)(CfgName d \<mapsto> dflt (d\<lparr>CfgResourceVersion := CfgResourceVersion f\<rparr>))"
  by (auto simp: updated_def dest!: update_hook_ok split: prod.splits option.splits)

end

text \<open>Both clients; a call of one leaves the configurations of the other alone.\<close>

locale webhook_api =
  m: hook_api "Mutating CS" mstored dflt + v: hook_api "Validating CS" vstored dflt
  for CS :: "'w clientset" and mstored vstored dflt +
  assumes get_mutating_v: "get_hook (Mutating CS) n w = (r, w') \<Longrightarrow> vstored w' = vstored w"
    and create_mutating_v: "create_hook (Mutating CS) c w = (e, w') \<Longrightarrow> vstored w' = vstored w"
    and update_mutating_v: "update_hook (Mutating CS) c w = (e, w') \<Longrightarrow> vstored w' = vstored w"
    and get_validating_m: "get_hook (Validating CS) n w = (r, w') \<Longrightarrow> mstored w' = mstored w"
    and create_validating_m: "create_hook (Validating CS) c w = (e, w') \<Longrightarrow> mstored w' = mstored w"
    and update_validating_m: "update_hook (Validating CS) c w = (e, w') \<Longrightarrow> mstored w' = mstored w"
begin

lemma mutating_ok:
  assumes "createOrUpdateWebhookConfiguration CS ca svc ns True name w = (Done None, name', w')"
  shows "name' = name @ ''-mutate''"
    "\<exists>c. mstored w' name' = Some c \<and> essences c = [(ca, Some (svc, ns, Some WebhookMutatePath))]"
proof -
  let ?n = "name @ ''-mutate''" and ?d = "mutatingConfig (name @ ''-mutate'') ca svc ns"
  have dn: "CfgName ?d = ?n" "essences ?d = [(ca, Some (svc, ns, Some WebhookMutatePath))]" "length (Webhooks ?d) = 1"
    by (simp_all add: mutatingConfig_def essence_def)
  obtain r w1 where g: "get_hook (Mutating CS) ?n w = (r, w1)" by (cases "get_hook (Mutating CS) ?n w")
  note st = m.get_hook_stored[OF g]
  show n: "name' = ?n"
    using assms by (auto simp: createOrUpdateWebhookConfiguration_def Let_def
      split: prod.splits sum.splits option.splits if_splits)
  show "\<exists>c. mstored w' name' = Some c \<and> essences c = [(ca, Some (svc, ns, Some WebhookMutatePath))]"
  proof (cases r)
    case (Inl e)
    with assms g have "create_hook (Mutating CS) ?d w1 = (None, w')"
      by (auto simp: createOrUpdateWebhookConfiguration_def Let_def split: prod.splits option.splits if_splits)
    from m.create_hook_ok[OF this] dn m.dflt_essence[of ?d] n show ?thesis by simp
  next
    case (Inr f)
    show ?thesis
    proof (cases "mutating_differs f ?d")
      case True
      with assms g Inr have "updated (Mutating CS) f ?d w1 = (Done None, w')"
        by (auto simp: createOrUpdateWebhookConfiguration_def Let_def split: prod.splits)
      from m.updated_ok[OF this] dn m.dflt_essence[of "?d\<lparr>CfgResourceVersion := CfgResourceVersion f\<rparr>"] n
      show ?thesis by simp
    next
      case False
      with assms g Inr have "w' = w1"
        by (auto simp: createOrUpdateWebhookConfiguration_def Let_def)
      from False dn(3) have l: "length (Webhooks f) = 1"
        and s: "same_settings (Webhooks f ! 0) (Webhooks ?d ! 0)" by (auto simp: mutating_differs_def)
      from l obtain h where h: "Webhooks f = [h]" by (cases "Webhooks f") auto
      have "essence h = (ca, Some (svc, ns, Some WebhookMutatePath))"
        using s h by (simp add: same_settings_def mutatingConfig_def essence_def)
      moreover have "mstored w ?n = Some f" using m.get_hook_found g Inr by blast
      ultimately show ?thesis using h st \<open>w' = w1\<close> n by simp
    qed
  qed
qed

lemma mutating_keeps_validating:
  "createOrUpdateWebhookConfiguration CS ca svc ns True name w = (out, name', w') \<Longrightarrow> vstored w' = vstored w"
  by (auto simp: createOrUpdateWebhookConfiguration_def updated_def Let_def
      dest!: get_mutating_v create_mutating_v update_mutating_v
      split: prod.splits sum.splits option.splits if_splits)

lemma validating_keeps_mutating:
  "createOrUpdateWebhookConfiguration CS ca svc ns False name w = (out, name', w') \<Longrightarrow> mstored w' = mstored w"
  by (auto simp: createOrUpdateWebhookConfiguration_def updated_def Let_def
      dest!: get_validating_m create_validating_m update_validating_m
      split: prod.splits sum.splits option.splits if_splits bool.splits)

lemma validating_branches:
  assumes "createOrUpdateWebhookConfiguration CS ca svc ns False name w = (out, name', w')"
  obtains (created) e w1 where "vstored w (name @ ''-validate'') = None"
      "create_hook (Validating CS) (validatingConfig (name @ ''-validate'') ca svc ns) w1 = (e, w')" "out = Done e"
    | (failed) e where "out = Done (Some e)"
    | (single) f where "vstored w (name @ ''-validate'') = Some f" "length (Webhooks f) = 1" "out = Panicked nil_pointer"
    | (changed) f w1 where "vstored w (name @ ''-validate'') = Some f" "length (Webhooks f) \<noteq> 1"
      "updated (Validating CS) f (validatingConfig (name @ ''-validate'') ca svc ns) w1 = (out, w')"
proof -
  let ?n = "name @ ''-validate''" and ?d = "validatingConfig (name @ ''-validate'') ca svc ns"
  have one: "length (Webhooks ?d) = 1" by (simp add: validatingConfig_def)
  obtain r w1 where g: "get_hook (Validating CS) ?n w = (r, w1)" by (cases "get_hook (Validating CS) ?n w")
  show thesis
  proof (cases r)
    case (Inl e)
    show thesis
    proof (cases "e = NotFound")
      case True
      obtain e' w2 where c: "create_hook (Validating CS) ?d w1 = (e', w2)" by (cases "create_hook (Validating CS) ?d w1")
      with assms g Inl True have "out = Done e'" "w' = w2"
        by (auto simp: createOrUpdateWebhookConfiguration_def Let_def split: option.splits)
      moreover have "vstored w ?n = None" using v.get_hook_missing g Inl True by blast
      ultimately show thesis using created c by blast
    next
      case False
      with assms g Inl have "out = Done (Some e)" by (auto simp: createOrUpdateWebhookConfiguration_def Let_def)
      then show thesis by (rule failed)
    qed
  next
    case (Inr f)
    then have f: "vstored w ?n = Some f" using v.get_hook_found g by blast
    show thesis
    proof (cases "length (Webhooks f) = 1")
      case True
      with one have "validating_differs None f ?d = Inl nil_pointer" by (simp add: validating_differs_def)
      with assms g Inr have "out = Panicked nil_pointer" by (auto simp: createOrUpdateWebhookConfiguration_def Let_def)
      with f True show thesis by (rule single)
    next
      case False
      with one have "validating_differs None f ?d = Inr True" by (simp add: validating_differs_def)
      with assms g Inr have "updated (Validating CS) f ?d w1 = (out, w')"
        by (auto simp: createOrUpdateWebhookConfiguration_def Let_def split: prod.splits)
      with f False show thesis by (rule changed)
    qed
  qed
qed

lemma validating_cases:
  assumes "createOrUpdateWebhookConfiguration CS ca svc ns False name w = (out, name', w')"
  shows "out = Done None \<Longrightarrow> (\<exists>c. vstored w' (name @ ''-validate'') = Some c \<and> essences c = [(ca, Some (svc, ns, Some WebhookValidatePath))])"
    "vstored w (name @ ''-validate'') = Some c \<Longrightarrow> length (Webhooks c) = 1 \<Longrightarrow> out \<noteq> Done None"
    "out = Panicked p \<Longrightarrow> p = nil_pointer \<and>
       (\<exists>c. vstored w (name @ ''-validate'') = Some c \<and> length (Webhooks c) = 1)"
proof -
  let ?d = "validatingConfig (name @ ''-validate'') ca svc ns"
  have dn: "CfgName ?d = name @ ''-validate''" "essences ?d = [(ca, Some (svc, ns, Some WebhookValidatePath))]"
    by (simp_all add: validatingConfig_def essence_def)
  from assms show "\<exists>c. vstored w' (name @ ''-validate'') = Some c \<and> essences c = [(ca, Some (svc, ns, Some WebhookValidatePath))]"
    if "out = Done None"
  proof (cases rule: validating_branches)
    case (created e w1)
    with v.create_hook_ok[of ?d w1 w'] dn v.dflt_essence[of ?d] that show ?thesis by simp
  next
    case (changed f w1)
    with v.updated_ok[of f ?d w1 w'] dn v.dflt_essence[of "?d\<lparr>CfgResourceVersion := CfgResourceVersion f\<rparr>"] that
    show ?thesis by simp
  qed (use that in simp_all)
  from assms show "out \<noteq> Done None" if "vstored w (name @ ''-validate'') = Some c" "length (Webhooks c) = 1"
    by (cases rule: validating_branches) (use that in simp_all)
  from assms show "p = nil_pointer \<and> (\<exists>c. vstored w (name @ ''-validate'') = Some c \<and> length (Webhooks c) = 1)"
    if "out = Panicked p"
    by (cases rule: validating_branches) (use that in \<open>auto simp: updated_def split: prod.splits option.splits\<close>)
qed

text \<open>The two calls of \<open>main\<close>.\<close>

lemma register_cases:
  assumes "register_webhooks CS ca svc ns w = (out, w')"
  obtains (first) "out \<noteq> Done None" "vstored w' = vstored w"
  | (both) w1 name where "createOrUpdateWebhookConfiguration CS ca svc ns True initialConfigName w =
        (Done None, initialConfigName @ ''-mutate'', w1)"
      "createOrUpdateWebhookConfiguration CS ca svc ns False (initialConfigName @ ''-mutate'') w1 = (out, name, w')"
      "vstored w1 = vstored w"
proof -
  obtain o1 n1 w1 where 1: "createOrUpdateWebhookConfiguration CS ca svc ns True initialConfigName w = (o1, n1, w1)"
    by (cases "createOrUpdateWebhookConfiguration CS ca svc ns True initialConfigName w") blast
  note keep = mutating_keeps_validating[OF 1]
  show thesis
  proof (cases "o1 = Done None")
    case True
    with mutating_ok(1) 1 have n1: "n1 = initialConfigName @ ''-mutate''" by blast
    obtain o2 n2 w2 where 2: "createOrUpdateWebhookConfiguration CS ca svc ns False n1 w1 = (o2, n2, w2)"
      by (cases "createOrUpdateWebhookConfiguration CS ca svc ns False n1 w1") blast
    from assms 1 2 True have "o2 = out" "w2 = w'" by (auto simp: register_webhooks_def)
    with 1 2 True n1 keep show thesis by (intro both[of w1 n2]) simp_all
  next
    case False
    with assms 1 have "out = o1" "w' = w1"
      by (auto simp: register_webhooks_def split: outcome.splits option.splits)
    with False keep show thesis by (intro first) simp_all
  qed
qed

lemma register_ok:
  assumes "register_webhooks CS ca svc ns w = (Done None, w')"
  shows "(\<exists>c. mstored w' (initialConfigName @ ''-mutate'') = Some c \<and> essences c = [(ca, Some (svc, ns, Some WebhookMutatePath))]) \<and>
    (\<exists>c. vstored w' ((initialConfigName @ ''-mutate'') @ ''-validate'') = Some c \<and>
      essences c = [(ca, Some (svc, ns, Some WebhookValidatePath))])"
  using assms
proof (cases rule: register_cases)
  case (both w1 name)
  from mutating_ok(2)[OF both(1)] validating_cases(1)[OF both(2) refl] validating_keeps_mutating[OF both(2)]
  show ?thesis by simp
qed simp

lemma register_again:
  assumes "vstored w ((initialConfigName @ ''-mutate'') @ ''-validate'') = Some c" and "length (Webhooks c) = 1"
    and "register_webhooks CS ca svc ns w = (out, w')"
  shows "out \<noteq> Done None"
  using assms(3)
proof (cases rule: register_cases)
  case (both w1 name)
  from validating_cases(2)[OF both(2), of c] both(3) assms(1,2) show ?thesis by simp
qed simp

end

end
