(* ===== verification/Config_Props.thy ===== *)
theory Config_Props
  imports Webhook_Config
begin

text \<open>
  The start-up of the webhook server against the contract of the two clients (\<open>webhook_api\<close>), and the
  in-memory server the contract is interpreted on: it fills in the scope of rules and the port of
  services, as the API server does.
\<close>

section \<open>An in-memory server\<close>

record hooks =
  MHooks :: "string \<rightharpoonup> WebhookConfiguration"
  VHooks :: "string \<rightharpoonup> WebhookConfiguration"

definition fill_in :: "WebhookConfiguration \<Rightarrow> WebhookConfiguration" where
  "fill_in c = c\<lparr>Webhooks := map (\<lambda>h. h\<lparr>
     Service := map_option (\<lambda>s. s\<lparr>SvcPort := Some (case SvcPort s of None \<Rightarrow> 443 | Some p \<Rightarrow> p)\<rparr>) (Service h),
     Rules := map (\<lambda>r. r\<lparr>Scope := Some (case Scope r of None \<Rightarrow> ''*'' | Some s \<Rightarrow> s)\<rparr>) (Rules h)\<rparr>) (Webhooks c)\<rparr>"

definition mem_hook_client ::
  "('w \<Rightarrow> string \<rightharpoonup> WebhookConfiguration) \<Rightarrow> ((string \<rightharpoonup> WebhookConfiguration) \<Rightarrow> 'w \<Rightarrow> 'w) \<Rightarrow> 'w hook_client" where
  "mem_hook_client look put =
     \<lparr>get_hook = \<lambda>n w. ((case look w n of None \<Rightarrow> Inl NotFound | Some c \<Rightarrow> Inr c), w),
      create_hook = \<lambda>c w. if look w (CfgName c) = None
        then (None, put ((look w)(CfgName c \<mapsto> fill_in c)) w) else (Some (Failure ''exists''), w),
      update_hook = \<lambda>c w. if look w (CfgName c) \<noteq> None
        then (None, put ((look w)(CfgName c \<mapsto> fill_in c)) w) else (Some NotFound, w)\<rparr>"

definition mem_clientset :: "hooks clientset" where
  "mem_clientset = \<lparr>Mutating = mem_hook_client MHooks (\<lambda>m w. w\<lparr>MHooks := m\<rparr>),
     Validating = mem_hook_client VHooks (\<lambda>m w. w\<lparr>VHooks := m\<rparr>)\<rparr>"

lemma fill_in_essence: "essences (fill_in c) = essences c"
  by (auto simp: fill_in_def essence_def option.map_comp comp_def)

interpretation memh: webhook_api mem_clientset MHooks VHooks fill_in
  by unfold_locales (auto simp: mem_clientset_def mem_hook_client_def fill_in_essence
    split: option.splits if_splits)

definition no_hooks :: hooks where
  "no_hooks = \<lparr>MHooks = Map.empty, VHooks = Map.empty\<rparr>"

section \<open>Properties\<close>

text \<open>When the start-up succeeds, both configurations are stored with one webhook each that carries the
  CA of this process - the mutating one under \<open>resourcelimiter-checker-mutate\<close>, the validating one
  under \<open>resourcelimiter-checker-mutate-validate\<close>, since the second call goes on from the name the
  first one has left.\<close>

theorem register_webhooks_ok:
  assumes "webhook_api CS mstored vstored dflt" and "register_webhooks CS ca svc ns w = (Done None, w')"
  shows "(\<exists>c. mstored w' ''resourcelimiter-checker-mutate'' = Some c \<and> map CABundle (Webhooks c) = [ca]) \<and>
    (\<exists>c. vstored w' ''resourcelimiter-checker-mutate-validate'' = Some c \<and> map CABundle (Webhooks c) = [ca])"
  using webhook_api.register_ok[OF assms] by (auto simp: initialConfigName_def essence_def)

theorem register_webhooks_ok_witness:
  "\<exists>w'. register_webhooks mem_clientset ''ca'' ''svc'' ''ns'' no_hooks = (Done None, w') \<and>
     (\<exists>c. VHooks w' ''resourcelimiter-checker-mutate-validate'' = Some c \<and> map CABundle (Webhooks c) = [''ca''])"
proof -
  let ?w = "snd (register_webhooks mem_clientset ''ca'' ''svc'' ''ns'' no_hooks)"
  have "fst (register_webhooks mem_clientset ''ca'' ''svc'' ''ns'' no_hooks) = Done None" by code_simp
  then have r: "register_webhooks mem_clientset ''ca'' ''svc'' ''ns'' no_hooks = (Done None, ?w)"
    by (metis prod.collapse)
  note register_webhooks_ok[OF memh.webhook_api_axioms r, THEN conjunct2]
  with r show ?thesis by (intro exI[of _ ?w] conjI)
qed

text \<open>C37: the server registers once only. After a start-up that succeeded, no later start-up succeeds - with
  whatever certificate, service or state of everything else - as long as the validating
  configuration is still stored. And it need not be an error of a call: the code then panics on the
  nil \<open>mutatingWebhookConfig\<close>, as a second start on the in-memory server shows.\<close>

theorem register_webhooks_once:
  assumes "webhook_api CS mstored vstored dflt" and "register_webhooks CS ca svc ns w = (Done None, w')"
    and "vstored w1 ''resourcelimiter-checker-mutate-validate'' =
      vstored w' ''resourcelimiter-checker-mutate-validate''"
  shows "fst (register_webhooks CS ca' svc' ns' w1) \<noteq> Done None"
proof -
  from webhook_api.register_ok[OF assms(1,2)] assms(3) obtain c
    where "vstored w1 ((initialConfigName @ ''-mutate'') @ ''-validate'') = Some c"
      and "essences c = [(ca, Some (svc, ns, Some WebhookValidatePath))]" by (auto simp: initialConfigName_def)
  moreover from this(2) have "length (Webhooks c) = 1" by (metis length_map length_Cons list.size(3) One_nat_def)
  ultimately show ?thesis
    using webhook_api.register_again[OF assms(1) _ _ prod.collapse[symmetric]] by blast
qed

theorem register_webhooks_once_witness:
  "\<exists>w'. register_webhooks mem_clientset ''ca'' ''svc'' ''ns'' no_hooks = (Done None, w') \<and>
     fst (register_webhooks mem_clientset ''ca2'' ''svc'' ''ns'' w') \<noteq> Done None \<and>
     fst (register_webhooks mem_clientset ''ca2'' ''svc'' ''ns'' w') = Panicked nil_pointer"
proof -
  let ?w = "snd (register_webhooks mem_clientset ''ca'' ''svc'' ''ns'' no_hooks)"
  have "fst (register_webhooks mem_clientset ''ca'' ''svc'' ''ns'' no_hooks) = Done None" by code_simp
  then have r: "register_webhooks mem_clientset ''ca'' ''svc'' ''ns'' no_hooks = (Done None, ?w)"
    by (metis prod.collapse)
  have "fst (register_webhooks mem_clientset ''ca2'' ''svc'' ''ns'' ?w) = Panicked nil_pointer" by code_simp
  with register_webhooks_once[OF memh.webhook_api_axioms r refl] r show ?thesis by blast
qed

end
