(* ===== verification/Pipeline.thy ===== *)
theory Pipeline
  imports Conversion_Props Controller_Progress Validate_Race Config_Props
begin

text \<open>
  Properties that span components: what admission by the validating webhook means for the
  controller, and what conversion from v1beta1 means for it.
\<close>

section \<open>When the controller cannot panic\<close>

context reconciler
begin

lemma setHard_parses: "parses L q \<Longrightarrow> setHard L rq q \<noteq> Inl m"
  using setHard_total[of L q rq] by auto

lemma reconcile_quota_no_panic:
  assumes "ignored (NamespaceName q) \<or> parses L q"
  shows "reconcile_quota C L rl q s w \<noteq> (Panic m, w')"
proof (cases "ignored (NamespaceName q)")
  case True
  then show ?thesis by (simp add: reconcile_quota_ignored)
next
  case False
  with assms have p: "setHard L rq q \<noteq> Inl m" for rq m using setHard_parses by blast
  show ?thesis
    using p by (auto simp: reconcile_quota_def apply_quota_def create_quota_def update_quota_def Let_def
      remove_quota_returns split: prod.splits sum.splits option.splits if_splits)
qed

lemma reconcileDelete_no_panic: "fst (reconcileDelete C L rl w) \<noteq> Panicked m"
proof -
  have "fst (remove_our_finalizer C L rl u) \<noteq> Panicked m" for u
    by (simp add: remove_our_finalizer_def Let_def split: prod.split option.split)
  moreover have "for_loop (delete_quota C) qs u v \<noteq> (Panic m, v')" for qs u v v'
    using for_loop_stopped[of "delete_quota C" qs u v "Panic m" v'] delete_quota_returns(2) by blast
  ultimately show ?thesis
    by (auto simp: reconcileDelete_def split: prod.split ctl.split)
qed

lemma no_panic:
  assumes "Rls (abs w) n = Some rl"
    and "\<And>q. q \<in> set (Quotas (Spec rl)) \<Longrightarrow> ignored (NamespaceName q) \<or> parses L q"
  shows "fst (Reconcile C L n w) \<noteq> Panicked m"
proof -
  obtain out w' where run: "Reconcile C L n w = (out, w')" by (cases "Reconcile C L n w")
  have "out \<noteq> Panicked m"
    using run assms(1)
  proof (cases rule: Reconcile_cases)
    case (pass rl1 w1)
    have "fst (reconcile C L rl1 w1) \<noteq> Panicked m"
    proof -
      have "for_loop (reconcile_quota C L rl1) (Quotas (Spec rl1)) [] w1 \<noteq> (Panic m, u)" for u
        using for_loop_stopped[of "reconcile_quota C L rl1" "Quotas (Spec rl1)" "[]" w1 "Panic m" u]
          reconcile_quota_no_panic assms(2) registeredD(3)[OF pass(2)] by fastforce
      then show ?thesis
        by (auto simp: reconcile_def split: prod.split ctl.split option.split)
    qed
    with pass(4) reconcileDelete_no_panic[of rl1 w1 m] show ?thesis by (auto split: if_splits)
  qed simp
  with run show ?thesis by simp
qed

text \<open>An entry for the namespace with the empty name, which no cluster has, stops every run.\<close>

lemma empty_name_fails:
  assumes "Rls (abs w) n = Some rl" and "DeletionTimestamp (Meta rl) = None"
    and "Quotas (Spec rl) = q # qs" and "NamespaceName q = ''''" and "Nss (abs w) '''' = None"
  shows "\<exists>e w' rl'. Reconcile C L n w = (Done (Some e), w') \<and> abs w' = set_rl n rl' (abs w)"
proof -
  obtain out w' where run: "Reconcile C L n w = (out, w')" by (cases "Reconcile C L n w")
  from run assms(1) show ?thesis
  proof (cases rule: Reconcile_cases)
    case (early e rl1)
    with run show ?thesis by blast
  next
    case (pass rl1 w1)
    obtain g w2 where g: "get_ns C ('''', '''') w1 = (g, w2)" by (cases "get_ns C ('''', '''') w1")
    have "\<exists>e. g = Inl e"
    proof (cases g)
      case (Inr x)
      with get_nsD(2)[OF g] pass(1) assms(5) show ?thesis by simp
    qed simp
    then obtain e where e: "g = Inl e" by blast
    have "\<not> ignored ''''" by (simp add: ignored_def go_defs)
    with g e assms(4) have "reconcile_quota C L rl1 q [] w1 = (Return (Some e), w2)"
      by (simp add: reconcile_quota_def ignored_def)
    with assms(3) registeredD(3)[OF pass(2)] have "reconcile C L rl1 w1 = (Done (Some e), w2)"
      by (simp add: reconcile_def)
    moreover have "abs w2 = abs w1" using get_nsD(1)[OF g] .
    ultimately show ?thesis using pass(1,4) assms(2) run by auto
  qed
qed

end

section \<open>Admission and the controller\<close>

lemma admitted_acceptable2:
  assumes "Request ar = Some req" and "Kind req = ''ResourceLimiter''" and "Version req = ''v1beta2''"
    and "unmarshal_rl D (ObjectRaw req) = Inr rl" and "fst (validate D L ar st) = Some resp" and "Allowed resp"
  shows "acceptable2 L (Spec rl)"
proof -
  have "validate_switch D L req = validate_v1beta2 D L (ObjectRaw req)"
    using assms(2,3) by (simp add: validate_switch_def)
  with assms(1,5,6) validate_v1beta2_decides(2)[of D L "ObjectRaw req"]
  have "passes (validate_v1beta2 D L (ObjectRaw req))"
    by (auto simp: validate_def validate_body_def sound_def split: sum.splits option.splits)
  with validate_v1beta2_decides(1)[of D L "ObjectRaw req"] assms(4) show ?thesis by simp
qed

text \<open>C19: an object that the validating webhook has admitted as v1beta2 never makes the controller panic:
  whatever the cluster and whichever calls fail, a run on a stored object with that spec does not
  end in a panic.\<close>

theorem admitted_no_panic:
  assumes "reconciler C view L" and "Request ar = Some req"
    and "Kind req = ''ResourceLimiter''" and "Version req = ''v1beta2''"
    and "unmarshal_rl D (ObjectRaw req) = Inr rl"
    and "fst (validate D L ar st) = Some resp" and "Allowed resp"
    and "Rls (view w) n = Some rl'" and "Spec rl' = Spec rl"
  shows "fst (Reconcile C L n w) \<noteq> Panicked m"
proof -
  from admitted_acceptable2[OF assms(2-7)] have "acceptable2 L (Spec rl)" .
  then have "\<And>q. q \<in> set (Quotas (Spec rl')) \<Longrightarrow> ignored (NamespaceName q) \<or> parses L q"
    using assms(9) by (simp add: acceptable2_def)
  from reconciler.no_panic[OF assms(1,8) this] show ?thesis .
qed

definition ex_admitted :: "(string \<times> json) list" where
  "ex_admitted = [(''metadata'', JObj [(''name'', JStr ''rl'')]),
     (''spec'', JObj [(''targets'', JArr [json_of_quota ex_quota]), (''applied'', JBool True)])]"

definition ex_admitted_rl :: ResourceLimiter where
  "ex_admitted_rl = empty_rl\<lparr>Meta := empty_meta\<lparr>Name := ''rl''\<rparr>, Spec := \<lparr>Quotas = [ex_quota], Applied = True\<rparr>\<rparr>"

abbreviation ex_review :: AdmissionReview where
  "ex_review \<equiv> review ''ResourceLimiter'' ''v1beta2'' (Some (JObj ex_admitted))"

lemma ex_admission:
  "Request ex_review = Some (the (Request ex_review))" "Kind (the (Request ex_review)) = ''ResourceLimiter''"
  "Version (the (Request ex_review)) = ''v1beta2''"
  "unmarshal_rl mem_wire (ObjectRaw (the (Request ex_review))) = Inr ex_admitted_rl"
  "fst (validate mem_wire mem_lib ex_review None) = Some (allowed ''Validate rl of ResourceLimiter OK'')"
  "Allowed (allowed ''Validate rl of ResourceLimiter OK'')"
proof -
  show "Request ex_review = Some (the (Request ex_review))" "Kind (the (Request ex_review)) = ''ResourceLimiter''"
    "Version (the (Request ex_review)) = ''v1beta2''" "Allowed (allowed ''Validate rl of ResourceLimiter OK'')"
    by (simp_all add: review_def allowed_def)
  have "decode_rl mem_meta (JObj ex_admitted) = Some ex_admitted_rl" by code_simp
  then show u: "unmarshal_rl mem_wire (ObjectRaw (the (Request ex_review))) = Inr ex_admitted_rl"
    by (simp add: unmarshal_rl_def review_def)
  have "check_quotas mem_lib [ex_quota] = Inr None" by code_simp
  then have "validate_v1beta2 mem_wire mem_lib (ObjectRaw (the (Request ex_review))) = Inr None"
    using u by (simp add: validate_v1beta2_def ex_admitted_rl_def)
  then show "fst (validate mem_wire mem_lib ex_review None) = Some (allowed ''Validate rl of ResourceLimiter OK'')"
    by (simp add: validate_def validate_body_def validate_switch_def review_def)
qed

theorem admitted_no_panic_witness:
  "\<exists>resp. fst (validate mem_wire mem_lib ex_review None) = Some resp \<and> Allowed resp \<and>
   (\<forall>m. fst (Reconcile mem_client mem_lib ''rl'' (ex_cluster ex_admitted_rl)) \<noteq> Panicked m)"
proof -
  have s: "Rls (proper (ex_cluster ex_admitted_rl)) ''rl'' = Some ex_admitted_rl"
    by (rule Rls_ex) (simp add: ex_admitted_rl_def)
  from admitted_no_panic[OF memr.reconciler_axioms ex_admission s refl] ex_admission(5,6) show ?thesis by blast
qed

section \<open>Conversion and the controller\<close>

text \<open>C35: an object that was converted from v1beta1 with at least one target is dead while it is live: the first of its quotas
  is an empty one, for a namespace with no name, which does not exist, so every run on it ends in an error and leaves all
  namespaces and quotas as they are.\<close>

theorem converted_never_applies:
  assumes "reconciler C view L" and "ConvertTo src (HubV1beta2 dst) = (None, HubV1beta2 conv)"
    and "Targets (Spec1 src) \<noteq> []" and "Rls (view w) n = Some rl" and "Spec rl = Spec conv"
    and "DeletionTimestamp (Meta rl) = None" and "Nss (view w) '''' = None"
  shows "\<exists>e. fst (Reconcile C L n w) = Done (Some e) \<and>
    Nss (view (snd (Reconcile C L n w))) = Nss (view w) \<and> Rqs (view (snd (Reconcile C L n w))) = Rqs (view w)"
proof -
  obtain t ts where "Targets (Spec1 src) = t # ts" using assms(3) by (cases "Targets (Spec1 src)") auto
  then have "Quotas (Spec conv) = empty_quota # (replicate (length ts) empty_quota
      @ map (quota_for (Types (Spec1 src))) (t # ts))"
    using assms(2) by (auto simp: foldl_quota_for)
  with assms(5) have "\<exists>qs. Quotas (Spec rl) = empty_quota # qs" by simp
  then obtain qs where q: "Quotas (Spec rl) = empty_quota # qs" by blast
  have "NamespaceName empty_quota = ''''" by (simp add: empty_quota_def)
  from reconciler.empty_name_fails[OF assms(1,4,6) q this assms(7)] show ?thesis by auto
qed

theorem converted_never_applies_witness:
  "\<exists>conv e. ConvertTo (empty_rl1\<lparr>Spec1 := ex_spec1 True\<rparr>) (HubV1beta2 ex_rl) = (None, HubV1beta2 conv) \<and>
     fst (Reconcile mem_client mem_lib ''rl'' (ex_cluster (ex_rl\<lparr>Spec := Spec conv\<rparr>))) = Done (Some e)"
proof -
  let ?src = "empty_rl1\<lparr>Spec1 := ex_spec1 True\<rparr>"
  obtain conv where c: "ConvertTo ?src (HubV1beta2 ex_rl) = (None, HubV1beta2 conv)"
    by (simp add: Let_def)
  let ?rl = "ex_rl\<lparr>Spec := Spec conv\<rparr>"
  have t: "Targets (Spec1 ?src) \<noteq> []" by (simp add: ex_spec1_def)
  have s: "Rls (proper (ex_cluster ?rl)) ''rl'' = Some ?rl" by (rule Rls_ex) (simp add: ex_rl_def)
  have d: "Spec ?rl = Spec conv" "DeletionTimestamp (Meta ?rl) = None"
    by (simp_all add: ex_rl_def empty_meta_def)
  have n: "Nss (proper (ex_cluster ?rl)) '''' = None" by (simp add: ex_cluster_def proper_def)
  from converted_never_applies[OF memr.reconciler_axioms c t s d n] c show ?thesis by blast
qed

end
