(* ===== verification/Certificates.thy ===== *)
theory Certificates
  imports Prelude
begin

text \<open>
  The certificates of the webhook server, \<open>generateCert\<close> in \<open>pkg/cmd/cert.go\<close>: a self-signed CA and a
  server certificate signed with it. Keys, signatures, time and the PEM format are library code, the
  record \<open>crypto\<close>; the contract \<open>x509\<close> says what is relied on, in terms of what a reader finds in a
  PEM text.
\<close>

section \<open>Templates\<close>

datatype ext_key_usage = ExtKeyUsageClientAuth | ExtKeyUsageServerAuth
datatype key_usage = KeyUsageDigitalSignature | KeyUsageCertSign

record 't certificate =
  SerialNumber :: int
  CommonName :: string
  Organization :: "string list"
  DNSNames :: "string list"
  NotBefore :: 't
  NotAfter :: 't
  IsCA :: bool
  ExtKeyUsage :: "ext_key_usage list"
  KeyUsage :: "key_usage list"
  BasicConstraintsValid :: bool

text \<open>\<open>AddDate X t y m d\<close> is \<open>t.AddDate(y, m, d)\<close>; \<open>PemBlock\<close> is what \<open>pem.Encode\<close> writes for a block.\<close>

record ('k, 'p, 't, 'w) crypto =
  Now :: "'w \<Rightarrow> 't \<times> 'w"
  AddDate :: "'t \<Rightarrow> int \<Rightarrow> int \<Rightarrow> int \<Rightarrow> 't"
  GenerateKey :: "nat \<Rightarrow> 'w \<Rightarrow> (go_error + 'k) \<times> 'w"
  PublicKey :: "'k \<Rightarrow> 'p"
  CreateCertificate :: "'t certificate \<Rightarrow> 't certificate \<Rightarrow> 'p \<Rightarrow> 'k \<Rightarrow> 'w \<Rightarrow> (go_error + string) \<times> 'w"
  MarshalPKCS1PrivateKey :: "'k \<Rightarrow> string"
  PemBlock :: "string \<Rightarrow> string \<Rightarrow> string"

definition ca_template :: "string list \<Rightarrow> 't \<Rightarrow> 't \<Rightarrow> 't certificate" where
  "ca_template orgs notBefore notAfter =
     \<lparr>SerialNumber = 2022, CommonName = '''', Organization = orgs, DNSNames = [],
      NotBefore = notBefore, NotAfter = notAfter, IsCA = True,
      ExtKeyUsage = [ExtKeyUsageClientAuth, ExtKeyUsageServerAuth],
      KeyUsage = [KeyUsageDigitalSignature, KeyUsageCertSign], BasicConstraintsValid = True\<rparr>"

definition server_template :: "string list \<Rightarrow> string list \<Rightarrow> string \<Rightarrow> 't \<Rightarrow> 't \<Rightarrow> 't certificate" where
  "server_template orgs dnsNames commonName notBefore notAfter =
     \<lparr>SerialNumber = 1024, CommonName = commonName, Organization = orgs, DNSNames = dnsNames,
      NotBefore = notBefore, NotAfter = notAfter, IsCA = False,
      ExtKeyUsage = [ExtKeyUsageClientAuth, ExtKeyUsageServerAuth],
      KeyUsage = [KeyUsageDigitalSignature], BasicConstraintsValid = False\<rparr>"

section \<open>generateCert\<close>

text \<open>Each \<open>time.Now()\<close> reads the clock. The three results are the CA, the certificate and its key, in PEM.\<close>

definition generateCert ::
  "('k, 'p, 't, 'w) crypto \<Rightarrow> string list \<Rightarrow> string list \<Rightarrow> string \<Rightarrow> 'w \<Rightarrow>
     (go_error + string \<times> string \<times> string) \<times> 'w" where
  "generateCert X orgs dnsNames commonName w =
     (case Now X w of (t1, w1) \<Rightarrow>
     (case Now X w1 of (t2, w2) \<Rightarrow>
      let ca = ca_template orgs t1 (AddDate X t2 2 0 0)
      in case GenerateKey X 4096 w2 of
        (Inl err, w3) \<Rightarrow> (Inl err, w3)
      | (Inr caPrivateKey, w3) \<Rightarrow>
     (case CreateCertificate X ca ca (PublicKey X caPrivateKey) caPrivateKey w3 of
        (Inl err, w4) \<Rightarrow> (Inl err, w4)
      | (Inr caBytes, w4) \<Rightarrow>
      let caPEM = PemBlock X ''CERTIFICATE'' caBytes
      in case Now X w4 of (t3, w5) \<Rightarrow>
     (case Now X w5 of (t4, w6) \<Rightarrow>
      let newCert = server_template orgs dnsNames commonName t3 (AddDate X t4 2 0 0)
      in case GenerateKey X 4096 w6 of
        (Inl err, w7) \<Rightarrow> (Inl err, w7)
      | (Inr newPrivateKey, w7) \<Rightarrow>
     (case CreateCertificate X newCert ca (PublicKey X newPrivateKey) caPrivateKey w7 of
        (Inl err, w8) \<Rightarrow> (Inl err, w8)
      | (Inr newCertBytes, w8) \<Rightarrow>
      let newCertPEM = PemBlock X ''CERTIFICATE'' newCertBytes;
          newPrivateKeyPEM = PemBlock X ''RSA PRIVATE KEY'' (MarshalPKCS1PrivateKey X newPrivateKey)
      in (Inr (caPEM, newCertPEM, newPrivateKeyPEM), w8))))))"

section \<open>What a reader of the certificates relies on\<close>

record ('t, 'p) issued =
  Contents :: "'t certificate"
  SubjectKey :: 'p
  Issuer :: "string \<times> string list"
  SigningKey :: 'p

abbreviation subject :: "'t certificate \<Rightarrow> string \<times> string list" where
  "subject c \<equiv> (CommonName c, Organization c)"

locale x509 =
  fixes X :: "('k, 'p, 't, 'w) crypto"
    and read_cert :: "string \<Rightarrow> ('t, 'p) issued option"
    and read_key :: "string \<Rightarrow> 'k option"
  assumes created: "CreateCertificate X c parent pub k w = (Inr der, w') \<Longrightarrow>
      read_cert (PemBlock X ''CERTIFICATE'' der) =
        Some \<lparr>Contents = c, SubjectKey = pub, Issuer = subject parent, SigningKey = PublicKey X k\<rparr>"
    and marshalled: "read_key (PemBlock X ''RSA PRIVATE KEY'' (MarshalPKCS1PrivateKey X k)) = Some k"

text \<open>
  When a client that trusts the CA accepts the certificate for a host: the CA may sign and signed
  itself, the certificate is signed with its key, names it as the issuer, is meant for servers and
  lists the host. The times are looked at apart.
\<close>

definition chain_ok :: "('t, 'p) issued \<Rightarrow> ('t, 'p) issued \<Rightarrow> string \<Rightarrow> bool" where
  "chain_ok ca cert host \<longleftrightarrow>
     IsCA (Contents ca) \<and> BasicConstraintsValid (Contents ca) \<and> KeyUsageCertSign \<in> set (KeyUsage (Contents ca)) \<and>
     SigningKey ca = SubjectKey ca \<and> Issuer ca = subject (Contents ca) \<and>
     SigningKey cert = SubjectKey ca \<and> Issuer cert = subject (Contents ca) \<and>
     ExtKeyUsageServerAuth \<in> set (ExtKeyUsage (Contents cert)) \<and> host \<in> set (DNSNames (Contents cert))"

definition trusted :: "(string \<Rightarrow> ('t, 'p) issued option) \<Rightarrow> string \<Rightarrow> string \<Rightarrow> string \<Rightarrow> bool" where
  "trusted read_cert caPEM certPEM host \<longleftrightarrow>
     (case read_cert caPEM of None \<Rightarrow> False
      | Some ca \<Rightarrow> (case read_cert certPEM of None \<Rightarrow> False | Some cert \<Rightarrow> chain_ok ca cert host))"

text \<open>The certificate starts with the clock as it is read in \<open>w\<close>, and ends two years after the next reading.\<close>

definition two_years_from :: "('k, 'p, 't, 'w) crypto \<Rightarrow> 'w \<Rightarrow> ('t, 'p) issued \<Rightarrow> bool" where
  "two_years_from X w c \<longleftrightarrow> NotBefore (Contents c) = fst (Now X w) \<and>
     NotAfter (Contents c) = AddDate X (fst (Now X (snd (Now X w)))) 2 0 0"

context x509
begin

lemma generateCert_cases:
  assumes "generateCert X orgs dnsNames commonName w = (Inr (ca, cert, key), w')"
  obtains c s k where "read_cert ca = Some c" "read_cert cert = Some s" "read_key key = Some k"
    "SubjectKey s = PublicKey X k" "subject (Contents s) = (commonName, orgs)"
    "two_years_from X w c" "\<exists>u. two_years_from X u s" "\<And>h. h \<in> set dnsNames \<Longrightarrow> chain_ok c s h"
proof -
  from assms obtain t1 w1 t2 w2 t3 u t4 u1 u2 ck w3 w4 k w6 w7 cb sb
    where t: "Now X w = (t1, w1)" "Now X w1 = (t2, w2)" "Now X u = (t3, u1)" "Now X u1 = (t4, u2)"
      and c: "CreateCertificate X (ca_template orgs t1 (AddDate X t2 2 0 0)) (ca_template orgs t1 (AddDate X t2 2 0 0))
          (PublicKey X ck) ck w3 = (Inr cb, w4)" "ca = PemBlock X ''CERTIFICATE'' cb"
      and s: "CreateCertificate X (server_template orgs dnsNames commonName t3 (AddDate X t4 2 0 0))
          (ca_template orgs t1 (AddDate X t2 2 0 0)) (PublicKey X k) ck w6 = (Inr sb, w7)"
        "cert = PemBlock X ''CERTIFICATE'' sb"
      and k: "key = PemBlock X ''RSA PRIVATE KEY'' (MarshalPKCS1PrivateKey X k)"
    by (auto simp: generateCert_def Let_def split: prod.splits sum.splits)
  show thesis
    by (rule that[OF created[OF c(1), folded c(2)] created[OF s(1), folded s(2)] marshalled[of k, folded k]])
      (use t in \<open>auto simp: two_years_from_def chain_ok_def ca_template_def server_template_def intro!: exI[of _ u]\<close>)
qed

end

end
