(* ===== verification/Startup.thy ===== *)
theory Startup
  imports Certificates Webhook_Config Conversion_Service
begin

text \<open>
  The start of the two servers: \<open>main\<close> of \<open>pkg/cmd/main.go\<close> (the webhook server) and \<open>main\<close> of
  \<open>pkg/conversion/main.go\<close> (the conversion server), up to the point where they serve. \<open>Fatalf\<close> ends the
  process with the error; its text is a log line and left out. Environment, files, the key pair and the
  kube client are library code, the record \<open>process\<close>.
\<close>

section \<open>The outcome of a start\<close>

text \<open>\<open>Crash\<close>: a panic. \<open>Handler\<close> is what was registered with \<open>mux.HandleFunc\<close>; none of the paths ends
  in a slash, so that they match literally.\<close>

datatype handler = HandleMutate | HandleValidate | HandleConvert

record 'pair server =
  Addr :: string
  ServerCertificates :: "'pair list"
  Handler :: "(string \<times> handler) list"

datatype 'pair main_end = Fatal go_error | Crash string | Serving "'pair server"

record ('k, 'p, 't, 'w, 'pair, 'cfg, 'file) process =
  Crypto :: "('k, 'p, 't, 'w) crypto"
  X509KeyPair :: "string \<Rightarrow> string \<Rightarrow> go_error + 'pair"
  Getenv :: "string \<Rightarrow> string"
  InClusterConfig :: "'w \<Rightarrow> (go_error + 'cfg) \<times> 'w"
  BuildConfigFromFlags :: "string \<Rightarrow> string \<Rightarrow> 'w \<Rightarrow> (go_error + 'cfg) \<times> 'w"
  NewForConfig :: "'cfg \<Rightarrow> 'w \<Rightarrow> (go_error + 'w clientset) \<times> 'w"
  Open :: "string \<Rightarrow> 'w \<Rightarrow> (go_error + 'file) \<times> 'w"
  ReadAll :: "'file \<Rightarrow> 'w \<Rightarrow> (go_error + string) \<times> 'w"

text \<open>A flag that is not given keeps its default; \<open>fmt.Sprintf(":%v", port)\<close>.\<close>

definition flag_value :: "'a \<Rightarrow> 'a option \<Rightarrow> 'a" where
  "flag_value dflt given = (case given of None \<Rightarrow> dflt | Some v \<Rightarrow> v)"

fun decimal :: "nat \<Rightarrow> string" where
  "decimal n = (if n < 10 then [char_of (48 + n)] else decimal (n div 10) @ [char_of (48 + n mod 10)])"

definition listen_addr :: "int \<Rightarrow> string" where
  "listen_addr port = '':'' @ (if port < 0 then ''-'' @ decimal (nat (- port)) else decimal (nat port))"

section \<open>The webhook server\<close>

definition service_host :: "string \<Rightarrow> string \<Rightarrow> string" where
  "service_host svc ns = svc @ ''.'' @ ns @ ''.svc''"

text \<open>Lines 81 to 97: the result of \<open>InClusterConfig\<close> is overwritten at once, only its failure counts.\<close>

definition kube_client ::
  "('k, 'p, 't, 'w, 'pair, 'cfg, 'file) process \<Rightarrow> 'w \<Rightarrow> (go_error + 'w clientset) \<times> 'w" where
  "kube_client P w =
     (let kubeconfig = Getenv P ''KUBECONFIG''
      in case (if kubeconfig = ''''
               then (case InClusterConfig P w of (Inl err, w1) \<Rightarrow> (Some err, w1) | (Inr config, w1) \<Rightarrow> (None, w1))
               else (None, w)) of
        (Some err, w1) \<Rightarrow> (Inl err, w1)
      | (None, w1) \<Rightarrow>
     (case BuildConfigFromFlags P '''' kubeconfig w1 of
        (Inl err, w2) \<Rightarrow> (Inl err, w2)
      | (Inr config, w2) \<Rightarrow>
     (case NewForConfig P config w2 of
        (Inl err, w3) \<Rightarrow> (Inl err, w3)
      | (Inr clientset, w3) \<Rightarrow> (Inr clientset, w3))))"

definition webhook_main ::
  "('k, 'p, 't, 'w, 'pair, 'cfg, 'file) process \<Rightarrow> int option \<Rightarrow> string option \<Rightarrow> 'w \<Rightarrow> 'pair main_end \<times> 'w" where
  "webhook_main P port_flag service_flag w =
     (let port = flag_value 8443 port_flag;
          webhookServiceName = flag_value ''rl-checker'' service_flag;
          webhookNamespace = Getenv P ''POD_NAMESPACE'';
          dnsNames = [webhookServiceName, webhookServiceName @ ''.'' @ webhookNamespace,
            service_host webhookServiceName webhookNamespace];
          commonName = service_host webhookServiceName webhookNamespace;
          org = ''cliufreever''
      in case generateCert (Crypto P) [org] dnsNames commonName w of
        (Inl err, w1) \<Rightarrow> (Fatal err, w1)
      | (Inr (caPEM, certPEM, certKeyPEM), w1) \<Rightarrow>
     (case X509KeyPair P certPEM certKeyPEM of
        Inl err \<Rightarrow> (Fatal err, w1)
      | Inr pair \<Rightarrow>
     (case kube_client P w1 of
        (Inl err, w2) \<Rightarrow> (Fatal err, w2)
      | (Inr clientset, w2) \<Rightarrow>
     (case register_webhooks clientset caPEM webhookServiceName webhookNamespace w2 of
        (Done (Some err), w3) \<Rightarrow> (Fatal err, w3)
      | (Panicked m, w3) \<Rightarrow> (Crash m, w3)
      | (Done None, w3) \<Rightarrow>
          (Serving \<lparr>Addr = listen_addr port, ServerCertificates = [pair],
             Handler = [(WebhookMutatePath, HandleMutate), (WebhookValidatePath, HandleValidate)]\<rparr>, w3)))))"

section \<open>The conversion server\<close>

definition WebhookConvertPath :: string where [go_defs]: "WebhookConvertPath = ''/convert''"

text \<open>Opening and reading a file.\<close>

definition read_file :: "('k, 'p, 't, 'w, 'pair, 'cfg, 'file) process \<Rightarrow> string \<Rightarrow> 'w \<Rightarrow> (go_error + string) \<times> 'w" where
  "read_file P name w =
     (case Open P name w of
        (Inl err, w1) \<Rightarrow> (Inl err, w1)
      | (Inr reader, w1) \<Rightarrow>
          (case ReadAll P reader w1 of (Inl err, w2) \<Rightarrow> (Inl err, w2) | (Inr pem, w2) \<Rightarrow> (Inr pem, w2)))"

definition conversion_main ::
  "('k, 'p, 't, 'w, 'pair, 'cfg, 'file) process \<Rightarrow> int option \<Rightarrow> string option \<Rightarrow> string option \<Rightarrow> 'w \<Rightarrow>
     'pair main_end \<times> 'w" where
  "conversion_main P port_flag cert_flag key_flag w =
     (let port = flag_value 8444 port_flag;
          webhookCertFile = flag_value ''/etc/webhook/certs/cert.pem'' cert_flag;
          webhookKeyFile = flag_value ''/etc/webhook/certs/key.pem'' key_flag
      in case read_file P webhookCertFile w of
        (Inl err, w1) \<Rightarrow> (Fatal err, w1)
      | (Inr certPEM, w1) \<Rightarrow>
     (case read_file P webhookKeyFile w1 of
        (Inl err, w2) \<Rightarrow> (Fatal err, w2)
      | (Inr certKeyPEM, w2) \<Rightarrow>
     (case X509KeyPair P certPEM certKeyPEM of
        Inl err \<Rightarrow> (Fatal err, w2)
      | Inr pair \<Rightarrow>
          (Serving \<lparr>Addr = listen_addr port, ServerCertificates = [pair],
             Handler = [(WebhookConvertPath, HandleConvert)]\<rparr>, w2))))"

section \<open>What the process relies on\<close>

text \<open>
  \<open>pair_cert\<close> is the certificate a key pair presents. Every client that \<open>NewForConfig\<close> makes talks to
  the same API server, the one \<open>CS\<close> talks to.
\<close>

locale webhook_process =
  x509 "Crypto P" read_cert read_key + webhook_api CS mstored vstored dflt
  for P :: "('k, 'p, 't, 'w, 'pair, 'cfg, 'file) process" and read_cert read_key CS mstored vstored dflt +
  fixes pair_cert :: "'pair \<Rightarrow> string"
  assumes key_pair: "X509KeyPair P c k = Inr p \<Longrightarrow> pair_cert p = c"
    and new_client: "NewForConfig P cfg w = (Inr CS', w') \<Longrightarrow> CS' = CS"
begin

lemma webhook_main_serving:
  assumes "webhook_main P pf sf w = (Serving srv, w')"
  obtains ca cert key pair w1 w2 where
    "generateCert (Crypto P) [''cliufreever''] [flag_value ''rl-checker'' sf, flag_value ''rl-checker'' sf @ ''.'' @ Getenv P ''POD_NAMESPACE'',
       service_host (flag_value ''rl-checker'' sf) (Getenv P ''POD_NAMESPACE'')]
       (service_host (flag_value ''rl-checker'' sf) (Getenv P ''POD_NAMESPACE'')) w = (Inr (ca, cert, key), w1)"
    "X509KeyPair P cert key = Inr pair"
    "register_webhooks CS ca (flag_value ''rl-checker'' sf) (Getenv P ''POD_NAMESPACE'') w2 = (Done None, w')"
    "ServerCertificates srv = [pair]"
    "Handler srv = [(WebhookMutatePath, HandleMutate), (WebhookValidatePath, HandleValidate)]"
proof -
  from assms obtain ca cert key w1 pair CS' w2 where
    g: "generateCert (Crypto P) [''cliufreever''] [flag_value ''rl-checker'' sf, flag_value ''rl-checker'' sf @ ''.'' @ Getenv P ''POD_NAMESPACE'',
       service_host (flag_value ''rl-checker'' sf) (Getenv P ''POD_NAMESPACE'')]
       (service_host (flag_value ''rl-checker'' sf) (Getenv P ''POD_NAMESPACE'')) w = (Inr (ca, cert, key), w1)"
    and p: "X509KeyPair P cert key = Inr pair" and k: "kube_client P w1 = (Inr CS', w2)"
    and r: "register_webhooks CS' ca (flag_value ''rl-checker'' sf) (Getenv P ''POD_NAMESPACE'') w2 = (Done None, w')"
    and s: "ServerCertificates srv = [pair]"
      "Handler srv = [(WebhookMutatePath, HandleMutate), (WebhookValidatePath, HandleValidate)]"
    by (auto simp: webhook_main_def Let_def split: prod.splits sum.splits outcome.splits option.splits)
  from k have "CS' = CS"
    by (auto simp: kube_client_def Let_def dest: new_client split: prod.splits sum.splits option.splits if_splits)
  with g p r s show thesis by (intro that) simp_all
qed

end

text \<open>
  What the API server needs to call a webhook: the service names a path the server routes to the handler,
  and the certificate is trusted, under the CA bundle of the webhook, for the host name of the service.
\<close>

definition callable ::
  "(string \<Rightarrow> ('t, 'p) issued option) \<Rightarrow> ('pair \<Rightarrow> string) \<Rightarrow> 'pair server \<Rightarrow> Webhook \<Rightarrow> handler \<Rightarrow> bool" where
  "callable read_cert pair_cert srv h target \<longleftrightarrow>
     (\<exists>s path p. Service h = Some s \<and> SvcPath s = Some path \<and> map_of (Handler srv) path = Some target \<and>
        ServerCertificates srv = [p] \<and>
        trusted read_cert (CABundle h) (pair_cert p) (service_host (SvcName s) (SvcNamespace s)))"

context webhook_process
begin

lemma callable_essence:
  assumes "essence h = (ca, Some (svc, ns, Some path))" and "ServerCertificates srv = [p]"
    and "map_of (Handler srv) path = Some target" and "trusted read_cert ca (pair_cert p) (service_host svc ns)"
  shows "callable read_cert pair_cert srv h target"
  using assms by (auto simp: callable_def essence_def)

lemma main_callable:
  assumes "webhook_main P pf sf w = (Serving srv, w')"
  shows "(\<exists>c h. mstored w' (initialConfigName @ ''-mutate'') = Some c \<and> Webhooks c = [h] \<and>
      callable read_cert pair_cert srv h HandleMutate) \<and>
    (\<exists>c h. vstored w' ((initialConfigName @ ''-mutate'') @ ''-validate'') = Some c \<and> Webhooks c = [h] \<and>
      callable read_cert pair_cert srv h HandleValidate)"
proof (rule webhook_main_serving[OF assms])
  fix ca cert key pair w1 w2
  let ?svc = "flag_value ''rl-checker'' sf" and ?ns = "Getenv P ''POD_NAMESPACE''"
  assume g: "generateCert (Crypto P) [''cliufreever''] [?svc, ?svc @ ''.'' @ ?ns, service_host ?svc ?ns] (service_host ?svc ?ns) w =
      (Inr (ca, cert, key), w1)"
    and p: "X509KeyPair P cert key = Inr pair" and r: "register_webhooks CS ca ?svc ?ns w2 = (Done None, w')"
    and s: "ServerCertificates srv = [pair]"
      "Handler srv = [(WebhookMutatePath, HandleMutate), (WebhookValidatePath, HandleValidate)]"
  have t: "trusted read_cert ca (pair_cert pair) (service_host ?svc ?ns)"
    by (rule generateCert_cases[OF g]) (simp add: trusted_def key_pair[OF p])
  have m: "map_of (Handler srv) WebhookMutatePath = Some HandleMutate"
    "map_of (Handler srv) WebhookValidatePath = Some HandleValidate"
    by (simp_all add: s(2) WebhookMutatePath_def WebhookValidatePath_def)
  from register_ok[OF r] show ?thesis
    using callable_essence[OF _ s(1) m(1) t] callable_essence[OF _ s(1) m(2) t] by (auto simp: Cons_eq_map_conv)
qed

end

end
