(* ===== verification/Manager.thy ===== *)
theory Manager
  imports Reconciler Startup
begin

text \<open>
  How the controller gets to run: the scheme the API types are registered in
  (\<open>api/*/groupversion_info.go\<close> and the \<open>init\<close> functions), \<open>SetupWithManager\<close>
  (\<open>controllers/resourcelimiter_controller.go\<close>) and \<open>main\<close> of \<open>main.go\<close>. The manager, its health checks
  and the builder's \<open>Complete\<close> are library code, the record \<open>manager_lib\<close>; a failure of any of them ends
  the process with status 1.
\<close>

section \<open>The schemes\<close>

record GroupVersion =
  Group :: string
  GVersion :: string

text \<open>
  A scheme maps kinds to Go types; the types of the program go by version and name. Schemes are library
  values: \<open>AddLibrary\<close> is \<open>AddToScheme\<close> of an imported package, by its import path, and \<open>AddTypes\<close> is
  \<open>AddToScheme\<close> of a builder with its group version and the types it was given.
\<close>

record 's scheme_lib =
  NewScheme :: 's
  AddLibrary :: "string \<Rightarrow> 's \<Rightarrow> go_error option \<times> 's"
  AddTypes :: "GroupVersion \<Rightarrow> string list \<Rightarrow> 's \<Rightarrow> go_error option \<times> 's"

definition GroupVersion1 :: GroupVersion where
  "GroupVersion1 = \<lparr>Group = ''resources.resourcelimiter.io'', GVersion = ''v1beta1''\<rparr>"

definition GroupVersion2 :: GroupVersion where
  "GroupVersion2 = \<lparr>Group = ''resources.resourcelimiter.io'', GVersion = ''v1beta2''\<rparr>"

text \<open>What \<open>SchemeBuilder.Register\<close> has collected by the time it is used.\<close>

definition registered1 :: "string list" where
  "registered1 = [''ResourceLimiter'', ''ResourceLimiterList'']"

definition registered2 :: "string list" where
  "registered2 = [''ResourceLimiter'', ''ResourceLimiterList'']"

definition AddToScheme1 :: "'s scheme_lib \<Rightarrow> 's \<Rightarrow> go_error option \<times> 's" where
  "AddToScheme1 SL s = AddTypes SL GroupVersion1 registered1 s"

definition AddToScheme2 :: "'s scheme_lib \<Rightarrow> 's \<Rightarrow> go_error option \<times> 's" where
  "AddToScheme2 SL s = AddTypes SL GroupVersion2 registered2 s"

text \<open>\<open>init\<close> of \<open>main.go\<close>: \<open>utilruntime.Must\<close> panics with the error it is given (\<open>Inl\<close>).\<close>

definition manager_scheme :: "'s scheme_lib \<Rightarrow> go_error + 's" where
  "manager_scheme SL =
     (case AddLibrary SL ''k8s.io/client-go/kubernetes/scheme'' (NewScheme SL) of
        (Some err, s) \<Rightarrow> Inl err
      | (None, s) \<Rightarrow>
     (case AddToScheme1 SL s of
        (Some err, s) \<Rightarrow> Inl err
      | (None, s) \<Rightarrow>
     (case AddToScheme2 SL s of
        (Some err, s) \<Rightarrow> Inl err
      | (None, s) \<Rightarrow> Inr s)))"

text \<open>\<open>init\<close> of the two servers, from an empty \<open>runtimeScheme\<close>: the errors are dropped.\<close>

definition server_scheme :: "'s scheme_lib \<Rightarrow> 's" where
  "server_scheme SL =
     (let s1 = snd (AddLibrary SL ''k8s.io/api/core/v1'' (NewScheme SL));
          s2 = snd (AddLibrary SL ''k8s.io/api/admissionregistration/v1'' s1);
          s3 = snd (AddLibrary SL ''k8s.io/api/apps/v1'' s2);
          s4 = snd (AddToScheme1 SL s3)
      in snd (AddToScheme2 SL s4))"

section \<open>SetupWithManager\<close>

definition ResourceLimiterKind :: "GroupVersion \<times> string" where
  "ResourceLimiterKind = (GroupVersion2, ''ResourceLimiter'')"

definition ResourceQuotaKind :: "GroupVersion \<times> string" where
  "ResourceQuotaKind = (\<lparr>Group = '''', GVersion = ''v1''\<rparr>, ''ResourceQuota'')"

text \<open>The reconciled kind, and a watched one whose events are turned into requests for its owners.\<close>

record controller_setup =
  MaxConcurrentReconciles :: nat
  For :: "GroupVersion \<times> string"
  WatchedKind :: "GroupVersion \<times> string"
  IsController :: bool
  OwnerType :: "GroupVersion \<times> string"
  EventFilter :: "event \<Rightarrow> bool"

definition concurrentWorkers :: nat where "concurrentWorkers = 1"

definition controller_builder :: controller_setup where
  "controller_builder = \<lparr>MaxConcurrentReconciles = concurrentWorkers, For = ResourceLimiterKind,
     WatchedKind = ResourceQuotaKind, IsController = True, OwnerType = ResourceLimiterKind,
     EventFilter = eventPredicate\<rparr>"

definition SetupWithManager :: "(controller_setup \<Rightarrow> 'w \<Rightarrow> go_error option \<times> 'w) \<Rightarrow> 'w \<Rightarrow> go_error option \<times> 'w" where
  "SetupWithManager Complete w = Complete controller_builder w"

section \<open>main\<close>

record 's manager_options =
  Scheme :: 's
  MetricsBindAddress :: string
  Port :: int
  HealthProbeBindAddress :: string
  LeaderElection :: bool
  LeaderElectionID :: string

record ('s, 'cfg, 'mgr, 'w) manager_lib =
  GetConfig :: "'w \<Rightarrow> (go_error + 'cfg) \<times> 'w"
  NewManager :: "'cfg \<Rightarrow> 's manager_options \<Rightarrow> 'w \<Rightarrow> (go_error + 'mgr) \<times> 'w"
  CompleteController :: "'mgr \<Rightarrow> controller_setup \<Rightarrow> 'w \<Rightarrow> go_error option \<times> 'w"
  AddHealthzCheck :: "'mgr \<Rightarrow> string \<Rightarrow> 'w \<Rightarrow> go_error option \<times> 'w"
  AddReadyzCheck :: "'mgr \<Rightarrow> string \<Rightarrow> 'w \<Rightarrow> go_error option \<times> 'w"
  StartManager :: "'mgr \<Rightarrow> 'w \<Rightarrow> go_error option \<times> 'w"

text \<open>The exit status. \<open>StartManager\<close> returns when the manager has stopped.\<close>

definition manager_main ::
  "('s, 'cfg, 'mgr, 'w) manager_lib \<Rightarrow> 's \<Rightarrow> string option \<Rightarrow> string option \<Rightarrow> bool option \<Rightarrow> 'w \<Rightarrow> nat \<times> 'w" where
  "manager_main ML scheme metrics_flag probe_flag leader_flag w =
     (let metricsAddr = flag_value '':8080'' metrics_flag;
          probeAddr = flag_value '':8081'' probe_flag;
          enableLeaderElection = flag_value False leader_flag
      in case GetConfig ML w of
        (Inl err, w1) \<Rightarrow> (1, w1)
      | (Inr config, w1) \<Rightarrow>
     (case NewManager ML config \<lparr>Scheme = scheme, MetricsBindAddress = metricsAddr, Port = 9443,
          HealthProbeBindAddress = probeAddr, LeaderElection = enableLeaderElection,
          LeaderElectionID = ''a35675f9.resourcelimiter.io''\<rparr> w1 of
        (Inl err, w2) \<Rightarrow> (1, w2)
      | (Inr mgr, w2) \<Rightarrow>
     (case SetupWithManager (CompleteController ML mgr) w2 of
        (Some err, w3) \<Rightarrow> (1, w3)
      | (None, w3) \<Rightarrow>
     (case AddHealthzCheck ML mgr ''healthz'' w3 of
        (Some err, w4) \<Rightarrow> (1, w4)
      | (None, w4) \<Rightarrow>
     (case AddReadyzCheck ML mgr ''readyz'' w4 of
        (Some err, w5) \<Rightarrow> (1, w5)
      | (None, w5) \<Rightarrow>
     (case StartManager ML mgr w5 of
        (Some err, w6) \<Rightarrow> (1, w6)
      | (None, w6) \<Rightarrow> (0, w6)))))))"

text \<open>The process: the package's \<open>init\<close>, then \<open>main\<close>. A panic ends it with status 2.\<close>

definition manager_process ::
  "'s scheme_lib \<Rightarrow> ('s, 'cfg, 'mgr, 'w) manager_lib \<Rightarrow> string option \<Rightarrow> string option \<Rightarrow> bool option \<Rightarrow>
     'w \<Rightarrow> nat \<times> 'w" where
  "manager_process SL ML metrics_flag probe_flag leader_flag w =
     (case manager_scheme SL of
        Inl err \<Rightarrow> (2, w)
      | Inr scheme \<Rightarrow> manager_main ML scheme metrics_flag probe_flag leader_flag w)"

section \<open>Laws\<close>

text \<open>What a scheme promises: an addition that succeeds makes the types known, and none makes others
  unknown.\<close>

locale schemes =
  fixes SL :: "'s scheme_lib" and knows :: "'s \<Rightarrow> GroupVersion \<times> string \<Rightarrow> bool"
  assumes AddTypes_knows: "AddTypes SL gv ts s = (None, s') \<Longrightarrow> t \<in> set ts \<Longrightarrow> knows s' (gv, t)"
    and AddTypes_keeps: "AddTypes SL gv ts s = (e, s') \<Longrightarrow> knows s k \<Longrightarrow> knows s' k"
    and AddLibrary_keeps: "AddLibrary SL p s = (e, s') \<Longrightarrow> knows s k \<Longrightarrow> knows s' k"
begin

text \<open>A process whose \<open>init\<close> does not panic has both versions of the kind in its scheme, and so the kind
  the controller is set up for.\<close>

lemma manager_scheme_knows:
  assumes "manager_scheme SL = Inr s" and "v \<in> {GroupVersion1, GroupVersion2}"
  shows "knows s (v, ''ResourceLimiter'')"
proof -
  from assms(1) obtain s0 s1 where s: "AddTypes SL GroupVersion1 registered1 s0 = (None, s1)"
    "AddTypes SL GroupVersion2 registered2 s1 = (None, s)"
    by (auto simp: manager_scheme_def AddToScheme1_def AddToScheme2_def split: prod.splits option.splits)
  have "knows s1 (GroupVersion1, ''ResourceLimiter'')"
    by (rule AddTypes_knows[OF s(1)]) (simp add: registered1_def)
  from AddTypes_keeps[OF s(2) this] AddTypes_knows[OF s(2), of "''ResourceLimiter''"] assms(2)
  show ?thesis by (auto simp: registered2_def)
qed

lemma controller_kind_known: "manager_scheme SL = Inr s \<Longrightarrow> knows s (For controller_builder)"
  using manager_scheme_knows[of s GroupVersion2] by (simp add: controller_builder_def ResourceLimiterKind_def)

end

text \<open>A scheme as the list of the kinds it knows.\<close>

definition list_schemes :: "(GroupVersion \<times> string) list scheme_lib" where
  "list_schemes = \<lparr>NewScheme = [], AddLibrary = (\<lambda>p s. (None, s)),
     AddTypes = (\<lambda>gv ts s. (None, s @ map (Pair gv) ts))\<rparr>"

interpretation lists: schemes list_schemes "\<lambda>s k. k \<in> set s"
  by unfold_locales (auto simp: list_schemes_def)

lemma list_schemes_manager:
  "manager_scheme list_schemes = Inr (map (Pair GroupVersion1) registered1 @ map (Pair GroupVersion2) registered2)"
  by (simp add: manager_scheme_def AddToScheme1_def AddToScheme2_def list_schemes_def)

lemma manager_main_status: "fst (manager_main ML scheme mf pf lf w) \<in> {0, 1}"
  by (simp add: manager_main_def Let_def split: prod.splits sum.splits option.splits)

text \<open>The manager is started only with the controller set up and both checks in place.\<close>

lemma manager_main_ok:
  assumes "manager_main ML scheme mf pf lf w = (0, w')"
  obtains mgr w2 w3 w4 w5 where "CompleteController ML mgr controller_builder w2 = (None, w3)"
    "AddHealthzCheck ML mgr ''healthz'' w3 = (None, w4)" "AddReadyzCheck ML mgr ''readyz'' w4 = (None, w5)"
    "StartManager ML mgr w5 = (None, w')"
  using assms by (auto simp: manager_main_def SetupWithManager_def Let_def split: prod.splits sum.splits option.splits)

end
