(* ===== verification/Call_Steps.thy ===== *)
theory Call_Steps
  imports Reconciler_Spec
begin

text \<open>
  What a run does is a sequence of calls. \<open>call_step C\<close> is one call of a client; every function of the
  controller moves the world along such steps only, so that what every call keeps, every run keeps. A
  client can be tapped: whatever it is called for, a component added to the world is told the worlds before
  and after. The contracts of the API hold for a tapped client as for the client itself.
\<close>

section \<open>Steps\<close>

inductive call_step :: "('q, 'w) client \<Rightarrow> 'w \<Rightarrow> 'w \<Rightarrow> bool" for C where
  step_get_rl: "get_rl C n w = (a, w') \<Longrightarrow> call_step C w w'"
| step_patch_rl: "patch_rl C b x w = (e, w') \<Longrightarrow> call_step C w w'"
| step_status: "update_status C x w = (e, w') \<Longrightarrow> call_step C w w'"
| step_get_ns: "get_ns C k w = (a1, w') \<Longrightarrow> call_step C w w'"
| step_update_ns: "update_ns C m w = (e, w') \<Longrightarrow> call_step C w w'"
| step_get_rq: "get_rq C k w = (a2, w') \<Longrightarrow> call_step C w w'"
| step_create_rq: "create_rq C q w = (e, w') \<Longrightarrow> call_step C w w'"
| step_update_rq: "update_rq C q w = (e, w') \<Longrightarrow> call_step C w w'"
| step_delete_rq: "delete_rq C q w = (e, w') \<Longrightarrow> call_step C w w'"

abbreviation calls :: "('q, 'w) client \<Rightarrow> 'w \<Rightarrow> 'w \<Rightarrow> bool" where
  "calls C \<equiv> (call_step C)\<^sup>*\<^sup>*"

lemma one_call:
  "get_rl C n w = (a, w') \<Longrightarrow> calls C w w'" "patch_rl C b x w = (e, w') \<Longrightarrow> calls C w w'"
  "update_status C x w = (e, w') \<Longrightarrow> calls C w w'" "get_ns C k w = (a1, w') \<Longrightarrow> calls C w w'"
  "update_ns C m w = (e, w') \<Longrightarrow> calls C w w'" "get_rq C k w = (a2, w') \<Longrightarrow> calls C w w'"
  "create_rq C q w = (e, w') \<Longrightarrow> calls C w w'" "update_rq C q w = (e, w') \<Longrightarrow> calls C w w'"
  "delete_rq C q w = (e, w') \<Longrightarrow> calls C w w'"
  by (blast intro: call_step.intros)+

lemma calls_keep:
  assumes "calls C w w'" and "I w" and "\<And>u v. call_step C u v \<Longrightarrow> I u \<Longrightarrow> I v"
  shows "I w'"
  using assms by (induction rule: rtranclp_induct) blast+

section \<open>The controller makes calls only\<close>

lemma create_quota_calls: "create_quota C L rl q w = (r, w') \<Longrightarrow> calls C w w'"
  by (auto simp: create_quota_def Let_def split: sum.splits prod.splits option.splits dest: one_call)

lemma update_quota_calls: "update_quota C L rq q s w = (r, w') \<Longrightarrow> calls C w w'"
  by (auto simp: update_quota_def Let_def split: sum.splits prod.splits option.splits dest: one_call)

lemma apply_quota_calls: "apply_quota C L rl q s w = (r, w') \<Longrightarrow> calls C w w'"
  by (auto simp: apply_quota_def split: sum.splits prod.splits if_splits
    dest!: one_call(6) create_quota_calls update_quota_calls elim: rtranclp_trans)

lemma remove_quota_calls: "remove_quota C q s w = (r, w') \<Longrightarrow> calls C w w'"
  by (auto simp: remove_quota_def split: sum.splits prod.splits if_splits option.splits
    dest!: one_call(6,9) elim: rtranclp_trans)

lemma reconcile_quota_calls: "reconcile_quota C L rl q s w = (r, w') \<Longrightarrow> calls C w w'"
  by (auto simp: reconcile_quota_def split: sum.splits prod.splits if_splits option.splits
    dest!: one_call(4,5) apply_quota_calls remove_quota_calls elim: rtranclp_trans)

lemma delete_quota_calls: "delete_quota C q s w = (r, w') \<Longrightarrow> calls C w w'"
  by (auto simp: delete_quota_def split: sum.splits prod.splits if_splits option.splits
    dest!: one_call(4,5,6,9) elim: rtranclp_trans)

lemma for_loop_calls:
  assumes "\<And>x s w r w'. body x s w = (r, w') \<Longrightarrow> calls C w w'" and "for_loop body xs s w = (r, w')"
  shows "calls C w w'"
  by (rule for_loop_invariant[where I = "calls C w", OF assms(2)]) (auto dest: assms(1) elim: rtranclp_trans)

lemma live_loop_calls: "for_loop (reconcile_quota C L rl) qs s w = (r, w') \<Longrightarrow> calls C w w'"
  by (rule for_loop_calls[where body = "reconcile_quota C L rl"]) (rule reconcile_quota_calls)

lemma delete_loop_calls: "for_loop (delete_quota C) qs s w = (r, w') \<Longrightarrow> calls C w w'"
  by (rule for_loop_calls[where body = "delete_quota C"]) (rule delete_quota_calls)

lemma updateStatus_calls: "updateStatus C rl st w = (e, w') \<Longrightarrow> calls C w w'"
  by (auto simp: updateStatus_def dest: one_call)

lemma reconcile_calls: "reconcile C L rl w = (out, w') \<Longrightarrow> calls C w w'"
  by (auto simp: reconcile_def split: prod.splits if_splits option.splits ctl.splits
    dest!: live_loop_calls updateStatus_calls elim: rtranclp_trans)

lemma remove_our_finalizer_calls: "remove_our_finalizer C L rl w = (out, w') \<Longrightarrow> calls C w w'"
  by (auto simp: remove_our_finalizer_def Let_def split: prod.splits option.splits dest: one_call)

lemma reconcileDelete_calls: "reconcileDelete C L rl w = (out, w') \<Longrightarrow> calls C w w'"
  by (auto simp: reconcileDelete_def split: prod.splits if_splits ctl.splits
    dest!: delete_loop_calls remove_our_finalizer_calls elim: rtranclp_trans)

lemma register_finalizer_calls: "register_finalizer C L n rl w = (a, w') \<Longrightarrow> calls C w w'"
  by (auto simp: register_finalizer_def Let_def split: prod.splits if_splits option.splits sum.splits
    dest!: one_call(1,2) elim: rtranclp_trans)

lemma Reconcile_calls: "Reconcile C L n w = (out, w') \<Longrightarrow> calls C w w'"
  by (auto simp: Reconcile_def split: prod.splits if_splits sum.splits
    dest!: one_call(1) register_finalizer_calls reconcileDelete_calls reconcile_calls elim: rtranclp_trans)


section \<open>Tapped clients\<close>

definition tap :: "('w \<Rightarrow> 'w \<Rightarrow> 's \<Rightarrow> 's) \<Rightarrow> ('w \<Rightarrow> 'a \<times> 'w) \<Rightarrow> 'w \<times> 's \<Rightarrow> 'a \<times> ('w \<times> 's)" where
  "tap g f u = (case f (fst u) of (a, w) \<Rightarrow> (a, w, g (fst u) w (snd u)))"

definition tapped :: "('w \<Rightarrow> 'w \<Rightarrow> 's \<Rightarrow> 's) \<Rightarrow> ('q, 'w) client \<Rightarrow> ('q, 'w \<times> 's) client" where
  "tapped g C =
     \<lparr>get_rl = \<lambda>n. tap g (get_rl C n), patch_rl = \<lambda>b x. tap g (patch_rl C b x),
      update_status = \<lambda>x. tap g (update_status C x), get_ns = \<lambda>k. tap g (get_ns C k),
      update_ns = \<lambda>m. tap g (update_ns C m), get_rq = \<lambda>k. tap g (get_rq C k),
      create_rq = \<lambda>q. tap g (create_rq C q), update_rq = \<lambda>q. tap g (update_rq C q),
      delete_rq = \<lambda>q. tap g (delete_rq C q)\<rparr>"

lemma tap_eq [simp]:
  "tap g f u = (a, v) \<longleftrightarrow> f (fst u) = (a, fst v) \<and> snd v = g (fst u) (fst v) (snd u)"
  by (cases v) (auto simp: tap_def split: prod.splits)

lemma fst_tap [simp]: "fst (tap g f u) = fst (f (fst u))"
  by (simp add: tap_def split: prod.splits)

lemma tapped_sel [simp]:
  "get_rl (tapped g C) n = tap g (get_rl C n)" "patch_rl (tapped g C) b x = tap g (patch_rl C b x)"
  "update_status (tapped g C) x = tap g (update_status C x)" "get_ns (tapped g C) k = tap g (get_ns C k)"
  "update_ns (tapped g C) m = tap g (update_ns C m)" "get_rq (tapped g C) k = tap g (get_rq C k)"
  "create_rq (tapped g C) q = tap g (create_rq C q)" "update_rq (tapped g C) q = tap g (update_rq C q)"
  "delete_rq (tapped g C) q = tap g (delete_rq C q)"
  by (simp_all add: tapped_def)

lemma tapped_step:
  "call_step (tapped g C) u v \<longleftrightarrow> call_step C (fst u) (fst v) \<and> snd v = g (fst u) (fst v) (snd u)"
proof
  show "call_step (tapped g C) u v \<Longrightarrow> call_step C (fst u) (fst v) \<and> snd v = g (fst u) (fst v) (snd u)"
    by (erule call_step.cases) (auto intro: call_step.intros)
  assume "call_step C (fst u) (fst v) \<and> snd v = g (fst u) (fst v) (snd u)"
  then show "call_step (tapped g C) u v"
    by (elim conjE call_step.cases) (auto intro: call_step.intros[where C = "tapped g C"])
qed


context kube_api
begin

lemma tapped_api: "kube_api (tapped g C) (\<lambda>u. abs (fst u))"
  by unfold_locales (auto dest: get_rl_abs get_rl_found get_rl_missing get_ns_abs get_ns_found get_ns_missing
    get_rq_abs get_rq_found get_rq_missing update_ns_ok update_ns_failed create_rq_ok create_rq_failed
    update_rq_ok update_rq_failed delete_rq_ok delete_rq_failed update_status_ok update_status_failed
    patch_rl_ok patch_rl_failed)

end

context reliable_api
begin

lemma tapped_reliable: "reliable_api (tapped g C) (\<lambda>u. abs (fst u))"
proof -
  have read: "\<exists>w'. tap g f u = (a, w')" if "\<exists>w'. f (fst u) = (a, w')" for f a u
    using that by (auto simp: tap_def)
  show ?thesis
    by (rule reliable_api.intro[OF tapped_api], unfold_locales)
      ((simp only: tapped_sel, rule read, rule get_rl_total get_ns_total get_rq_total) |
       (simp add: update_ns_total create_rq_total update_rq_total delete_rq_total update_status_total patch_rl_total))+
qed

end

end
