(* ===== verification/Reconciler_Stable.thy ===== *)
theory Reconciler_Stable
  imports Reconciler_Correct Call_Steps
begin

text \<open>
  The fixed points of the controller: in a cluster that is settled for an object, every call a run
  makes leaves the cluster as it is, and a run that has put everything in place leaves a settled
  cluster.
\<close>

definition settled :: "'q lib \<Rightarrow> string \<Rightarrow> 'q cluster \<Rightarrow> bool" where
  "settled L n c \<longleftrightarrow> (\<exists>rl. Rls c n = Some rl \<and> DeletionTimestamp (Meta rl) = None \<and> Applied (Spec rl) \<and>
     (\<forall>q \<in> set (live_quotas (Quotas (Spec rl))). converged L c q) \<and>
     Status rl = \<lparr>State = Ready, StatusQuotas =
       map (\<lambda>q. status_entry L (the (Rqs c (quota_key (NamespaceName q)))) q) (live_quotas (Quotas (Spec rl)))\<rparr> \<and>
     (MergeFrom L 1 rl = BaseCopy rl \<longrightarrow> DefaultFinalizer \<in> set (Finalizers (Meta rl))))"

section \<open>Rounds that change nothing\<close>

text \<open>
  What a run may do without being noticed: \<open>calm\<close> holds across every call that leaves the cluster as it is,
  and composes. It is more than an unchanged cluster at the end, since a change that is taken back is one.
\<close>

locale calm_reconciler = reconciler C abs L
  for C :: "('q, 'w) client" and abs :: "'w \<Rightarrow> 'q cluster" and L :: "'q lib" +
  fixes calm :: "'w \<Rightarrow> 'w \<Rightarrow> bool"
  assumes calm_refl: "calm w w" and calm_trans: "calm w w1 \<Longrightarrow> calm w1 w2 \<Longrightarrow> calm w w2"
    and calm_abs: "calm w w1 \<Longrightarrow> abs w1 = abs w"
    and calm_call: "call_step C w w1 \<Longrightarrow> abs w1 = abs w \<Longrightarrow> calm w w1"
begin

lemma calm_reads:
  "get_ns C k w = (a, w1) \<Longrightarrow> calm w w1" "get_rq C k w = (b, w1) \<Longrightarrow> calm w w1"
  "get_rl C n w = (c, w1) \<Longrightarrow> calm w w1"
  by (auto intro: calm_call call_step.intros dest: get_ns_abs get_rq_abs get_rl_abs)

lemma apply_quota_settled:
  assumes "converged L (abs w) q" and "apply_quota C L rl q s w = (r, w')"
  shows "calm w w'"
proof -
  let ?k = "quota_key (NamespaceName q)"
  from assms(1) obtain rq where rq: "Rqs (abs w) ?k = Some rq" "enforces L q rq" by (auto simp: converged_def)
  obtain a w1 where g: "get_rq C ?k w = (a, w1)" by (cases "get_rq C ?k w") blast
  note w1 = get_rqD(1)[OF g] and c1 = calm_reads(2)[OF g]
  show ?thesis
  proof (cases a)
    case (Inl e)
    with get_rqD(3)[OF g] rq(1) have "e \<noteq> NotFound" by auto
    with assms(2) g Inl c1 show ?thesis by (simp add: apply_quota_def)
  next
    case (Inr rq1)
    with get_rqD(2)[OF g, of rq1] rq(1) have rq1: "rq1 = rq" "key_of rq = ?k" by auto
    with assms(2) g Inr have u: "update_quota C L rq q s w1 = (r, w')" by (simp add: apply_quota_def)
    show ?thesis
    proof (cases "setHard L (rq\<lparr>Hard := []\<rparr>) q")
      case (Inl m)
      with u c1 show ?thesis by (simp add: update_quota_def)
    next
      case (Inr rq2)
      from setHard_ok[OF Inr] obtain h where e: "enforces L q rq2" and h: "rq2 = rq\<lparr>Hard := h\<rparr>" by blast
      have "rq2 = rq" using enforces_unique[OF e rq(2)] h by simp
      with u Inr obtain e' where u': "update_rq C rq w1 = (e', w')"
        by (auto simp: update_quota_def Let_def split: prod.splits option.splits)
      from write_cases(3)[OF u'] w1 rq(1) rq1(2) have "abs w' = abs w1"
        by (cases "abs w") (auto simp: eff_update_rq_def fun_upd_idem)
      with c1 step_update_rq[OF u'] show ?thesis by (blast intro: calm_trans calm_call)
    qed
  qed
qed

lemma reconcile_quota_settled:
  assumes "ignored (NamespaceName q) \<or> converged L (abs w) q" and "Applied (Spec rl)"
    and "reconcile_quota C L rl q s w = (r, w')"
  shows "calm w w'"
proof (cases "ignored (NamespaceName q)")
  case True
  with assms(3) show ?thesis by (simp add: reconcile_quota_ignored calm_refl)
next
  case False
  let ?ns = "NamespaceName q"
  from False assms(1) have c: "converged L (abs w) q" by blast
  obtain a w1 where g: "get_ns C (?ns, ?ns) w = (a, w1)" by (cases "get_ns C (?ns, ?ns) w") blast
  note w1 = get_nsD(1)[OF g] and c1 = calm_reads(1)[OF g]
  show ?thesis
  proof (cases a)
    case (Inl e)
    with assms(3) g False c1 show ?thesis by (auto simp: reconcile_quota_def ignored_def)
  next
    case (Inr n)
    from get_nsD(2)[OF g Inr] have n: "Nss (abs w) ?ns = Some n" "NsName n = ?ns" by auto
    with c have "label_namespace n = n" by (auto simp: converged_def ns_enabled_def label_namespace_id)
    then obtain e w2 where u: "update_ns C n w1 = (e, w2)" "update_ns C (label_namespace n) w1 = (e, w2)"
      by (cases "update_ns C n w1") simp
    have w2: "abs w2 = abs w1"
      using write_cases(1)[OF u(1)] w1 n by (cases "abs w") (auto simp: eff_update_ns_def fun_upd_idem)
    with c1 step_update_ns[OF u(1)] have c2: "calm w w2" by (blast intro: calm_trans calm_call)
    show ?thesis
    proof (cases e)
      case None
      with assms(2,3) g Inr False u(2) have "apply_quota C L rl q s w2 = (r, w')"
        by (auto simp: reconcile_quota_def ignored_def)
      from apply_quota_settled[OF _ this] c w1 w2 c2 show ?thesis by (auto intro: calm_trans)
    next
      case (Some x)
      with assms(3) g Inr False u(2) c2 show ?thesis by (auto simp: reconcile_quota_def ignored_def)
    qed
  qed
qed

section \<open>Runs that change nothing\<close>

lemma reconcile_settled:
  assumes "Rls (abs w) (rl_name rl) = Some rl" and "Applied (Spec rl)"
    and q: "\<And>q. q \<in> set (live_quotas (Quotas (Spec rl))) \<Longrightarrow> converged L (abs w) q"
    and st: "Status rl = \<lparr>State = Ready, StatusQuotas =
       map (\<lambda>q. status_entry L (the (Rqs (abs w) (quota_key (NamespaceName q)))) q) (live_quotas (Quotas (Spec rl)))\<rparr>"
    and run: "reconcile C L rl w = (out, w')"
  shows "calm w w'"
proof -
  let ?body = "reconcile_quota C L rl" and ?qs = "Quotas (Spec rl)"
  obtain c w1 where l: "for_loop ?body ?qs [] w = (c, w1)" by (cases "for_loop ?body ?qs [] w") blast
  have w1: "calm w w1"
  proof (rule for_loop_invariant[where I = "calm w", OF l])
    fix x s u r u'
    assume "x \<in> set ?qs" "?body x s u = (r, u')" "calm w u"
    then show "calm w u'"
      using reconcile_quota_settled[of x u rl s r u'] q[of x] assms(2) calm_abs[of w u]
      by (auto simp: live_quotas_def intro: calm_trans)
  qed (rule calm_refl)
  show ?thesis
  proof (cases "\<exists>s. c = Continue s")
    case False
    with run l w1 show ?thesis by (cases c) (auto simp: reconcile_def)
  next
    case True
    then obtain s where c: "c = Continue s" by blast
    have "s = StatusQuotas (Status rl)" using applied_loop(1)[OF l[unfolded c] assms(2)] st by simp
    then have "updateStatus C rl \<lparr>State = Ready, StatusQuotas = s\<rparr> w1 = update_status C rl w1"
      using st by (cases rl) (simp add: updateStatus_def)
    with run l c assms(2) obtain e where u: "update_status C rl w1 = (e, w')"
      by (auto simp: reconcile_def split: prod.splits option.splits)
    from write_cases(5)[OF u] calm_abs[OF w1] assms(1) have "abs w' = abs w1"
      by (cases "abs w") (auto simp: eff_status_def fun_upd_idem)
    with w1 step_status[OF u] show ?thesis by (blast intro: calm_trans calm_call)
  qed
qed

lemma register_finalizer_settled:
  assumes "register_finalizer C L n rl w = (a, w')" and rl: "Rls (abs w) n = Some rl"
    and "MergeFrom L 1 rl = BaseCopy rl \<longrightarrow> DefaultFinalizer \<in> set (Finalizers (Meta rl))"
  shows "calm w w'"
proof (cases "DefaultFinalizer \<in> set (Finalizers (Meta rl))")
  case True
  with assms(1) show ?thesis by (simp add: register_finalizer_eq calm_refl)
next
  case False
  obtain e w1 where p: "patch_rl C (patch_base L rl) (with_ours rl) w = (e, w1)"
    by (cases "patch_rl C (patch_base L rl) (with_ours rl) w") blast
  have "eff_patch (patch_base L rl) (with_ours rl) (abs w) = abs w"
    using eff_patch_ours[of "abs w" rl] rl rl_name_stored[OF rl] False assms(3) by (simp add: set_rl_id)
  with patch_rl_ok[of "patch_base L rl" "with_ours rl" w w1] patch_rl_failed[of "patch_base L rl" "with_ours rl" w _ w1]
    patch_base_only p have "abs w1 = abs w" by (cases e) auto
  with step_patch_rl[OF p] have c1: "calm w w1" by (blast intro: calm_call)
  from assms(1) False p have "w' = w1 \<or> get_rl C n w1 = (a, w')"
    by (cases e) (simp_all add: register_finalizer_eq)
  with c1 show ?thesis by (blast intro: calm_trans calm_reads(3))
qed

lemma settled_run:
  assumes "settled L n (abs w)" and "Reconcile C L n w = (out, w')"
  shows "calm w w'"
proof -
  from assms(1) obtain rl where rl: "Rls (abs w) n = Some rl" "DeletionTimestamp (Meta rl) = None"
      "Applied (Spec rl)"
    and q: "\<And>q. q \<in> set (live_quotas (Quotas (Spec rl))) \<Longrightarrow> converged L (abs w) q"
    and st: "Status rl = \<lparr>State = Ready, StatusQuotas =
       map (\<lambda>q. status_entry L (the (Rqs (abs w) (quota_key (NamespaceName q)))) q) (live_quotas (Quotas (Spec rl)))\<rparr>"
    and fin: "MergeFrom L 1 rl = BaseCopy rl \<longrightarrow> DefaultFinalizer \<in> set (Finalizers (Meta rl))"
    unfolding settled_def by blast
  obtain g w0 where g: "get_rl C n w = (g, w0)" by (cases "get_rl C n w") blast
  note c0 = calm_reads(3)[OF g] and a0 = get_rlD(1)[OF g]
  show ?thesis
  proof (cases g)
    case (Inl e)
    with assms(2) g c0 show ?thesis by (simp add: Reconcile_def)
  next
    case (Inr x)
    with get_rlD(2)[OF g] rl(1) have x: "x = rl" by simp
    obtain r w1 where r: "register_finalizer C L n rl w0 = (r, w1)"
      by (cases "register_finalizer C L n rl w0") blast
    have st0: "Rls (abs w0) n = Some rl" using a0 rl(1) by simp
    have c1: "calm w0 w1" by (rule register_finalizer_settled[OF r st0 fin])
    note c01 = calm_trans[OF c0 c1]
    show ?thesis
    proof (cases r)
      case (Inl e)
      with assms(2) g \<open>g = Inr x\<close> x r c01 show ?thesis by (simp add: Reconcile_def)
    next
      case (Inr y)
      obtain rl' where w1: "abs w1 = set_rl n rl' (abs w0)" and y: "\<And>x. r = Inr x \<Longrightarrow> x = rl'"
        by (rule register_finalizer_cases[OF r st0]) blast
      have "Rls (abs w1) n = Some rl'" unfolding w1 by simp
      then have "rl' = rl" using st0 unfolding calm_abs[OF c1] by simp
      with y[OF Inr] have "y = rl" by simp
      with assms(2) g \<open>g = Inr x\<close> x r Inr rl(2) have "reconcile C L rl w1 = (out, w')"
        by (simp add: Reconcile_def)
      from reconcile_settled[OF _ rl(3) _ _ this] q st rl(1)
      have "calm w1 w'" unfolding calm_abs[OF c01] rl_name_stored[OF rl(1)] by blast
      with c01 show ?thesis by (rule calm_trans)
    qed
  qed
qed

end

text \<open>The calm that every client offers: the cluster stays as it is.\<close>

sublocale reconciler \<subseteq> still: calm_reconciler C abs L "\<lambda>w w'. abs w' = abs w"
  by unfold_locales simp_all

context reconciler
begin

lemma settled_runs: "settled L n (abs w) \<Longrightarrow> abs (after_runs C L n k w) = abs w"
proof (induction k)
  case (Suc k)
  let ?u = "after_runs C L n k w"
  have "settled L n (abs ?u)" using Suc by simp
  from still.settled_run[OF this prod.collapse[symmetric]] Suc show ?case by simp
qed simp

section \<open>Runs that settle\<close>

text \<open>The status of an object whose quotas are in place.\<close>

abbreviation full_status :: "ResourceLimiterSpec \<Rightarrow> 'q cluster \<Rightarrow> ResourceLimiterStatus" where
  "full_status sp c \<equiv> \<lparr>State = Ready, StatusQuotas =
     map (\<lambda>q. status_entry L (the (Rqs c (quota_key (NamespaceName q)))) q) (live_quotas (Quotas sp))\<rparr>"

text \<open>A pass over an object whose quotas exist reaches its end.\<close>

lemma full_pass:
  assumes run: "reconcile C L rl w = (Done None, w')" "Applied (Spec rl)" "Rls (abs w) (rl_name rl) = Some rl"
    and ex: "\<And>q. q \<in> set (live_quotas (Quotas (Spec rl))) \<Longrightarrow> Rqs (abs w) (quota_key (NamespaceName q)) \<noteq> None"
  shows "Rls (abs w') = (Rls (abs w))(rl_name rl \<mapsto> rl\<lparr>Status := full_status (Spec rl) (abs w)\<rparr>)"
    "same_usage (abs w) (abs w')"
    "effective (live_quotas (Quotas (Spec rl))) ns = Some q \<Longrightarrow> converged L (abs w') q"
proof -
  have "\<not> (\<exists>q \<in> set (live_quotas (Quotas (Spec rl))). quota_created L rl q (abs w) (abs w'))"
    using ex by (auto simp: quota_created_def)
  with reconcile_applied[OF run]
  have "Rls (abs w') = (Rls (abs w))(rl_name rl \<mapsto> rl\<lparr>Status := full_status (Spec rl) (abs w)\<rparr>) \<and>
      same_usage (abs w) (abs w') \<and>
      (\<forall>ns q. effective (live_quotas (Quotas (Spec rl))) ns = Some q \<longrightarrow> converged L (abs w') q)"
    by blast
  then show "Rls (abs w') = (Rls (abs w))(rl_name rl \<mapsto> rl\<lparr>Status := full_status (Spec rl) (abs w)\<rparr>)"
    "same_usage (abs w) (abs w')"
    "effective (live_quotas (Quotas (Spec rl))) ns = Some q \<Longrightarrow> converged L (abs w') q" by blast+
qed

lemma kept_finalizer:
  assumes "(\<forall>x. MergeFrom L 1 x = BaseCopy x) \<or> (\<forall>x. MergeFrom L 1 x = BaseRef 1)"
    and "MergeFrom L 1 rl = BaseCopy rl \<longrightarrow> P" and "MergeFrom L 1 x = BaseCopy x"
  shows P
  using assms by (metis merge_base.distinct(1))

lemma settledI:
  assumes "Rls c n = Some rl" and "DeletionTimestamp (Meta rl) = None" and "Applied (Spec rl)"
    and "\<And>q. q \<in> set (live_quotas (Quotas (Spec rl))) \<Longrightarrow> converged L c q" and "Status rl = full_status (Spec rl) c"
    and "MergeFrom L 1 rl = BaseCopy rl \<Longrightarrow> DefaultFinalizer \<in> set (Finalizers (Meta rl))"
  shows "settled L n c"
  using assms unfolding settled_def by blast

lemma settling_run:
  assumes "Reconcile C L n w = (Done None, w')" and rl: "Rls (abs w) n = Some rl"
    and "DeletionTimestamp (Meta rl) = None" and "Applied (Spec rl)"
    and dist: "distinct (map NamespaceName (live_quotas (Quotas (Spec rl))))"
    and ex: "\<And>q. q \<in> set (live_quotas (Quotas (Spec rl))) \<Longrightarrow> Rqs (abs w) (quota_key (NamespaceName q)) \<noteq> None"
    and kind: "(\<forall>x. MergeFrom L 1 x = BaseCopy x) \<or> (\<forall>x. MergeFrom L 1 x = BaseRef 1)"
  shows "settled L n (abs w')"
  using assms(1) rl
proof (cases rule: Reconcile_cases)
  case (pass rl1 w1)
  note r = registeredD[OF pass(2)]
  have n: "rl_name rl1 = n" using r(1) rl_name_stored[OF rl] by simp
  have run: "reconcile C L rl1 w1 = (Done None, w')" using pass(4) assms(3) by simp
  have ap: "Applied (Spec rl1)" using r(3) assms(4) by simp
  have st: "Rls (abs w1) (rl_name rl1) = Some rl1" using pass(1) n by simp
  have ex1: "Rqs (abs w1) (quota_key (NamespaceName q)) \<noteq> None" if "q \<in> set (live_quotas (Quotas (Spec rl1)))" for q
    using ex[of q] that pass(1) r(3) by simp
  note full = full_pass[OF run ap st ex1]
  have same: "full_status (Spec rl) (abs w1) = full_status (Spec rl) (abs w')"
    using status_lines_same[OF full(2), of "live_quotas (Quotas (Spec rl))"] ex pass(1) by simp
  show ?thesis
  proof (rule settledI)
    show "Rls (abs w') n = Some (rl1\<lparr>Status := full_status (Spec rl) (abs w1)\<rparr>)" using full(1) n r(3) by simp
    show "converged L (abs w') q" if "q \<in> set (live_quotas (Quotas (Spec (rl1\<lparr>Status := full_status (Spec rl) (abs w1)\<rparr>))))" for q
      using full(3)[of "NamespaceName q" q] effective_distinct[OF dist, of q] that r(3) by simp
    show "DefaultFinalizer \<in> set (Finalizers (Meta (rl1\<lparr>Status := full_status (Spec rl) (abs w1)\<rparr>)))"
      if "MergeFrom L 1 (rl1\<lparr>Status := full_status (Spec rl) (abs w1)\<rparr>) = BaseCopy (rl1\<lparr>Status := full_status (Spec rl) (abs w1)\<rparr>)"
      using kept_finalizer[OF kind pass(3) that] by simp
  qed (use r(2,3) assms(3,4) same in simp_all)
qed simp

end

end
