(* ===== verification/Event_Loop.thy ===== *)
theory Event_Loop
  imports Manager Reconciler_Progress Reconciler_Stable
begin

text \<open>
  The controller in its loop. \<open>SetupWithManager\<close> asks for the events of resource limiters and of the quotas
  they own, through \<open>eventPredicate\<close>; every event that passes puts the name of the resource limiter into a
  queue, and so does a run that fails. A run causes events itself, call by call. The loop is controller-runtime's
  and runs one request at a time (\<open>concurrentWorkers\<close>); here no one else writes, so that the queue holds the
  name of the object or nothing.
\<close>

section \<open>Events\<close>

text \<open>What a watch reports of an object, given its versions and itself before and after a call.\<close>

definition change_event :: "event_object \<Rightarrow> event_object \<Rightarrow> 'o option \<Rightarrow> 'o option \<Rightarrow> event option" where
  "change_event v v' old new =
     (case (old, new) of
        (None, None) \<Rightarrow> None
      | (None, Some _) \<Rightarrow> Some CreateEvent
      | (Some _, None) \<Rightarrow> Some DeleteEvent
      | (Some _, Some _) \<Rightarrow> if v = v' then None else Some (UpdateEvent v v'))"

record 'w versions =
  RlVersion :: "'w \<Rightarrow> string \<Rightarrow> event_object"
  RqVersion :: "'w \<Rightarrow> NamespacedName \<Rightarrow> event_object"

definition let_through :: "controller_setup \<Rightarrow> event option \<Rightarrow> bool" where
  "let_through S e = (case e of None \<Rightarrow> False | Some ev \<Rightarrow> EventFilter S ev)"

definition owned_by :: "string \<Rightarrow> 'q ResourceQuota option \<Rightarrow> bool" where
  "owned_by n x = (case x of None \<Rightarrow> False | Some rq \<Rightarrow> Owner rq = Some n)"

text \<open>The filter of the controller lets every change pass, provided a changed object has another resource
  version.\<close>

lemma change_passes:
  assumes "\<And>x y. old = Some x \<Longrightarrow> new = Some y \<Longrightarrow>
    if x = y then v' = v else ResourceVersion v' \<noteq> ResourceVersion v"
  shows "let_through controller_builder (change_event v v' old new) \<longleftrightarrow> new \<noteq> old"
proof (cases "\<exists>x y. old = Some x \<and> new = Some y")
  case True
  then obtain x y where xy: "old = Some x" "new = Some y" by blast
  from assms[OF this] show ?thesis
    unfolding xy by (cases "x = y") (auto simp: change_event_def let_through_def controller_builder_def)
next
  case False
  then show ?thesis
    by (cases old; cases new) (simp_all add: change_event_def let_through_def controller_builder_def)
qed

text \<open>A call from \<open>w\<close> to \<open>w'\<close> enqueues the resource limiter \<open>n\<close>.\<close>

definition wakes ::
  "controller_setup \<Rightarrow> ('w \<Rightarrow> 'q cluster) \<Rightarrow> 'w versions \<Rightarrow> string \<Rightarrow> 'w \<Rightarrow> 'w \<Rightarrow> bool" where
  "wakes S view V n w w' \<longleftrightarrow>
     For S = ResourceLimiterKind \<and>
       let_through S (change_event (RlVersion V w n) (RlVersion V w' n) (Rls (view w) n) (Rls (view w') n)) \<or>
     WatchedKind S = ResourceQuotaKind \<and> IsController S \<and> OwnerType S = ResourceLimiterKind \<and>
       (\<exists>k. (owned_by n (Rqs (view w) k) \<or> owned_by n (Rqs (view w') k)) \<and>
          let_through S (change_event (RqVersion V w k) (RqVersion V w' k) (Rqs (view w) k) (Rqs (view w') k)))"

text \<open>A client that collects the names its calls enqueue.\<close>

definition watching ::
  "controller_setup \<Rightarrow> ('w \<Rightarrow> 'q cluster) \<Rightarrow> 'w versions \<Rightarrow> ('q, 'w) client \<Rightarrow> ('q, 'w \<times> string set) client" where
  "watching S view V C = tapped (\<lambda>w w' queue. queue \<union> {n. wakes S view V n w w'}) C"

text \<open>At most \<open>k\<close> runs for \<open>n\<close>, which is queued at first; whether it still is, and the world.\<close>

primrec event_loop ::
  "controller_setup \<Rightarrow> ('w \<Rightarrow> 'q cluster) \<Rightarrow> 'w versions \<Rightarrow> ('q, 'w) client \<Rightarrow> 'q lib \<Rightarrow> string \<Rightarrow>
     nat \<Rightarrow> 'w \<Rightarrow> bool \<times> 'w" where
  "event_loop S view V C L n 0 w = (True, w)"
| "event_loop S view V C L n (Suc k) w =
     (case Reconcile (watching S view V C) L n (w, {}) of
        (out, (w', queue)) \<Rightarrow>
          if n \<in> queue \<or> out \<noteq> Done None then event_loop S view V C L n k w' else (False, w'))"

section \<open>Versions\<close>

text \<open>An API server gives an object a new resource version exactly when it changes.\<close>

definition versions_follow :: "'w versions \<Rightarrow> ('w \<Rightarrow> 'q cluster) \<Rightarrow> 'w \<Rightarrow> 'w \<Rightarrow> bool" where
  "versions_follow V view w w' \<longleftrightarrow>
     (\<forall>n x y. Rls (view w) n = Some x \<longrightarrow> Rls (view w') n = Some y \<longrightarrow>
        (if x = y then RlVersion V w' n = RlVersion V w n
         else ResourceVersion (RlVersion V w' n) \<noteq> ResourceVersion (RlVersion V w n))) \<and>
     (\<forall>k p q. Rqs (view w) k = Some p \<longrightarrow> Rqs (view w') k = Some q \<longrightarrow>
        (if p = q then RqVersion V w' k = RqVersion V w k
         else ResourceVersion (RqVersion V w' k) \<noteq> ResourceVersion (RqVersion V w k)))"

text \<open>Then an object is woken up by every change of it and of the quotas it owns, and by nothing else.\<close>

lemma wakes_change:
  assumes "versions_follow V view w w'"
  shows "wakes controller_builder view V n w w' \<longleftrightarrow> Rls (view w') n \<noteq> Rls (view w) n \<or>
    (\<exists>k. (owned_by n (Rqs (view w) k) \<or> owned_by n (Rqs (view w') k)) \<and> Rqs (view w') k \<noteq> Rqs (view w) k)"
proof -
  have 1: "let_through controller_builder (change_event (RlVersion V w n) (RlVersion V w' n) (Rls (view w) n) (Rls (view w') n))
      \<longleftrightarrow> Rls (view w') n \<noteq> Rls (view w) n"
    by (rule change_passes) (use assms[unfolded versions_follow_def] in blast)
  have 2: "let_through controller_builder (change_event (RqVersion V w k) (RqVersion V w' k) (Rqs (view w) k) (Rqs (view w') k))
      \<longleftrightarrow> Rqs (view w') k \<noteq> Rqs (view w) k" for k
    by (rule change_passes) (use assms[unfolded versions_follow_def] in blast)
  have 3: "For controller_builder = ResourceLimiterKind" "WatchedKind controller_builder = ResourceQuotaKind"
    "IsController controller_builder" "OwnerType controller_builder = ResourceLimiterKind"
    by (simp_all add: controller_builder_def)
  show ?thesis unfolding wakes_def 1 2 by (simp only: 3 simp_thms)
qed

locale versioned_api = kube_api C view for C :: "('q, 'w) client" and view :: "'w \<Rightarrow> 'q cluster" +
  fixes V :: "'w versions"
  assumes call_versions: "call_step C w w' \<Longrightarrow> versions_follow V view w w'"
begin

lemmas wakes_iff = wakes_change[OF call_versions]

abbreviation W :: "('q, 'w \<times> string set) client" where
  "W \<equiv> watching controller_builder view V C"

lemma W_step: "call_step W u v \<longleftrightarrow>
    call_step C (fst u) (fst v) \<and> snd v = snd u \<union> {n. wakes controller_builder view V n (fst u) (fst v)}"
  unfolding watching_def tapped_step ..

text \<open>As long as nothing has woken the object up, no quota it owns has changed.\<close>

lemma quiet_calls:
  assumes "calls W u v" and "n \<notin> snd v"
  shows "n \<notin> snd u" "owned_by n (Rqs (view (fst u)) k) \<or> owned_by n (Rqs (view (fst v)) k) \<Longrightarrow>
    Rqs (view (fst v)) k = Rqs (view (fst u)) k"
proof -
  have "n \<notin> snd v \<longrightarrow> n \<notin> snd u \<and> (\<forall>k. owned_by n (Rqs (view (fst u)) k) \<or> owned_by n (Rqs (view (fst v)) k) \<longrightarrow>
      Rqs (view (fst v)) k = Rqs (view (fst u)) k)"
    using assms(1)
  proof (induction rule: rtranclp_induct)
    case (step x y)
    then have s: "call_step C (fst x) (fst y)"
      "snd y = snd x \<union> {n. wakes controller_builder view V n (fst x) (fst y)}" unfolding W_step by simp_all
    show ?case unfolding s(2) Un_iff mem_Collect_eq wakes_iff[OF s(1)] using step.IH by metis
  qed simp
  with assms(2) show "n \<notin> snd u" "owned_by n (Rqs (view (fst u)) k) \<or> owned_by n (Rqs (view (fst v)) k) \<Longrightarrow>
    Rqs (view (fst v)) k = Rqs (view (fst u)) k" by blast+
qed

end

section \<open>The loop comes to rest\<close>

text \<open>How far an object is from its rest: the runs it still causes.\<close>

definition rank :: "'q lib \<Rightarrow> string \<Rightarrow> ResourceLimiterSpec \<Rightarrow> 'q cluster \<Rightarrow> nat" where
  "rank L n sp c = (if settled L n c then 0 else missing sp c + 1)"

locale event_source = reliable_reconciler C view L + versioned_api C view V
  for C :: "('q, 'w) client" and view :: "'w \<Rightarrow> 'q cluster" and L :: "'q lib" and V :: "'w versions"
begin

lemma W_reliable: "reliable_reconciler W (\<lambda>u. view (fst u)) L"
  unfolding watching_def
  by (intro reliable_reconciler.intro reconciler.intro tapped_api tapped_reliable kube_lib_axioms)

lemma W_reconciler: "reconciler W (\<lambda>u. view (fst u)) L"
  by (rule reliable_reconciler.axioms(1)[OF W_reliable])

lemma W_calm: "calm_reconciler W (\<lambda>u. view (fst u)) L
    (\<lambda>u v. view (fst v) = view (fst u) \<and> snd v = snd u)"
proof (intro calm_reconciler.intro W_reconciler calm_reconciler_axioms.intro)
  fix u v
  assume s: "call_step W u v" and "view (fst v) = view (fst u)"
  then show "view (fst v) = view (fst u) \<and> snd v = snd u"
    unfolding W_step using wakes_iff[of "fst u" "fst v"] by auto
qed auto

text \<open>In a settled cluster a run causes no event at all.\<close>

lemma silent_run:
  assumes "settled L n (view w)" and "Reconcile W L n (w, Q) = (out, (w', Q'))"
  shows "Q' = Q" "view w' = view w"
  using calm_reconciler.settled_run[OF W_calm _ assms(2)] assms(1) by simp_all

text \<open>A run that returns \<open>nil\<close> and does not enqueue its object leaves everything in place.\<close>

lemma quiet_run:
  assumes run: "Reconcile W L n (w, Q) = (Done None, (w', Q'))" and "n \<notin> Q'"
    and "runnable L n sp (view w)" and "Applied sp"
  shows "ready L n sp (view w')"
proof -
  from assms(3) obtain rl where rl: "Rls (view w) n = Some rl" "Spec rl = sp" "DeletionTimestamp (Meta rl) = None"
    by (auto simp: runnable_def)
  have no: False if "quota_created L rl q (view w) (view w')" for q
  proof -
    let ?k = "quota_key (NamespaceName q)"
    have "owned_by n (Rqs (view w') ?k)" "Rqs (view w) ?k = None"
      using that rl_name_stored[OF rl(1)] by (auto simp: quota_created_def owned_by_def)
    moreover have "Rqs (view w') ?k = Rqs (view w) ?k" if "owned_by n (Rqs (view w') ?k)"
      using quiet_calls(2)[OF Reconcile_calls[OF run], of n ?k] that assms(2) by simp
    ultimately show False by (simp add: owned_by_def)
  qed
  from reconciler.applied_run[OF W_reconciler run] rl assms(4) no show ?thesis
    unfolding ready_def by fastforce
qed

lemma settled_ready: "settled L n c \<Longrightarrow> Rls c n = Some rl \<Longrightarrow> Spec rl = sp \<Longrightarrow> ready L n sp c"
  using effective_name by (auto simp: settled_def ready_def)

text \<open>One run for \<open>n\<close>, and how it brings the object nearer to its rest.\<close>

lemma turn:
  assumes "runnable L n sp (view w)" and "Applied sp"
    and "distinct (map NamespaceName (live_quotas (Quotas sp)))"
    and kind: "(\<forall>x. MergeFrom L 1 x = BaseCopy x) \<or> (\<forall>x. MergeFrom L 1 x = BaseRef 1)"
    and run: "Reconcile W L n (w, Q) = (out, (w', Q'))" and "n \<notin> Q"
  shows "out = Done None" "runnable L n sp (view w')" "n \<notin> Q' \<Longrightarrow> ready L n sp (view w')"
    "n \<in> Q' \<Longrightarrow> rank L n sp (view w') < rank L n sp (view w)"
proof -
  note st = reliable_reconciler.progress_step[OF W_reliable _ assms(2) run, unfolded fst_conv, OF assms(1)]
  from run st(1) have run: "Reconcile W L n (w, Q) = (Done None, (w', Q'))" by simp
  from st(1,2) show "out = Done None" "runnable L n sp (view w')" .
  from quiet_run[OF run _ assms(1,2)] show "n \<notin> Q' \<Longrightarrow> ready L n sp (view w')" .
  assume "n \<in> Q'"
  with assms(6) silent_run(1)[OF _ run] have ns: "\<not> settled L n (view w)" by blast
  show "rank L n sp (view w') < rank L n sp (view w)"
  proof (cases "missing sp (view w) = 0")
    case True
    from assms(1) obtain rl where rl: "Rls (view w) n = Some rl" "Spec rl = sp"
      "DeletionTimestamp (Meta rl) = None" by (auto simp: runnable_def)
    have ex: "Rqs (view w) (quota_key (NamespaceName q)) \<noteq> None" if "q \<in> set (live_quotas (Quotas sp))" for q
      using True that missing_zero[of sp "view w"] by simp
    have "settled L n (view w')"
      using reconciler.settling_run[OF W_reconciler run, unfolded fst_conv, OF rl(1,3)] rl(2) assms(2,3) ex kind
      by simp
    with ns show ?thesis by (simp add: rank_def)
  next
    case False
    then have "missing sp (view w') < missing sp (view w)" using st(3) ready_missing by fastforce
    with ns show ?thesis by (simp add: rank_def)
  qed
qed

text \<open>Each run but the last two creates a quota.\<close>

lemma loop_rests:
  assumes "runnable L n sp (view w)" and "Applied sp"
    and "distinct (map NamespaceName (live_quotas (Quotas sp)))"
    and "(\<forall>x. MergeFrom L 1 x = BaseCopy x) \<or> (\<forall>x. MergeFrom L 1 x = BaseRef 1)"
    and "missing sp (view w) + 2 \<le> k"
  shows "\<exists>w'. event_loop controller_builder view V C L n k w = (False, w') \<and> ready L n sp (view w')"
proof -
  have "rank L n sp (view w) < k \<Longrightarrow>
      \<exists>w'. event_loop controller_builder view V C L n k w = (False, w') \<and> ready L n sp (view w')"
    using assms(1)
  proof (induction k arbitrary: w)
    case (Suc k)
    obtain out w' Q' where r: "Reconcile W L n (w, {}) = (out, (w', Q'))"
      by (cases "Reconcile W L n (w, {})") auto
    note t = turn[OF Suc.prems(2) assms(2-4) r]
    show ?case
    proof (cases "n \<in> Q'")
      case False
      with r t(1,3) show ?thesis by simp
    next
      case True
      with t(4) Suc.prems(1) Suc.IH[OF _ t(2)] r show ?thesis by simp
    qed
  qed simp
  with assms(5) show ?thesis by (simp add: rank_def split: if_splits)
qed

end

section \<open>The loop that never rests\<close>

lemma split_two:
  assumes "a \<in> set xs" and "b \<in> set xs" and "a \<noteq> b"
  obtains pre mid post where "xs = pre @ a # mid @ b # post" | pre mid post where "xs = pre @ b # mid @ a # post"
proof -
  from assms(1) obtain ys zs where xs: "xs = ys @ a # zs" by (auto dest: split_list)
  with assms(2,3) consider "b \<in> set ys" | "b \<in> set zs" by auto
  then show thesis
  proof cases
    case 1
    then obtain us vs where "ys = us @ b # vs" by (auto dest: split_list)
    with xs that(2)[of us vs zs] show thesis by simp
  next
    case 2
    then obtain us vs where "zs = us @ b # vs" by (auto dest: split_list)
    with xs that(1)[of ys us vs] show thesis by simp
  qed
qed

lemma effective_last:
  "\<not> ignored (NamespaceName q) \<Longrightarrow> effective (live_quotas (qs @ [q])) (NamespaceName q) = Some q"
  by simp

context reconciler
begin

text \<open>With all quotas in existence, a run without an error visits every entry.\<close>

lemma applied_visits:
  assumes "reconcile C L rl w = (Done None, w')" and "Applied (Spec rl)"
    and ex: "\<And>q. q \<in> set (live_quotas (Quotas (Spec rl))) \<Longrightarrow> Rqs (abs w) (quota_key (NamespaceName q)) \<noteq> None"
  obtains s w1 where "for_loop (reconcile_quota C L rl) (Quotas (Spec rl)) [] w = (Continue s, w1)"
    "calls C w1 w'"
proof -
  let ?body = "reconcile_quota C L rl" and ?qs = "Quotas (Spec rl)"
  obtain c w1 where l: "for_loop ?body ?qs [] w = (c, w1)" by (cases "for_loop ?body ?qs [] w") blast
  show thesis
  proof (cases c)
    case (Continue s)
    with assms(1,2) l obtain e where "updateStatus C rl \<lparr>State = Ready, StatusQuotas = s\<rparr> w1 = (e, w')"
      by (auto simp: reconcile_def split: prod.splits option.splits)
    from that[OF l[unfolded Continue] updateStatus_calls[OF this]] show thesis .
  next
    case (Return e)
    then have e: "e = None" using assms(1) l by (auto simp: reconcile_def)
    from for_loop_stopped[OF l] Return e obtain pre x post s1 w2
      where qs: "?qs = pre @ x # post" and p: "for_loop ?body pre [] w = (Continue s1, w2)"
        and b: "?body x s1 w2 = (Return None, w1)" by (auto simp: assms)
    from reconcile_quota_created[OF b] have "\<not> ignored (NamespaceName x)" and
      "Rqs (abs w2) (quota_key (NamespaceName x)) = None" by (simp_all add: quota_created_def)
    with same_usage_None[OF applied_loop(2)[OF p assms(2)]] ex[of x] qs show thesis by simp
  next
    case (Panic m)
    with assms(1) l show thesis by (simp add: reconcile_def)
  qed
qed

lemma two_visits:
  assumes "for_loop (reconcile_quota C L rl) (pre @ a # mid @ b # post) [] w = (Continue s, w')"
    and ap: "Applied (Spec rl)" and "\<not> ignored (NamespaceName a)" and "\<not> ignored (NamespaceName b)"
  obtains u v where "calls C w u" "calls C u v" "calls C v w'" "converged L (abs u) a" "converged L (abs v) b"
proof -
  let ?loop = "for_loop (reconcile_quota C L rl)"
  have "?loop ((pre @ [a]) @ (mid @ [b]) @ post) [] w = (Continue s, w')" using assms(1) by simp
  then obtain s1 u s2 v where 1: "?loop (pre @ [a]) [] w = (Continue s1, u)"
    and 2: "?loop (mid @ [b]) s1 u = (Continue s2, v)" and 3: "?loop post s2 v = (Continue s, w')"
    by (simp only: for_loop_append) (auto split: prod.splits ctl.splits)
  have 12: "?loop ((pre @ [a]) @ (mid @ [b])) [] w = (Continue s2, v)"
    by (subst for_loop_append) (simp only: 1 2 prod.case ctl.case)
  then have 12: "?loop ((pre @ a # mid) @ [b]) [] w = (Continue s2, v)" by simp
  have "converged L (abs u) a" by (rule applied_loop(3)[OF 1 ap effective_last[OF assms(3)]])
  moreover have "converged L (abs v) b" by (rule applied_loop(3)[OF 12 ap effective_last[OF assms(4)]])
  ultimately show thesis
    using that[of u v] live_loop_calls[OF 1] live_loop_calls[OF 2] live_loop_calls[OF 3] by blast
qed

lemma live_pass:
  assumes run: "Reconcile C L n w = (Done None, w')" and rl: "Rls (abs w) n = Some rl"
    and "DeletionTimestamp (Meta rl) = None"
  obtains rl1 w1 where "Rqs (abs w1) = Rqs (abs w)" "Spec rl1 = Spec rl" "rl_name rl1 = n"
    "Rls (abs w1) n = Some rl1" "reconcile C L rl1 w1 = (Done None, w')"
  using run rl
proof (cases rule: Reconcile_cases)
  case (pass rl1 w1)
  have "reconcile C L rl1 w1 = (Done None, w')" using pass(4) assms(3) by simp
  with that[of w1 rl1] pass(1) registeredD(1,3)[OF pass(2)] rl_name_stored[OF rl] show thesis by simp
qed simp

end

text \<open>Two entries ask for different limits of one namespace, and its quota is the object's own.\<close>

definition contradictory :: "'q lib \<Rightarrow> string \<Rightarrow> ResourceLimiterSpec \<Rightarrow> 'q cluster \<Rightarrow> bool" where
  "contradictory L n sp c \<longleftrightarrow> (\<exists>a \<in> set (live_quotas (Quotas sp)). \<exists>b \<in> set (live_quotas (Quotas sp)).
     NamespaceName a = NamespaceName b \<and> setHard L empty_rq a \<noteq> setHard L empty_rq b \<and>
     owned_by n (Rqs c (quota_key (NamespaceName a))))"

lemma enforces_both:
  fixes rq :: "'q ResourceQuota"
  assumes "enforces L a rq" and "enforces L b rq"
  shows "setHard L empty_rq a = setHard L empty_rq b"
proof -
  have e: "(empty_rq :: 'q ResourceQuota) = empty_rq\<lparr>Hard := []\<rparr>" by (simp add: empty_rq_def)
  have *: "setHard L empty_rq q = Inr (empty_rq\<lparr>Hard := Hard rq\<rparr>)" if "enforces L q rq" for q
  proof -
    from setHard_total[OF enforces_parses[OF that], of "empty_rq\<lparr>Hard := []\<rparr>"]
    obtain r where r: "setHard L (empty_rq\<lparr>Hard := []\<rparr>) q = Inr r" by blast
    from setHard_ok[OF r] obtain h where "enforces L q r" "r = empty_rq\<lparr>Hard := h\<rparr>" by blast
    with enforces_unique[OF this(1) that] r e show ?thesis by simp
  qed
  show ?thesis by (simp only: *[OF assms(1)] *[OF assms(2)])
qed

lemma contradictory_order:
  fixes c :: "'q cluster"
  assumes "contradictory L n sp c"
  obtains pre a mid b post where "Quotas sp = pre @ a # mid @ b # post" "NamespaceName b = NamespaceName a"
    "\<not> ignored (NamespaceName a)" "setHard L empty_rq a \<noteq> setHard L (empty_rq :: 'q ResourceQuota) b"
    "owned_by n (Rqs c (quota_key (NamespaceName a)))"
proof -
  from assms obtain a b where ab: "a \<in> set (Quotas sp)" "b \<in> set (Quotas sp)" "\<not> ignored (NamespaceName a)"
    and ns: "NamespaceName a = NamespaceName b" and no: "setHard L empty_rq a \<noteq> setHard L (empty_rq :: 'q ResourceQuota) b"
    and own: "owned_by n (Rqs c (quota_key (NamespaceName a)))"
    by (auto simp: contradictory_def live_quotas_def)
  from no have "a \<noteq> b" by blast
  from ab(1,2) this show thesis
  proof (rule split_two)
    fix pre mid post assume "Quotas sp = pre @ a # mid @ b # post"
    from that[OF this] ns no own ab(3) show thesis by simp
  next
    fix pre mid post assume "Quotas sp = pre @ b # mid @ a # post"
    from that[OF this] ns no own ab(3) show thesis by simp
  qed
qed

lemma contradictory_kept:
  assumes "same_usage c c'" and "contradictory L n sp c"
  shows "contradictory L n sp c'"
proof -
  have "owned_by n (Rqs c' k)" if "owned_by n (Rqs c k)" for k
    using assms(1)[unfolded same_usage_def, THEN spec, of k] that
    by (cases "Rqs c' k") (auto simp: owned_by_def split: option.splits)
  with assms(2) show ?thesis unfolding contradictory_def by blast
qed

context event_source
begin

text \<open>Such a run writes the one limit and then the other, and each write wakes the object up.\<close>

lemma restless_run:
  assumes run: "Reconcile W L n (w, Q) = (Done None, (w', Q'))"
    and "runnable L n sp (view w)" and "Applied sp" and "missing sp (view w) = 0" and "contradictory L n sp (view w)"
  shows "n \<in> Q'" "same_usage (view w) (view w')"
proof -
  let ?v = "\<lambda>u. view (fst u)"
  from assms(2) obtain rl where rl: "Rls (view w) n = Some rl" "Spec rl = sp" "DeletionTimestamp (Meta rl) = None"
    by (auto simp: runnable_def)
  from reconciler.live_pass[OF W_reconciler run, unfolded fst_conv, OF rl(1,3)] obtain rl1 u
    where u: "Rqs (?v u) = Rqs (view w)" "Spec rl1 = sp" "rl_name rl1 = n" "Rls (?v u) n = Some rl1"
      and pass: "reconcile W L rl1 u = (Done None, (w', Q'))" using rl(2) by metis
  have ex: "Rqs (?v u) (quota_key (NamespaceName q)) \<noteq> None" if "q \<in> set (live_quotas (Quotas (Spec rl1)))" for q
    using that assms(4) u(1,2) missing_zero[of sp "view w"] by simp
  have ap: "Applied (Spec rl1)" using assms(3) u(2) by simp
  from reconciler.reconcile_applied[OF W_reconciler pass ap, of rl1] u(3,4) ex
  have "same_usage (?v u) (view w')" by (auto simp: quota_created_def)
  then show "same_usage (view w) (view w')" using u(1) by (simp add: same_usage_def)
  from contradictory_order[OF assms(5)] obtain pre a mid b post
    where q: "Quotas sp = pre @ a # mid @ b # post" "NamespaceName b = NamespaceName a" "\<not> ignored (NamespaceName a)"
      and no: "setHard L empty_rq a \<noteq> setHard L empty_rq b" and own: "owned_by n (Rqs (view w) (quota_key (NamespaceName a)))"
    by metis
  obtain s w1 where l: "for_loop (reconcile_quota W L rl1) (Quotas (Spec rl1)) [] u = (Continue s, w1)"
    and end_calls: "calls W w1 (w', Q')"
    using reconciler.applied_visits[OF W_reconciler pass ap ex] by metis
  from reconciler.two_visits[OF W_reconciler l[unfolded u(2) q(1)] ap] q(2,3) obtain x y
    where c: "calls W u x" "calls W x y" "calls W y w1"
      and conv: "converged L (?v x) a" "converged L (?v y) b" by metis
  show "n \<in> Q'"
  proof (rule ccontr)
    assume nq: "n \<notin> Q'"
    let ?k = "quota_key (NamespaceName a)"
    have "n \<notin> snd y" using quiet_calls(1)[OF rtranclp_trans[OF c(3) end_calls]] nq by simp
    then have "n \<notin> snd x" using quiet_calls(1)[OF c(2)] by simp
    have "Rqs (?v x) ?k = Rqs (?v u) ?k" using quiet_calls(2)[OF c(1) \<open>n \<notin> snd x\<close>] own u(1) by simp
    moreover have "Rqs (?v y) ?k = Rqs (?v u) ?k"
      using quiet_calls(2)[OF rtranclp_trans[OF c(1,2)] \<open>n \<notin> snd y\<close>] own u(1) by simp
    ultimately obtain rq where "enforces L a rq" "enforces L b rq" using conv q(2) by (auto simp: converged_def)
    with enforces_both no show False by blast
  qed
qed

lemma loop_restless:
  assumes "runnable L n sp (view w)" and "Applied sp" and "missing sp (view w) = 0"
    and "contradictory L n sp (view w)"
  shows "fst (event_loop controller_builder view V C L n k w)"
  using assms(1,3,4)
proof (induction k arbitrary: w)
  case (Suc k)
  obtain out w' Q' where r: "Reconcile W L n (w, {}) = (out, (w', Q'))"
    by (cases "Reconcile W L n (w, {})") auto
  note st = reliable_reconciler.progress_step[OF W_reliable _ assms(2) r, unfolded fst_conv, OF Suc.prems(1)]
  from r st(1) have r: "Reconcile W L n (w, {}) = (Done None, (w', Q'))" by simp
  note rr = restless_run[OF r Suc.prems(1) assms(2) Suc.prems(2,3)]
  have "missing sp (view w') = 0"
    using Suc.prems(2) same_usage_None[OF rr(2)] by (simp add: missing_zero)
  from Suc.IH[OF st(2) this contradictory_kept[OF rr(2) Suc.prems(3)]] r rr(1) show ?case by simp
qed simp

end

end
