(* ===== verification/Event_Loop_Props.thy ===== *)
theory Event_Loop_Props
  imports Event_Loop Controller_Safety Validate
begin

text \<open>
  The properties of the controller in its loop, for every API server that keeps the contracts and versions its
  objects (\<open>event_source\<close>), and the in-memory server with versions they are tried on.
\<close>

section \<open>An in-memory API server with versions\<close>

record stamps =
  RlStamp :: "string \<Rightarrow> nat"
  RqStamp :: "NamespacedName \<Rightarrow> nat"

text \<open>Each call counts on the version of what it has changed.\<close>

definition restamp :: "'q cluster \<Rightarrow> 'q cluster \<Rightarrow> stamps \<Rightarrow> stamps" where
  "restamp c c' s =
     \<lparr>RlStamp = \<lambda>n. if Rls (proper c') n = Rls (proper c) n then RlStamp s n else Suc (RlStamp s n),
      RqStamp = \<lambda>k. if Rqs (proper c') k = Rqs (proper c) k then RqStamp s k else Suc (RqStamp s k)\<rparr>"

definition stamp_version :: "nat \<Rightarrow> event_object" where
  "stamp_version i = \<lparr>Generation = 1, ResourceVersion = replicate i CHR ''1''\<rparr>"

definition stamp_versions :: "('q cluster \<times> stamps) versions" where
  "stamp_versions = \<lparr>RlVersion = \<lambda>u n. stamp_version (RlStamp (snd u) n),
     RqVersion = \<lambda>u k. stamp_version (RqStamp (snd u) k)\<rparr>"

definition versioned_mem :: "('q, 'q cluster \<times> stamps) client" where
  "versioned_mem = tapped restamp mem_client"

lemma restamp_follows: "versions_follow stamp_versions (\<lambda>u. proper (fst u)) (c, s) (c', restamp c c' s)"
  by (auto simp: versions_follow_def stamp_versions_def stamp_version_def restamp_def)

interpretation memv: versioned_api versioned_mem "\<lambda>u. proper (fst u)" stamp_versions
proof (intro versioned_api.intro versioned_api_axioms.intro)
  show "kube_api versioned_mem (\<lambda>u. proper (fst u))"
    unfolding versioned_mem_def by (rule mem.tapped_api)
  fix u v :: "'a cluster \<times> stamps"
  assume "call_step versioned_mem u v"
  then have "snd v = restamp (fst u) (fst v) (snd u)" by (simp add: versioned_mem_def tapped_step)
  with restamp_follows[of "fst u" "snd u" "fst v"]
  show "versions_follow stamp_versions (\<lambda>u. proper (fst u)) u v" by (metis prod.collapse)
qed

interpretation meme: event_source versioned_mem "\<lambda>u. proper (fst u)" mem_lib stamp_versions
proof (intro event_source.intro reliable_reconciler.intro reconciler.intro memv.versioned_api_axioms
    memv.kube_api_axioms memlib.kube_lib_axioms)
  show "reliable_api versioned_mem (\<lambda>u. proper (fst u))"
    unfolding versioned_mem_def by (rule mem.tapped_reliable)
qed

section \<open>The loop comes to rest\<close>

text \<open>The event loop quiesces. If nothing fails without a reason, the listed namespaces exist, are listed
  once and ask for quantities that parse, then the controller, woken up by the events of its own calls,
  stops after at most two more runs than there are missing quotas, with an empty queue, the status
  \<open>ready\<close> and every quota in place.\<close>

theorem event_loop_rests:
  assumes "event_source C view L V" and "runnable L n sp (view w)" and "Applied sp"
    and "distinct (map NamespaceName (live_quotas (Quotas sp)))"
    and "(\<forall>x. MergeFrom L 1 x = BaseCopy x) \<or> (\<forall>x. MergeFrom L 1 x = BaseRef 1)"
    and "missing sp (view w) + 2 \<le> k"
  shows "\<exists>w'. event_loop controller_builder view V C L n k w = (False, w') \<and> ready L n sp (view w')"
  by (rule event_source.loop_rests[OF assms])

abbreviation stamp0 :: stamps where
  "stamp0 \<equiv> \<lparr>RlStamp = \<lambda>n. 0, RqStamp = \<lambda>k. 0\<rparr>"

theorem event_loop_rests_witness:
  "\<exists>w'. event_loop controller_builder (\<lambda>u. proper (fst u)) stamp_versions versioned_mem mem_lib ''rl'' 3
      (ex_cluster ex_rl, stamp0) = (False, w') \<and> ready mem_lib ''rl'' (Spec ex_rl) (proper (fst w'))"
proof -
  let ?w = "(ex_cluster ex_rl, stamp0)"
  have q: "live_quotas (Quotas (Spec ex_rl)) = [ex_quota]"
    by (simp add: ex_rl_def ex_quota_def ignored_def go_defs)
  have r: "runnable mem_lib ''rl'' (Spec ex_rl) (proper (fst ?w))"
    unfolding runnable_def q using Rls_ex(1)[OF rl_name_ex(1)]
    by (auto simp: ex_cluster_def proper_def ex_ns_def ex_quota_def parses_def mem_lib_def
      ex_rl_def empty_meta_def)
  have "card {ns \<in> NamespaceName ` set [ex_quota]. Rqs (proper (fst ?w)) (quota_key ns) = None}
      \<le> card (NamespaceName ` set [ex_quota])" by (rule card_mono) auto
  then have m: "missing (Spec ex_rl) (proper (fst ?w)) + 2 \<le> 3" unfolding missing_def q by simp
  have a: "Applied (Spec ex_rl)" by (simp add: ex_rl_def)
  have d: "distinct (map NamespaceName (live_quotas (Quotas (Spec ex_rl))))" by (simp add: q)
  have k: "(\<forall>x. MergeFrom mem_lib 1 x = BaseCopy x) \<or> (\<forall>x. MergeFrom mem_lib 1 x = BaseRef 1)"
    by (simp add: mem_lib_def)
  show ?thesis by (rule event_loop_rests[OF meme.event_source_axioms r a d k m])
qed

section \<open>The loop that never rests\<close>

text \<open>C29: a namespace listed twice with different limits keeps the controller busy for ever, even if nothing
  fails. The object is live and applied, its namespaces exist, its quantities parse, all its quotas are there, and that of the
  namespace listed twice is its own: every run writes this quota twice, once for each entry, and the events of these writes queue
  the object again. The validating webhook does not refuse such an object.\<close>

theorem event_loop_livelock:
  assumes "event_source C view L V" and "runnable L n sp (view w)" and "Applied sp"
    and "missing sp (view w) = 0" and "contradictory L n sp (view w)"
  shows "fst (event_loop controller_builder view V C L n k w)"
  by (rule event_source.loop_restless[OF assms])

definition ex_twice :: ResourceLimiter where
  "ex_twice = ex_rl\<lparr>Spec := \<lparr>Quotas = [ex_quota, ex_quota\<lparr>CpuLimit := ''3''\<rparr>], Applied = True\<rparr>\<rparr>"

theorem event_loop_livelock_witness:
  "fst (event_loop controller_builder (\<lambda>u. proper (fst u)) stamp_versions versioned_mem mem_lib ''rl'' 100
      (ex_cluster1 ex_twice, stamp0)) \<and> check_quotas mem_lib (Quotas (Spec ex_twice)) = Inr None"
proof -
  let ?w = "(ex_cluster1 ex_twice, stamp0)"
  let ?q = "ex_quota\<lparr>CpuLimit := ''3''\<rparr>"
  have q: "live_quotas (Quotas (Spec ex_twice)) = [ex_quota, ?q]"
    by (simp add: ex_twice_def ex_quota_def ignored_def go_defs)
  have n: "NamespaceName ex_quota = ''default''" "NamespaceName ?q = ''default''" by (simp_all add: ex_quota_def)
  have p: "parses mem_lib ex_quota" "parses mem_lib ?q" by (simp_all add: parses_def mem_lib_def ex_quota_def)
  have s: "Rls (proper (ex_cluster1 ex_twice)) ''rl'' = Some ex_twice"
    by (rule Rls_ex) (simp add: ex_twice_def ex_rl_def)
  have "Nss (proper (ex_cluster1 ex_twice)) ''default'' \<noteq> None" by code_simp
  with s q n p have r: "runnable mem_lib ''rl'' (Spec ex_twice) (proper (fst ?w))"
    by (simp add: runnable_def ex_twice_def ex_rl_def empty_meta_def)
  have a: "Applied (Spec ex_twice)" by (simp add: ex_twice_def)
  have o: "owned_by ''rl'' (Rqs (proper (ex_cluster1 ex_twice)) (quota_key ''default''))" by code_simp
  then have "Rqs (proper (ex_cluster1 ex_twice)) (quota_key ''default'') \<noteq> None"
    by (auto simp: owned_by_def split: option.splits)
  with q n have m: "missing (Spec ex_twice) (proper (fst ?w)) = 0" by (simp add: missing_zero)
  have "setHard mem_lib empty_rq ex_quota \<noteq> setHard mem_lib empty_rq ?q"
    by (simp add: setHard_def mem_lib_def ex_quota_def empty_rq_def go_defs)
  with q n o have c: "contradictory mem_lib ''rl'' (Spec ex_twice) (proper (fst ?w))"
    by (simp add: contradictory_def)
  have "check_quotas mem_lib (Quotas (Spec ex_twice)) = Inr None" by code_simp
  with event_loop_livelock[OF meme.event_source_axioms r a m c] show ?thesis by blast
qed

end
