(* ===== verification/End_To_End.thy ===== *)
theory End_To_End
  imports Pipeline Event_Loop_Props
begin

text \<open>
  From admission to the limited namespace: what the validating webhook lets through, the controller carries out,
  and the namespaces it has labelled are those the API server calls the webhooks for.
\<close>

text \<open>The namespaces the API server calls the webhooks of a configuration for.\<close>

definition selects :: "WebhookConfiguration \<Rightarrow> Namespace \<Rightarrow> bool" where
  "selects cfg x \<longleftrightarrow> (\<forall>h \<in> set (Webhooks cfg). case NamespaceSelector h of None \<Rightarrow> True
     | Some sel \<Rightarrow> \<forall>(k, v) \<in> set sel. map_of (Labels x) k = Some v)"

lemma enabled_selected:
  "enabled x \<longleftrightarrow> selects (mutatingConfig name1 ca1 svc1 ns1) x \<and> selects (validatingConfig name2 ca2 svc2 ns2) x"
  by (simp add: enabled_def selects_def mutatingConfig_def validatingConfig_def go_defs)

text \<open>C20: an object of version v1beta2 that the validating webhook has admitted comes to its effect. If it is
  stored and applied, lists namespaces that exist and each once, and nothing fails without a reason, then
  the controller stops after at most two more runs than there are quotas to create, with the status \<open>ready\<close>, the
  quota of every entry in force, and every listed namespace selected by both webhook configurations, under
  whatever name and certificate they were registered.\<close>

theorem admitted_comes_to_rest:
  assumes "event_source C view L V"
    and "(\<forall>x. MergeFrom L 1 x = BaseCopy x) \<or> (\<forall>x. MergeFrom L 1 x = BaseRef 1)"
    and "Request ar = Some req" and "Kind req = ''ResourceLimiter''" and "Version req = ''v1beta2''"
    and "unmarshal_rl D (ObjectRaw req) = Inr rl" and "fst (validate D L ar st) = Some resp" and "Allowed resp"
    and stored: "Rls (view w) n = Some rl'" "Spec rl' = Spec rl" "DeletionTimestamp (Meta rl') = None"
    and "Applied (Spec rl)" and "distinct (map NamespaceName (Quotas (Spec rl)))"
    and "\<And>q. q \<in> set (Quotas (Spec rl)) \<Longrightarrow> Nss (view w) (NamespaceName q) \<noteq> None"
    and "missing (Spec rl) (view w) + 2 \<le> k"
  shows "\<exists>w'. event_loop controller_builder view V C L n k w = (False, w') \<and> ready L n (Spec rl) (view w') \<and>
    (\<forall>q \<in> set (Quotas (Spec rl)). converged L (view w') q \<and> (\<exists>x. Nss (view w') (NamespaceName q) = Some x \<and>
       selects (mutatingConfig name1 ca1 svc1 ns1) x \<and> selects (validatingConfig name2 ca2 svc2 ns2) x))"
proof -
  from admitted_acceptable2[OF assms(3-8)] have a: "acceptable2 L (Spec rl)" .
  then have live: "live_quotas (Quotas (Spec rl)) = Quotas (Spec rl)"
    by (auto simp: acceptable2_def live_quotas_def intro: filter_True)
  have r: "runnable L n (Spec rl) (view w)"
    using a stored assms(14) by (auto simp: runnable_def live acceptable2_def)
  have d: "distinct (map NamespaceName (live_quotas (Quotas (Spec rl))))" using assms(13) live by simp
  from event_source.loop_rests[OF assms(1) r assms(12) d assms(2,15)] obtain w'
    where w': "event_loop controller_builder view V C L n k w = (False, w')" "ready L n (Spec rl) (view w')" by blast
  have "converged L (view w') q" if "q \<in> set (Quotas (Spec rl))" for q
    using w'(2) effective_distinct[OF d] that live by (auto simp: ready_def)
  with w' show ?thesis by (auto simp: converged_def ns_enabled_def enabled_selected[of _ name1 ca1 svc1 ns1 name2 ca2 svc2 ns2])
qed

theorem admitted_comes_to_rest_witness:
  "\<exists>w'. event_loop controller_builder (\<lambda>u. proper (fst u)) stamp_versions versioned_mem mem_lib ''rl'' 3
       (ex_cluster ex_admitted_rl, stamp0) = (False, w') \<and> converged mem_lib (proper (fst w')) ex_quota \<and>
     (\<exists>x. Nss (proper (fst w')) ''default'' = Some x \<and>
       selects (validatingConfig ''resourcelimiter-checker-mutate-validate'' ''ca'' ''svc'' ''ns'') x)"
proof -
  let ?w = "(ex_cluster ex_admitted_rl, stamp0)" and ?v = "\<lambda>u. proper (fst u)"
  have s: "Rls (?v ?w) ''rl'' = Some ex_admitted_rl"
    using Rls_ex(1)[of ex_admitted_rl] by (simp add: ex_admitted_rl_def)
  have q: "Quotas (Spec ex_admitted_rl) = [ex_quota]" "Applied (Spec ex_admitted_rl)" "DeletionTimestamp (Meta ex_admitted_rl) = None"
    "NamespaceName ex_quota = ''default''"
    by (simp_all add: ex_admitted_rl_def empty_meta_def ex_quota_def)
  have ns: "Nss (?v ?w) (NamespaceName e) \<noteq> None" if "e \<in> set (Quotas (Spec ex_admitted_rl))" for e
    using that q by (simp add: ex_cluster_def proper_def ex_ns_def)
  have "card {ns \<in> NamespaceName ` set (live_quotas [ex_quota]). Rqs (?v ?w) (quota_key ns) = None} \<le>
      card (NamespaceName ` set [ex_quota])" by (rule card_mono) (auto simp: live_quotas_def)
  then have m: "missing (Spec ex_admitted_rl) (?v ?w) + 2 \<le> 3" unfolding missing_def q(1) by simp
  have k: "(\<forall>x. MergeFrom mem_lib 1 x = BaseCopy x) \<or> (\<forall>x. MergeFrom mem_lib 1 x = BaseRef 1)"
    by (simp add: mem_lib_def)
  have d: "distinct (map NamespaceName (Quotas (Spec ex_admitted_rl)))" by (simp add: q)
  from admitted_comes_to_rest[OF meme.event_source_axioms k ex_admission s refl q(3) q(2) d ns m]
  show ?thesis using q by fastforce
qed

section \<open>From the mutating to the validating webhook\<close>

text \<open>A v1beta1 object on its way through both webhooks.\<close>

abbreviation with_object :: "AdmissionReview \<Rightarrow> AdmissionRequest \<Rightarrow> json \<Rightarrow> AdmissionReview" where
  "with_object ar req j \<equiv> ar\<lparr>Request := Some (req\<lparr>ObjectRaw := Some j\<rparr>)\<rparr>"

lemma completed1_acceptable:
  assumes "\<forall>v \<in> {''1'', ''2'', ''150Mi'', ''200Mi''}. \<exists>q. MustParse L v = Inr q"
  shows "acceptable1 L (completed1 sp) \<longleftrightarrow> (\<forall>ns \<in> set (Targets sp). \<not> ignored ns) \<and>
    (all_types (Types sp) \<longrightarrow> (\<forall>v \<in> snd ` set (Types sp). \<exists>q. MustParse L v = Inr q))"
proof -
  have "\<not> ignored ''default''" by (simp add: ignored_def go_defs)
  moreover have "\<exists>q. MustParse L v = Inr q" if "v \<in> snd ` set default_types" for v
    using assms that by (auto simp: default_types_def)
  ultimately show ?thesis by (auto simp: acceptable1_def completed1_def)
qed

text \<open>C23: the two webhooks one after the other, on a v1beta1 object. The patch of the mutating webhook turns it into
  one that the mutating webhook leaves alone and the validating webhook decides by what the user gave: it is
  refused exactly if it names a preset namespace, or if it gives all four types and one of its quantities does not
  parse. Quantities of an object without all four types are never looked at - the defaults replace them.\<close>

theorem admission_chain_v1beta1:
  assumes "meta_decoder (decode_meta D)" and "quantity_lib L"
    and "Request ar = Some req" and "Kind req = ''ResourceLimiter''" and "Version req = ''v1beta1''"
    and "ObjectRaw req = Some (JObj ms)" and "shaped1 (decode_meta D) ms rl"
    and "\<forall>v \<in> {''1'', ''2'', ''150Mi'', ''200Mi''}. \<exists>q. MustParse L v = Inr q"
  shows "\<exists>patch ms' resp. mutate D ar = Inr (patched patch) \<and> apply_patch patch (JObj ms) = Some (JObj ms') \<and>
    mutate D (with_object ar req (JObj ms')) = Inr (patched JNull) \<and>
    override (snd (validate D L (with_object ar req (JObj ms')) st)) (fst (validate D L (with_object ar req (JObj ms')) st)) = Some resp \<and>
    (Allowed resp \<longleftrightarrow> (\<forall>ns \<in> set (Targets (Spec1 rl)). \<not> ignored ns) \<and>
       (all_types (Types (Spec1 rl)) \<longrightarrow> (\<forall>v \<in> snd ` set (Types (Spec1 rl)). \<exists>q. MustParse L v = Inr q)))"
proof -
  from mutate_completes1[OF assms(1,3,5-7)] obtain patch ms'
    where m: "mutate D ar = Inr (patched patch)" "apply_patch patch (JObj ms) = Some (JObj ms')"
      and s: "shaped1 (decode_meta D) ms' (rl\<lparr>Spec1 := completed1 (Spec1 rl)\<rparr>)" by blast
  let ?req = "req\<lparr>ObjectRaw := Some (JObj ms')\<rparr>" and ?ar = "with_object ar req (JObj ms')"
  have r: "Request ?ar = Some ?req" "Version ?req = ''v1beta1''" "ObjectRaw ?req = Some (JObj ms')"
    "Kind ?req = ''ResourceLimiter''" using assms(4,5) by simp_all
  from mutate_v1beta1_null[OF r(1-3) s] have n: "mutate D ?ar = Inr (patched JNull)" by simp
  obtain resp where v: "override (snd (validate D L ?ar st)) (fst (validate D L ?ar st)) = Some resp"
    "Allowed resp \<longleftrightarrow> (\<exists>req. Request ?ar = Some req \<and> acceptable D L req)"
    by (rule quantity_lib.override_validate[OF assms(2)])
  have "unmarshal_rl1 D (ObjectRaw ?req) = Inr (rl\<lparr>Spec1 := completed1 (Spec1 rl)\<rparr>)"
    using s by (simp add: unmarshal_rl1_def shaped1_def)
  then have "acceptable D L ?req \<longleftrightarrow> acceptable1 L (completed1 (Spec1 rl))"
    unfolding acceptable_def using r(2,4) by simp
  with v(2) r(1) have "Allowed resp \<longleftrightarrow> acceptable1 L (completed1 (Spec1 rl))" by simp
  note resp = this[unfolded completed1_acceptable[OF assms(8)]]
  show ?thesis by (intro exI[of _ patch] exI[of _ ms'] exI[of _ resp] conjI) (rule m n v(1) resp)+
qed

text \<open>An object with one type, which does not parse, is admitted.\<close>

definition ex_ms_odd :: "(string \<times> json) list" where
  "ex_ms_odd = [(''metadata'', JObj [(''name'', JStr ''rl'')]),
     (''spec'', JObj [(''types'', JObj [(''limits.cpu'', JStr '''')]), (''applied'', JBool True)])]"

definition ex_odd :: ResourceLimiter1 where
  "ex_odd = empty_rl1\<lparr>Meta1 := empty_meta\<lparr>Name := ''rl''\<rparr>,
     Spec1 := \<lparr>Targets = [], Types = [(''limits.cpu'', '''')], Applied1 = True\<rparr>\<rparr>"

lemma shaped_ex_odd: "shaped1 mem_meta ex_ms_odd ex_odd"
  by (simp add: shaped1_def plain_def ex_ms_odd_def field_list_defs decode_rl1_def put_rl1_def
    mem_meta_def put_meta_def put_spec1_def ex_odd_def empty_rl1_def)

theorem admission_chain_v1beta1_witness:
  "\<exists>patch ms' resp. mutate mem_wire (review ''ResourceLimiter'' ''v1beta1'' (Some (JObj ex_ms_odd))) = Inr (patched patch) \<and>
     apply_patch patch (JObj ex_ms_odd) = Some (JObj ms') \<and>
     override (snd (validate mem_wire mem_lib (review ''ResourceLimiter'' ''v1beta1'' (Some (JObj ms'))) None))
       (fst (validate mem_wire mem_lib (review ''ResourceLimiter'' ''v1beta1'' (Some (JObj ms'))) None)) = Some resp \<and>
     Allowed resp \<and> \<not> (\<exists>q. MustParse mem_lib '''' = Inr q)"
proof -
  let ?ar = "review ''ResourceLimiter'' ''v1beta1'' (Some (JObj ex_ms_odd))"
  let ?req = "the (Request ?ar)"
  have h: "Request ?ar = Some ?req" "Kind ?req = ''ResourceLimiter''" "Version ?req = ''v1beta1''"
    "ObjectRaw ?req = Some (JObj ex_ms_odd)" by (simp_all add: review_def)
  have o: "with_object ?ar ?req j = review ''ResourceLimiter'' ''v1beta1'' (Some j)" for j by (simp add: review_def)
  have m: "meta_decoder (decode_meta mem_wire)" by (simp add: memmeta.meta_decoder_axioms)
  have s: "shaped1 (decode_meta mem_wire) ex_ms_odd ex_odd" by (simp add: shaped_ex_odd)
  have p: "\<forall>v \<in> {''1'', ''2'', ''150Mi'', ''200Mi''}. \<exists>q. MustParse mem_lib v = Inr q"
    and np: "\<not> (\<exists>q. MustParse mem_lib '''' = Inr q)" by (simp_all add: mem_lib_def)
  have "Targets (Spec1 ex_odd) = []" "\<not> all_types (Types (Spec1 ex_odd))"
    by (simp_all add: ex_odd_def all_types_def)
  then have ok: "(\<forall>ns \<in> set (Targets (Spec1 ex_odd)). \<not> ignored ns) \<and> (all_types (Types (Spec1 ex_odd)) \<longrightarrow>
      (\<forall>v \<in> snd ` set (Types (Spec1 ex_odd)). \<exists>q. MustParse mem_lib v = Inr q))" by simp
  from admission_chain_v1beta1[OF m memq.quantity_lib_axioms h s p, of None, unfolded o] show ?thesis
  proof (elim exE conjE)
    fix patch ms' resp
    assume a: "mutate mem_wire ?ar = Inr (patched patch)" "apply_patch patch (JObj ex_ms_odd) = Some (JObj ms')"
      "override (snd (validate mem_wire mem_lib (review ''ResourceLimiter'' ''v1beta1'' (Some (JObj ms'))) None))
         (fst (validate mem_wire mem_lib (review ''ResourceLimiter'' ''v1beta1'' (Some (JObj ms'))) None)) = Some resp"
      and "Allowed resp \<longleftrightarrow> (\<forall>ns \<in> set (Targets (Spec1 ex_odd)). \<not> ignored ns) \<and> (all_types (Types (Spec1 ex_odd)) \<longrightarrow>
        (\<forall>v \<in> snd ` set (Types (Spec1 ex_odd)). \<exists>q. MustParse mem_lib v = Inr q))"
    with ok have "Allowed resp" by (simp only:)
    show ?thesis by (intro exI[of _ patch] exI[of _ ms'] exI[of _ resp] conjI) (rule a \<open>Allowed resp\<close> np)+
  qed
qed

end
