(* ===== verification/Controller_Stable.thy ===== *)
theory Controller_Stable
  imports Reconciler_Stable Controller_Safety
begin

text \<open>The controller comes to rest: the properties that rest on the fixed points of its runs.\<close>

text \<open>C6: reconciliation is idempotent. Once a run without an error has found all quotas of a live, applied object
  in existence (each namespace listed once), any number of further runs leaves the whole cluster
  exactly as it is, even if calls of these runs fail.\<close>

theorem Reconcile_idempotent:
  assumes "reconciler C view L" and "Reconcile C L n w = (Done None, w')"
    and "Rls (view w) n = Some rl" and "DeletionTimestamp (Meta rl) = None" and "Applied (Spec rl)"
    and "distinct (map NamespaceName (live_quotas (Quotas (Spec rl))))"
    and "\<And>q. q \<in> set (live_quotas (Quotas (Spec rl))) \<Longrightarrow> Rqs (view w) (quota_key (NamespaceName q)) \<noteq> None"
    and "(\<forall>x. MergeFrom L 1 x = BaseCopy x) \<or> (\<forall>x. MergeFrom L 1 x = BaseRef 1)"
  shows "view (after_runs C L n k w') = view w'"
  by (rule reconciler.settled_runs[OF assms(1) reconciler.settling_run[OF assms]])

theorem Reconcile_idempotent_witness:
  "\<exists>w'. Reconcile mem_client mem_lib ''rl'' (ex_cluster1 ex_rl) = (Done None, w') \<and>
     proper (after_runs mem_client mem_lib ''rl'' 2 w') = proper w' \<and>
     proper w' \<noteq> proper (ex_cluster1 ex_rl)"
proof -
  let ?w' = "snd (Reconcile mem_client mem_lib ''rl'' (ex_cluster1 ex_rl))"
  have h: "DeletionTimestamp (Meta ex_rl) = None" "Applied (Spec ex_rl)"
    by (simp_all add: ex_rl_def empty_meta_def)
  have q: "live_quotas (Quotas (Spec ex_rl)) = [ex_quota]"
    by (simp add: ex_rl_def ex_quota_def ignored_def go_defs)
  have d: "distinct (map NamespaceName (live_quotas (Quotas (Spec ex_rl))))" by (simp add: q)
  have "Rqs (proper (ex_cluster1 ex_rl)) (quota_key (NamespaceName ex_quota)) \<noteq> None" by code_simp
  then have e: "\<And>q. q \<in> set (live_quotas (Quotas (Spec ex_rl))) \<Longrightarrow>
      Rqs (proper (ex_cluster1 ex_rl)) (quota_key (NamespaceName q)) \<noteq> None" by (simp add: q)
  have m: "(\<forall>x. MergeFrom mem_lib 1 x = BaseCopy x) \<or> (\<forall>x. MergeFrom mem_lib 1 x = BaseRef 1)"
    by (simp add: mem_lib_def)
  from Reconcile_idempotent[OF memr.reconciler_axioms ex_run_applied Rls_ex(2)[OF rl_name_ex(1)] h d e m]
  have i: "proper (after_runs mem_client mem_lib ''rl'' 2 ?w') = proper ?w'" .
  have "State (Status (the (Rls (proper ?w') ''rl''))) = ''ready''" by code_simp
  moreover have "State (Status (the (Rls (proper (ex_cluster1 ex_rl)) ''rl''))) = ''''" by code_simp
  ultimately have "proper ?w' \<noteq> proper (ex_cluster1 ex_rl)" by auto
  with i ex_run_applied show ?thesis by blast
qed

end
