(* ===== verification/Call_Trace.thy ===== *)
theory Call_Trace
  imports Reconciler_Spec
begin

text \<open>
  The calls a run makes. \<open>logged C\<close> is the client \<open>C\<close> that writes down every call with its answer; it
  behaves as \<open>C\<close> in every other respect, and \<open>C\<close> may be any client at all, one that lies included. What
  is shown of the log is the protocol the controller follows towards the API server.
\<close>

section \<open>Clients that keep a log\<close>

datatype 'q entry =
    ReadRl string "go_error + ResourceLimiter"
  | PatchedRl ResourceLimiter ResourceLimiter "go_error option"
  | WroteStatus ResourceLimiter "go_error option"
  | ReadNs NamespacedName "go_error + Namespace"
  | WroteNs Namespace "go_error option"
  | ReadRq NamespacedName "go_error + 'q ResourceQuota"
  | CreatedRq "'q ResourceQuota" "go_error option"
  | WroteRq "'q ResourceQuota" "go_error option"
  | DeletedRq "'q ResourceQuota" "go_error option"

definition noting :: "('a \<Rightarrow> 'e) \<Rightarrow> ('w \<Rightarrow> 'a \<times> 'w) \<Rightarrow> 'w \<times> 'e list \<Rightarrow> 'a \<times> ('w \<times> 'e list)" where
  "noting e f u = (case f (fst u) of (a, w) \<Rightarrow> (a, w, snd u @ [e a]))"

definition logged :: "('q, 'w) client \<Rightarrow> ('q, 'w \<times> 'q entry list) client" where
  "logged C =
     \<lparr>get_rl = \<lambda>n. noting (ReadRl n) (get_rl C n),
      patch_rl = \<lambda>b r. noting (PatchedRl b r) (patch_rl C b r),
      update_status = \<lambda>r. noting (WroteStatus r) (update_status C r),
      get_ns = \<lambda>k. noting (ReadNs k) (get_ns C k),
      update_ns = \<lambda>n. noting (WroteNs n) (update_ns C n),
      get_rq = \<lambda>k. noting (ReadRq k) (get_rq C k),
      create_rq = \<lambda>q. noting (CreatedRq q) (create_rq C q),
      update_rq = \<lambda>q. noting (WroteRq q) (update_rq C q),
      delete_rq = \<lambda>q. noting (DeletedRq q) (delete_rq C q)\<rparr>"

lemma logged_sel [simp]:
  "get_rl (logged C) n (w, t) = (case get_rl C n w of (a, w') \<Rightarrow> (a, w', t @ [ReadRl n a]))"
  "patch_rl (logged C) b r (w, t) = (case patch_rl C b r w of (e, w') \<Rightarrow> (e, w', t @ [PatchedRl b r e]))"
  "update_status (logged C) r (w, t) = (case update_status C r w of (e, w') \<Rightarrow> (e, w', t @ [WroteStatus r e]))"
  "get_ns (logged C) k (w, t) = (case get_ns C k w of (x, w') \<Rightarrow> (x, w', t @ [ReadNs k x]))"
  "update_ns (logged C) m (w, t) = (case update_ns C m w of (e, w') \<Rightarrow> (e, w', t @ [WroteNs m e]))"
  "get_rq (logged C) k (w, t) = (case get_rq C k w of (y, w') \<Rightarrow> (y, w', t @ [ReadRq k y]))"
  "create_rq (logged C) q (w, t) = (case create_rq C q w of (e, w') \<Rightarrow> (e, w', t @ [CreatedRq q e]))"
  "update_rq (logged C) q (w, t) = (case update_rq C q w of (e, w') \<Rightarrow> (e, w', t @ [WroteRq q e]))"
  "delete_rq (logged C) q (w, t) = (case delete_rq C q w of (e, w') \<Rightarrow> (e, w', t @ [DeletedRq q e]))"
  by (simp_all add: logged_def noting_def)

section \<open>The protocol\<close>

text \<open>The error of a call.\<close>

fun failed :: "'q entry \<Rightarrow> go_error option" where
  "failed (ReadRl n (Inl e)) = Some e"
| "failed (ReadNs k (Inl e)) = Some e"
| "failed (ReadRq k (Inl e)) = Some e"
| "failed (PatchedRl b r e) = e"
| "failed (WroteStatus r e) = e"
| "failed (WroteNs m e) = e"
| "failed (CreatedRq q e) = e"
| "failed (WroteRq q e) = e"
| "failed (DeletedRq q e) = e"
| "failed _ = None"

text \<open>The entries a pass over the object is about.\<close>

abbreviation alive :: "ResourceLimiter \<Rightarrow> bool" where
  "alive rl \<equiv> DeletionTimestamp (Meta rl) = None"

definition listed :: "ResourceLimiter \<Rightarrow> ResourceLimiterQuota list" where
  "listed rl = (if alive rl then live_quotas (Quotas (Spec rl)) else Quotas (Spec rl))"

text \<open>The calls after which there can be another one, given the object: those that went through, and two reads of
  what is not there - of a quota for a live object, and the first read of a namespace under deletion. Nothing follows the
  creation of a quota or the write of the status.\<close>

fun may_go_on :: "ResourceLimiter \<Rightarrow> 'q entry \<Rightarrow> bool" where
  "may_go_on rl (CreatedRq q e) \<longleftrightarrow> False"
| "may_go_on rl (WroteStatus r e) \<longleftrightarrow> False"
| "may_go_on rl (ReadNs k (Inl e)) \<longleftrightarrow> \<not> alive rl \<and> e = NotFound \<and> fst k = ''''"
| "may_go_on rl (ReadRq k (Inl e)) \<longleftrightarrow> alive rl \<and> e = NotFound"
| "may_go_on rl c \<longleftrightarrow> failed c = None"

text \<open>A write of a namespace or quota is made from what the call just before it has read for an entry of the
  object: the namespace with the labels set (under deletion: taken off), the new quota of the entry, the quota with its
  limits replaced by those of the entry, the quota itself.\<close>

fun blind :: "'q entry \<Rightarrow> bool" where
  "blind (WroteNs m e) \<longleftrightarrow> True"
| "blind (CreatedRq q e) \<longleftrightarrow> True"
| "blind (WroteRq q e) \<longleftrightarrow> True"
| "blind (DeletedRq q e) \<longleftrightarrow> True"
| "blind _ \<longleftrightarrow> False"

definition prepared :: "'q lib \<Rightarrow> ResourceLimiter \<Rightarrow> ResourceLimiterQuota \<Rightarrow> 'q ResourceQuota \<Rightarrow> bool" where
  "prepared L rl q rq \<longleftrightarrow> (\<exists>rq1. SetControllerReference L rl (empty_rq\<lparr>QuotaName := quota_name (NamespaceName q),
     QuotaNamespace := NamespaceName q\<rparr>) = Inr rq1 \<and> setHard L (rq1\<lparr>Hard := []\<rparr>) q = Inr rq)"

fun backs :: "'q lib \<Rightarrow> ResourceLimiter \<Rightarrow> 'q entry \<Rightarrow> 'q entry \<Rightarrow> bool" where
  "backs L rl p (WroteNs m e) \<longleftrightarrow> (\<exists>q \<in> set (listed rl). \<exists>n. p = ReadNs (NamespaceName q, NamespaceName q) (Inr n) \<and>
     m = (if alive rl then label_namespace n else unlabel_namespace n))"
| "backs L rl p (CreatedRq rq e) \<longleftrightarrow> alive rl \<and> Applied (Spec rl) \<and>
     (\<exists>q \<in> set (listed rl). p = ReadRq (quota_key (NamespaceName q)) (Inl NotFound) \<and> prepared L rl q rq)"
| "backs L rl p (WroteRq rq e) \<longleftrightarrow> alive rl \<and> Applied (Spec rl) \<and>
     (\<exists>q \<in> set (listed rl). \<exists>rq0. p = ReadRq (quota_key (NamespaceName q)) (Inr rq0) \<and> setHard L (rq0\<lparr>Hard := []\<rparr>) q = Inr rq)"
| "backs L rl p (DeletedRq rq e) \<longleftrightarrow> (alive rl \<longrightarrow> \<not> Applied (Spec rl)) \<and>
     (\<exists>q \<in> set (listed rl). p = ReadRq (quota_key (NamespaceName q)) (Inr rq))"
| "backs L rl p _ \<longleftrightarrow> True"

text \<open>A quota that is not there is created, if \<open>applied\<close> is set, before anything else is done.\<close>

definition owes_quota :: "ResourceLimiter \<Rightarrow> 'q entry \<Rightarrow> bool" where
  "owes_quota rl p \<longleftrightarrow> alive rl \<and> Applied (Spec rl) \<and> (\<exists>k e. p = ReadRq k (Inl e))"

definition may_follow :: "'q lib \<Rightarrow> ResourceLimiter \<Rightarrow> 'q entry \<Rightarrow> 'q entry \<Rightarrow> bool" where
  "may_follow L rl c d \<longleftrightarrow> may_go_on rl c \<and> backs L rl c d \<and> (owes_quota rl c \<longrightarrow> (\<exists>rq e. d = CreatedRq rq e))"

fun disciplined :: "'q lib \<Rightarrow> ResourceLimiter \<Rightarrow> 'q entry list \<Rightarrow> bool" where
  "disciplined L rl [] \<longleftrightarrow> True"
| "disciplined L rl [c] \<longleftrightarrow> True"
| "disciplined L rl (c # d # t) \<longleftrightarrow> may_follow L rl c d \<and> disciplined L rl (d # t)"

text \<open>How a log may end, given the error that is returned: with the error of its last call, or, after a quota was not there
  and could not be prepared, with another one.\<close>

definition ends_with :: "ResourceLimiter \<Rightarrow> 'q entry list \<Rightarrow> go_error option \<Rightarrow> bool" where
  "ends_with rl t e \<longleftrightarrow> (t = [] \<longrightarrow> e \<noteq> None) \<and> (t \<noteq> [] \<longrightarrow>
     (e = None \<longrightarrow> failed (last t) = None) \<and>
     (\<forall>x. failed (last t) = Some x \<longrightarrow> e = Some x \<or> owes_quota rl (last t) \<and> x = NotFound))"

text \<open>The object that was read last.\<close>

primrec object_read :: "'q entry list \<Rightarrow> ResourceLimiter option" where
  "object_read [] = None"
| "object_read (e # t) = (case object_read t of Some rl \<Rightarrow> Some rl
     | None \<Rightarrow> (case e of ReadRl n (Inr rl) \<Rightarrow> Some rl | _ \<Rightarrow> None))"

lemma object_read_append [simp]:
  "object_read (s @ t) = (case object_read t of Some rl \<Rightarrow> Some rl | None \<Rightarrow> object_read s)"
  by (induction s) (auto split: option.splits)

text \<open>A piece of a pass does not begin with a write that needs a read, and does not read the object again.\<close>

definition starts_well :: "'q entry list \<Rightarrow> bool" where
  "starts_well t \<longleftrightarrow> (t \<noteq> [] \<longrightarrow> \<not> blind (hd t)) \<and> object_read t = None"

definition goes_on :: "ResourceLimiter \<Rightarrow> 'q entry list \<Rightarrow> bool" where
  "goes_on rl t \<longleftrightarrow> (t \<noteq> [] \<longrightarrow> may_go_on rl (last t) \<and> \<not> owes_quota rl (last t))"

fun seg_ctl :: "ResourceLimiter \<Rightarrow> 's ctl \<Rightarrow> 'q entry list \<Rightarrow> bool" where
  "seg_ctl rl (Continue s) t \<longleftrightarrow> goes_on rl t"
| "seg_ctl rl (Return e) t \<longleftrightarrow> t \<noteq> [] \<and> ends_with rl t e"
| "seg_ctl rl (Panic m) t \<longleftrightarrow> True"

fun seg_out :: "ResourceLimiter \<Rightarrow> outcome \<Rightarrow> 'q entry list \<Rightarrow> bool" where
  "seg_out rl (Done e) t \<longleftrightarrow> ends_with rl t e"
| "seg_out rl (Panicked m) t \<longleftrightarrow> True"

lemma backs_not_blind: "\<not> blind d \<Longrightarrow> backs L rl c d"
  by (cases d) auto

lemma disciplined_append:
  "disciplined L rl s \<Longrightarrow> disciplined L rl t \<Longrightarrow> goes_on rl s \<Longrightarrow> starts_well t \<Longrightarrow> disciplined L rl (s @ t)"
proof (induction L rl s rule: disciplined.induct)
  case (2 L rl c)
  then show ?case by (cases t) (auto simp: goes_on_def starts_well_def may_follow_def backs_not_blind)
qed (auto simp: goes_on_def)

lemma starts_well_append: "starts_well s \<Longrightarrow> starts_well t \<Longrightarrow> starts_well (s @ t)"
  by (cases s) (auto simp: starts_well_def)

lemma goes_on_append: "goes_on rl s \<Longrightarrow> goes_on rl t \<Longrightarrow> goes_on rl (s @ t)"
  by (cases "t = []") (auto simp: goes_on_def)

lemma ends_with_append:
  assumes "ends_with rl t e" and "t \<noteq> [] \<or> s \<noteq> [] \<and> failed (last s) = None"
  shows "ends_with rl (s @ t) e"
  using assms by (cases "t = []") (simp_all add: ends_with_def)

lemma seg_ctl_append: "goes_on rl s \<Longrightarrow> seg_ctl rl r t \<Longrightarrow> seg_ctl rl r (s @ t)"
  by (cases r) (auto simp: goes_on_append intro: ends_with_append)

lemma seg_out_append: "seg_out rl r t \<Longrightarrow> s \<noteq> [] \<and> failed (last s) = None \<Longrightarrow> seg_out rl r (s @ t)"
  by (cases r) (auto intro: ends_with_append)

section \<open>Logs of the parts\<close>

text \<open>
  \<open>traces L rl b P m ml\<close>: the logged computation \<open>ml\<close> does what \<open>m\<close> does, and adds a disciplined piece of at
  most \<open>b\<close> calls to the log, for which \<open>P\<close> holds with the result.
\<close>

definition traces ::
  "'q lib \<Rightarrow> ResourceLimiter \<Rightarrow> nat \<Rightarrow> ('r \<Rightarrow> 'q entry list \<Rightarrow> bool) \<Rightarrow> ('w \<Rightarrow> 'r \<times> 'w) \<Rightarrow>
     ('w \<times> 'q entry list \<Rightarrow> 'r \<times> ('w \<times> 'q entry list)) \<Rightarrow> bool" where
  "traces L rl b P m ml \<longleftrightarrow> (\<forall>w t. \<exists>s. ml (w, t) = (fst (m w), snd (m w), t @ s) \<and> length s \<le> b \<and>
     disciplined L rl s \<and> starts_well s \<and> P (fst (m w)) s)"

lemma tracesD:
  assumes "traces L rl b P m ml" and "m w = (r, w')"
  obtains s where "ml (w, t) = (r, w', t @ s)" "length s \<le> b" "disciplined L rl s" "starts_well s" "P r s"
  using assms unfolding traces_def by (metis fst_conv snd_conv)

text \<open>The same for one start; a piece that has been logged already may be put in front.\<close>

definition traced ::
  "'q lib \<Rightarrow> ResourceLimiter \<Rightarrow> nat \<Rightarrow> ('r \<Rightarrow> 'q entry list \<Rightarrow> bool) \<Rightarrow> 'q entry list \<Rightarrow> 'r \<times> 'w \<Rightarrow> 'r \<times> ('w \<times> 'q entry list) \<Rightarrow> bool" where
  "traced L rl b P t r l \<longleftrightarrow> (\<exists>s. l = (fst r, snd r, t @ s) \<and> length s \<le> b \<and> disciplined L rl s \<and> starts_well s \<and> P (fst r) s)"

lemma traces_traced: "traces L rl b P m ml \<longleftrightarrow> (\<forall>w t. traced L rl b P t (m w) (ml (w, t)))"
  by (simp add: traces_def traced_def)

lemma tracesI: "(\<And>w t. traced L rl b P t (m w) (ml (w, t))) \<Longrightarrow> traces L rl b P m ml"
  by (simp add: traces_traced)

lemma tracedI:
  "l = (fst r, snd r, t @ s) \<Longrightarrow> length s \<le> b \<Longrightarrow> disciplined L rl s \<Longrightarrow> starts_well s \<Longrightarrow> P (fst r) s \<Longrightarrow> traced L rl b P t r l"
  by (auto simp: traced_def)

lemma traced_after:
  assumes "traces L rl b' Q m ml" and p: "disciplined L rl p" "goes_on rl p" "starts_well p"
    and "\<And>s. Q (fst (m w)) s \<Longrightarrow> P (fst (m w)) (p @ s)" and "length p + b' \<le> b"
  shows "traced L rl b P t (m w) (ml (w, t @ p))"
proof -
  from assms(1) obtain s where s: "ml (w, t @ p) = (fst (m w), snd (m w), (t @ p) @ s)" "length s \<le> b'"
    "disciplined L rl s" "starts_well s" "Q (fst (m w)) s" unfolding traces_def by blast
  show ?thesis
    by (rule tracedI[of _ _ _ "p @ s"])
      (use s assms(5,6) disciplined_append[OF p(1) s(3) p(2) s(4)] starts_well_append[OF p(3) s(4)] in simp_all)
qed

lemma traces_mono: "traces L rl b P m ml \<Longrightarrow> b \<le> b' \<Longrightarrow> traces L rl b' P m ml"
  unfolding traces_def by (meson order_trans)

lemma traces_if:
  "(c \<Longrightarrow> traces L rl b P m m') \<Longrightarrow> (\<not> c \<Longrightarrow> traces L rl b P n n') \<Longrightarrow>
     traces L rl b P (\<lambda>u. if c then m u else n u) (\<lambda>u. if c then m' u else n' u)"
  by (cases c) simp_all

lemmas seg_defs = starts_well_def goes_on_def ends_with_def may_follow_def owes_quota_def

lemma setHard_only: "setHard L (rq\<lparr>Hard := []\<rparr>) q = Inr rq' \<Longrightarrow> \<exists>h. rq' = rq\<lparr>Hard := h\<rparr>"
  by (auto simp: setHard_def Let_def split: sum.splits)

lemma traces_apply_quota:
  assumes "alive rl" and "Applied (Spec rl)" and "q \<in> set (listed rl)"
  shows "traces L rl 2 (seg_ctl rl) (apply_quota C L rl q rs) (apply_quota (logged C) L rl q rs)"
proof (rule tracesI)
  fix w t
  let ?k = "quota_key (NamespaceName q)"
  obtain a w1 where a: "get_rq C ?k w = (a, w1)" by (cases "get_rq C ?k w")
  show "traced L rl 2 (seg_ctl rl) t (apply_quota C L rl q rs w) (apply_quota (logged C) L rl q rs (w, t))"
  proof (cases a)
    case (Inl e)
    have "prepared L rl q rq" if "SetControllerReference L rl (empty_rq\<lparr>QuotaName := quota_name (NamespaceName q),
        QuotaNamespace := NamespaceName q\<rparr>) = Inr rq1" "setHard L (rq1\<lparr>Hard := []\<rparr>) q = Inr rq" for rq1 rq
      using that unfolding prepared_def by blast
    with a Inl assms show ?thesis unfolding traced_def
      by (auto simp: apply_quota_def create_quota_def seg_defs Let_def split: prod.splits sum.splits option.splits)
  next
    case (Inr rq)
    with a assms show ?thesis unfolding traced_def
      by (auto simp: apply_quota_def update_quota_def seg_defs Let_def split: prod.splits sum.splits option.splits)
  qed
qed

lemma traces_remove_quota:
  assumes "alive rl" and "\<not> Applied (Spec rl)" and "q \<in> set (listed rl)"
  shows "traces L rl 2 (seg_ctl rl) (remove_quota C q rs) (remove_quota (logged C) q rs)"
  using assms unfolding traces_def
  by (auto simp: remove_quota_def seg_defs split: prod.splits sum.splits option.splits)

lemma traces_apply_or_remove:
  assumes "alive rl" and "q \<in> set (listed rl)"
  shows "traces L rl 2 (seg_ctl rl) (\<lambda>u. if Applied (Spec rl) then apply_quota C L rl q rs u else remove_quota C q rs u)
     (\<lambda>u. if Applied (Spec rl) then apply_quota (logged C) L rl q rs u else remove_quota (logged C) q rs u)"
  by (rule traces_if) (auto intro: traces_apply_quota traces_remove_quota assms)

lemma traces_reconcile_quota:
  assumes "alive rl" and "q \<in> set (Quotas (Spec rl))"
  shows "traces L rl (if ignored (NamespaceName q) then 0 else 4) (seg_ctl rl) (reconcile_quota C L rl q rs) (reconcile_quota (logged C) L rl q rs)"
proof (cases "ignored (NamespaceName q)")
  case True
  then show ?thesis by (auto simp: traces_def reconcile_quota_def ignored_def seg_defs)
next
  case False
  then have ni: "NamespaceName q \<noteq> IgnoreKubeSystem" "NamespaceName q \<noteq> IgnoreKubePublic"
    by (simp_all add: ignored_def)
  have q: "q \<in> set (listed rl)" using assms False by (simp add: listed_def live_quotas_def)
  let ?k = "(NamespaceName q, NamespaceName q)"
  show ?thesis
  proof (rule tracesI)
    fix w t
    obtain a w1 where a: "get_ns C ?k w = (a, w1)" by (cases "get_ns C ?k w")
    show "traced L rl (if ignored (NamespaceName q) then 0 else 4) (seg_ctl rl) t (reconcile_quota C L rl q rs w)
        (reconcile_quota (logged C) L rl q rs (w, t))"
    proof (cases a)
      case (Inl e)
      with a ni False show ?thesis
        by (intro tracedI[of _ _ _ "[ReadNs ?k (Inl e)]"]) (simp_all add: reconcile_quota_def seg_defs)
    next
      case (Inr n)
      obtain e w2 where e: "update_ns C (label_namespace n) w1 = (e, w2)" by (cases "update_ns C (label_namespace n) w1")
      let ?p = "[ReadNs ?k (Inr n), WroteNs (label_namespace n) e]"
      show ?thesis
      proof (cases e)
        case (Some x)
        with a Inr e ni False q assms(1) show ?thesis
          by (intro tracedI[of _ _ _ ?p]) (auto simp: reconcile_quota_def seg_defs)
      next
        case None
        then have p: "disciplined L rl ?p" "goes_on rl ?p" "starts_well ?p" using q assms(1) by (auto simp: seg_defs)
        have "traced L rl 4 (seg_ctl rl) t (if Applied (Spec rl) then apply_quota C L rl q rs w2 else remove_quota C q rs w2)
            (if Applied (Spec rl) then apply_quota (logged C) L rl q rs (w2, t @ ?p) else remove_quota (logged C) q rs (w2, t @ ?p))"
          by (rule traced_after[OF traces_apply_or_remove[OF assms(1) q] p], erule seg_ctl_append[OF p(2)]) simp
        with a Inr e None ni False show ?thesis by (cases "Applied (Spec rl)") (simp_all add: reconcile_quota_def)
      qed
    qed
  qed
qed

lemma traces_delete_quota:
  assumes "\<not> alive rl" and "q \<in> set (Quotas (Spec rl))"
  shows "traces L rl 5 (seg_ctl rl) (delete_quota C q u) (delete_quota (logged C) q u)"
proof -
  have "q \<in> set (listed rl)" using assms by (auto simp: listed_def)
  with assms(1) show ?thesis unfolding traces_def
    by (auto simp: delete_quota_def seg_defs split: prod.splits sum.splits option.splits)
qed

lemma traces_remove_our_finalizer:
  "traces L rl 1 (\<lambda>r s. s \<noteq> [] \<and> seg_out rl r s) (remove_our_finalizer C L rl) (remove_our_finalizer (logged C) L rl)"
  unfolding traces_def
  by (auto simp: remove_our_finalizer_def seg_defs Let_def split: prod.splits option.splits)

lemma traces_updateStatus:
  "traces L rl 1 (\<lambda>e s. s \<noteq> [] \<and> ends_with rl s e) (updateStatus C rl st) (updateStatus (logged C) rl st)"
  unfolding traces_def
  by (auto simp: updateStatus_def seg_defs split: prod.splits)

lemma traces_for_loop:
  assumes "\<And>x s. x \<in> set xs \<Longrightarrow> traces L rl (b x) (seg_ctl rl) (body x s) (body' x s)"
  shows "traces L rl (sum_list (map b xs)) (seg_ctl rl) (for_loop body xs s) (for_loop body' xs s)"
  using assms
proof (induction xs arbitrary: s)
  case Nil
  then show ?case by (simp add: traces_def seg_defs)
next
  case (Cons x xs)
  show ?case
  proof (rule tracesI)
    fix w t
    obtain c u where c: "body x s w = (c, u)" by (cases "body x s w")
    have "traces L rl (b x) (seg_ctl rl) (body x s) (body' x s)" using Cons.prems by simp
    from tracesD[OF this c] obtain p where p: "body' x s (w, t) = (c, u, t @ p)" "length p \<le> b x"
      "disciplined L rl p" "starts_well p" "seg_ctl rl c p" by blast
    show "traced L rl (sum_list (map b (x # xs))) (seg_ctl rl) t (for_loop body (x # xs) s w) (for_loop body' (x # xs) s (w, t))"
    proof (cases "\<exists>s'. c = Continue s'")
      case False
      with c p show ?thesis by (cases c) (auto intro!: tracedI[of _ _ _ p])
    next
      case True
      then obtain s' where s': "c = Continue s'" by blast
      with p(5) have g: "goes_on rl p" by simp
      have xs: "traces L rl (sum_list (map b xs)) (seg_ctl rl) (for_loop body xs s') (for_loop body' xs s')"
        using Cons by simp
      have "traced L rl (sum_list (map b (x # xs))) (seg_ctl rl) t (for_loop body xs s' u) (for_loop body' xs s' (u, t @ p))"
        by (rule traced_after[OF xs p(3) g p(4)]) (simp_all add: seg_ctl_append[OF g] p(2))
      with c p(1) s' show ?thesis by simp
    qed
  qed
qed

section \<open>Logs of a pass and of a run\<close>

lemma live_sum: "sum_list (map (\<lambda>q. if ignored (NamespaceName q) then 0 else 4) qs) = 4 * length (live_quotas qs)"
  by (induction qs) auto

definition pass_bound :: "ResourceLimiter \<Rightarrow> nat" where
  "pass_bound rl = (if DeletionTimestamp (Meta rl) \<noteq> None then 5 * length (Quotas (Spec rl)) + 1
     else 4 * length (live_quotas (Quotas (Spec rl))) + 1)"

lemma traces_reconcile:
  assumes "alive rl"
  shows "traces L rl (4 * length (live_quotas (Quotas (Spec rl))) + 1) (seg_out rl) (reconcile C L rl) (reconcile (logged C) L rl)"
proof (rule tracesI)
  fix w t
  let ?qs = "Quotas (Spec rl)"
  obtain c u where c: "for_loop (reconcile_quota C L rl) ?qs [] w = (c, u)"
    by (cases "for_loop (reconcile_quota C L rl) ?qs [] w")
  from tracesD[OF traces_for_loop[OF traces_reconcile_quota[OF assms]] c] obtain p
    where p: "for_loop (reconcile_quota (logged C) L rl) ?qs [] (w, t) = (c, u, t @ p)"
      "length p \<le> 4 * length (live_quotas ?qs)" "disciplined L rl p" "starts_well p" "seg_ctl rl c p"
    unfolding live_sum by blast
  show "traced L rl (4 * length (live_quotas ?qs) + 1) (seg_out rl) t (reconcile C L rl w) (reconcile (logged C) L rl (w, t))"
  proof (cases "\<exists>rs. c = Continue rs")
    case False
    with c p show ?thesis by (intro tracedI[of _ _ _ p]) (cases c; simp add: reconcile_def)+
  next
    case True
    then obtain rs where rs: "c = Continue rs" by blast
    define st where "st = (if Applied (Spec rl) then \<lparr>State = Ready, StatusQuotas = rs\<rparr>
      else \<lparr>State = Stopped, StatusQuotas = []\<rparr>)"
    obtain e u' where e: "updateStatus C rl st u = (e, u')" by (cases "updateStatus C rl st u")
    from tracesD[OF traces_updateStatus e] obtain q where q: "updateStatus (logged C) rl st (u, t @ p) = (e, u', (t @ p) @ q)"
      "length q \<le> 1" "disciplined L rl q" "starts_well q" "q \<noteq> [] \<and> ends_with rl q e" by blast
    have o: "reconcile C L rl w = (Done e, u')" "reconcile (logged C) L rl (w, t) = (Done e, u', t @ p @ q)"
      using c p(1) rs e q(1) by (auto simp: reconcile_def st_def split: option.splits if_splits)
    show ?thesis
      by (rule tracedI[of _ _ _ "p @ q"])
        (use o p(2-5) q(2-5) rs disciplined_append[OF p(3) q(3) _ q(4)] in
          \<open>simp_all add: starts_well_append ends_with_append\<close>)
  qed
qed

lemma traces_reconcileDelete:
  assumes "\<not> alive rl"
  shows "traces L rl (5 * length (Quotas (Spec rl)) + 1) (seg_out rl) (reconcileDelete C L rl) (reconcileDelete (logged C) L rl)"
proof (rule tracesI)
  fix w t
  let ?qs = "Quotas (Spec rl)" and ?fin = "remove_our_finalizer C L rl"
  let ?b = "5 * length ?qs + 1" and ?logged = "reconcileDelete (logged C) L rl (w, t)"
  show "traced L rl ?b (seg_out rl) t (reconcileDelete C L rl w) ?logged"
  proof (cases "ContainsFinalizer L rl DefaultFinalizer \<and> State (Status rl) \<noteq> Stopped")
    case False
    have "traced L rl ?b (seg_out rl) t (?fin w) (remove_our_finalizer (logged C) L rl (w, t @ []))"
      by (rule traced_after[OF traces_remove_our_finalizer]) (simp_all add: seg_defs)
    moreover have "traced L rl ?b (seg_out rl) t (Done (Some e), w) (Done (Some e), w, t)" for e
      by (rule tracedI[of _ _ _ "[]"]) (simp_all add: seg_defs)
    ultimately show ?thesis using False by (auto simp: reconcileDelete_def)
  next
    case True
    obtain c u where c: "for_loop (delete_quota C) ?qs () w = (c, u)" by (cases "for_loop (delete_quota C) ?qs () w")
    have "sum_list (map (\<lambda>_. 5) ?qs) = 5 * length ?qs" by (simp add: sum_list_triv)
    with tracesD[OF traces_for_loop[where b = "\<lambda>_. 5", OF traces_delete_quota[OF assms]] c] obtain p
      where p: "for_loop (delete_quota (logged C)) ?qs () (w, t) = (c, u, t @ p)"
        "length p \<le> 5 * length ?qs" "disciplined L rl p" "starts_well p" "seg_ctl rl c p"
      by metis
    show ?thesis
    proof (cases "\<exists>s'. c = Continue s'")
      case False
      with c p True show ?thesis by (intro tracedI[of _ _ _ p]) (cases c; simp add: reconcileDelete_def)+
    next
      case go: True
      with p(5) have g: "goes_on rl p" by auto
      have "traced L rl ?b (seg_out rl) t (?fin u) (remove_our_finalizer (logged C) L rl (u, t @ p))"
      proof (rule traced_after[OF traces_remove_our_finalizer p(3) g p(4)])
        fix q :: "'a entry list" assume "q \<noteq> [] \<and> seg_out rl (fst (?fin u)) q"
        then show "seg_out rl (fst (?fin u)) (p @ q)" by (cases "fst (?fin u)") (auto intro: ends_with_append)
      qed (use p(2) in simp)
      with c p(1) go True show ?thesis by (auto simp: reconcileDelete_def)
    qed
  qed
qed

lemma disciplined_nth:
  "disciplined L rl t \<Longrightarrow> Suc i < length t \<Longrightarrow> may_follow L rl (t ! i) (t ! Suc i)"
proof (induction L rl t arbitrary: i rule: disciplined.induct)
  case (3 L rl c d t)
  then show ?case by (cases i) auto
qed auto

text \<open>The calls before the pass: the object is read, and once more after a patch.\<close>

definition opens :: "string \<Rightarrow> ResourceLimiter \<Rightarrow> 'q entry list \<Rightarrow> bool" where
  "opens n rl s \<longleftrightarrow> s = [ReadRl n (Inr rl)] \<or>
     (\<exists>rl0 b o'. s = [ReadRl n (Inr rl0), PatchedRl b o' None, ReadRl n (Inr rl)])"

lemma opensD:
  assumes "opens n rl s"
  shows "disciplined L rl s" "goes_on rl s" "s \<noteq> []" "failed (last s) = None" "length s \<le> 3"
    "\<exists>a r. s = ReadRl n a # r" "ReadRl n (Inr rl) \<in> set (take 3 (s @ q))" "object_read s = Some rl"
  using assms by (auto simp: opens_def seg_defs)

lemma register_log:
  "(\<exists>rl u s. register_finalizer C L n rl0 w = (Inr rl, u) \<and> opens n rl (ReadRl n (Inr rl0) # s) \<and>
      register_finalizer (logged C) L n rl0 (w, t) = (Inr rl, u, t @ s)) \<or>
   (\<exists>e u s. register_finalizer C L n rl0 w = (Inl e, u) \<and> disciplined L rl0 (ReadRl n (Inr rl0) # s) \<and> length s \<le> 2 \<and>
      object_read s = None \<and> ends_with rl0 (ReadRl n (Inr rl0) # s) (Some e) \<and>
      register_finalizer (logged C) L n rl0 (w, t) = (Inl e, u, t @ s))"
proof (cases "ContainsFinalizer L rl0 DefaultFinalizer")
  case True
  then show ?thesis by (simp add: register_finalizer_def opens_def)
next
  case False
  let ?h = "(\<lambda>_. empty_rl)(1 := rl0)"
  let ?b = "base_value (?h(1 := AddFinalizer L rl0 DefaultFinalizer)) (MergeFrom L 1 rl0)"
  let ?o = "AddFinalizer L rl0 DefaultFinalizer"
  obtain e w1 where e: "patch_rl C ?b ?o w = (e, w1)" by (cases "patch_rl C ?b ?o w")
  obtain a w2 where a: "get_rl C n w1 = (a, w2)" by (cases "get_rl C n w1")
  show ?thesis
    using False e a by (cases e; cases a) (simp_all add: register_finalizer_def Let_def opens_def seg_defs)
qed

text \<open>What the log of a run that ended with \<open>out\<close> looks like.\<close>

definition run_log :: "'q lib \<Rightarrow> string \<Rightarrow> outcome \<Rightarrow> 'q entry list \<Rightarrow> bool" where
  "run_log L n out t \<longleftrightarrow> (\<exists>a s. t = ReadRl n a # s) \<and>
     (case object_read t of None \<Rightarrow> \<exists>e. t = [ReadRl n (Inl e)] \<and> out = Done (Some e)
      | Some rl \<Rightarrow> disciplined L rl t \<and> seg_out rl out t) \<and>
     (length t \<le> 3 \<or> (\<exists>rl. ReadRl n (Inr rl) \<in> set (take 3 t) \<and> length t \<le> 3 + pass_bound rl))"

lemma traces_pass:
  "traces L rl (pass_bound rl) (seg_out rl)
     (\<lambda>v. if DeletionTimestamp (Meta rl) \<noteq> None then reconcileDelete C L rl v else reconcile C L rl v)
     (\<lambda>v. if DeletionTimestamp (Meta rl) \<noteq> None then reconcileDelete (logged C) L rl v else reconcile (logged C) L rl v)"
  by (rule traces_if) (auto simp: pass_bound_def intro: traces_mono[OF traces_reconcile] traces_mono[OF traces_reconcileDelete])

lemma Reconcile_log:
  "\<exists>t. Reconcile (logged C) L n (w, []) = (fst (Reconcile C L n w), snd (Reconcile C L n w), t) \<and>
     run_log L n (fst (Reconcile C L n w)) t"
  (is "\<exists>t. ?goal t")
proof -
  obtain a w1 where a: "get_rl C n w = (a, w1)" by (cases "get_rl C n w")
  show ?thesis
  proof (cases a)
    case (Inl e)
    with a have "?goal [ReadRl n a]" by (simp add: Reconcile_def run_log_def)
    then show ?thesis by blast
  next
    case (Inr rl0)
    from register_log[of C L n rl0 w1 "[ReadRl n (Inr rl0)]"] show ?thesis
    proof (elim disjE exE conjE)
      fix e u s
      assume "register_finalizer C L n rl0 w1 = (Inl e, u)" "disciplined L rl0 (ReadRl n (Inr rl0) # s)" "length s \<le> 2"
        "object_read s = None" "ends_with rl0 (ReadRl n (Inr rl0) # s) (Some e)"
        "register_finalizer (logged C) L n rl0 (w1, [ReadRl n (Inr rl0)]) = (Inl e, u, [ReadRl n (Inr rl0)] @ s)"
      then have "?goal (ReadRl n (Inr rl0) # s)" using a Inr by (simp add: Reconcile_def run_log_def)
      then show ?thesis by blast
    next
      fix rl u s
      assume r: "register_finalizer C L n rl0 w1 = (Inr rl, u)" "opens n rl (ReadRl n (Inr rl0) # s)"
        "register_finalizer (logged C) L n rl0 (w1, [ReadRl n (Inr rl0)]) = (Inr rl, u, [ReadRl n (Inr rl0)] @ s)"
      let ?p = "ReadRl n (Inr rl0) # s"
      note o = opensD[OF r(2)]
      let ?m = "if DeletionTimestamp (Meta rl) \<noteq> None then reconcileDelete C L rl u else reconcile C L rl u"
      from traces_pass[of L rl C, unfolded traces_def, rule_format, of u ?p] obtain q
        where q: "(if DeletionTimestamp (Meta rl) \<noteq> None then reconcileDelete (logged C) L rl (u, ?p)
            else reconcile (logged C) L rl (u, ?p)) = (fst ?m, snd ?m, ?p @ q)" "length q \<le> pass_bound rl"
          "disciplined L rl q" "starts_well q" "seg_out rl (fst ?m) q" by blast
      have run: "Reconcile C L n w = ?m" "Reconcile (logged C) L n (w, []) = (fst ?m, snd ?m, ?p @ q)"
        using a Inr r q(1) by (simp_all add: Reconcile_def)
      have "seg_out rl (fst ?m) (?p @ q)" by (rule seg_out_append[OF q(5) conjI[OF o(3,4)]])
      moreover have "length (?p @ q) \<le> 3 + pass_bound rl" using o(5) q(2) by simp
      moreover have "disciplined L rl (?p @ q)" using disciplined_append[OF o(1) q(3) o(2) q(4)] .
      moreover have "object_read (?p @ q) = Some rl"
        unfolding object_read_append using q(4) o(8) by (simp only: starts_well_def option.case)
      ultimately have "run_log L n (fst ?m) (?p @ q)" using o(7)[of q] unfolding run_log_def by auto
      then show ?thesis unfolding run by (intro exI[of _ "?p @ q"] conjI refl)
    qed
  qed
qed

end
