(* ===== verification/Call_Contents.thy ===== *)
theory Call_Contents
  imports Call_Trace Reconciler_Correct
begin

text \<open>
  What the controller sends. For any client at all, one that lies included, every call of a run is well formed
  with respect to the object the run has read: it concerns a listed namespace, and the quotas, namespaces and
  status it writes have the shape the code is there to produce.
\<close>

section \<open>Well-formed calls\<close>

text \<open>A status for the entries \<open>qs\<close>: one line for each, in their order, with the usage of some quota.\<close>

definition status_for :: "'q lib \<Rightarrow> ResourceLimiterSpec \<Rightarrow> ResourceLimiterStatus \<Rightarrow> bool" where
  "status_for L sp st \<longleftrightarrow>
     (if Applied sp then State st = Ready \<and>
        list_all2 (\<lambda>q l. \<exists>rq :: 'q ResourceQuota. l = status_entry L rq q) (live_quotas (Quotas sp)) (StatusQuotas st)
      else State st = Stopped \<and> StatusQuotas st = [])"

text \<open>The calls of a pass over the object \<open>rl\<close>.\<close>

fun live_call :: "'q lib \<Rightarrow> ResourceLimiter \<Rightarrow> 'q entry \<Rightarrow> bool" where
  "live_call L rl (ReadNs k a) \<longleftrightarrow> (\<exists>q \<in> set (live_quotas (Quotas (Spec rl))). k = (NamespaceName q, NamespaceName q))"
| "live_call L rl (WroteNs m e) \<longleftrightarrow> enabled m"
| "live_call L rl (ReadRq k a) \<longleftrightarrow> (\<exists>q \<in> set (live_quotas (Quotas (Spec rl))). k = quota_key (NamespaceName q))"
| "live_call L rl (CreatedRq rq e) \<longleftrightarrow> Applied (Spec rl) \<and> Owner rq = Some (rl_name rl) \<and> Used rq = [] \<and>
     (\<exists>q \<in> set (live_quotas (Quotas (Spec rl))). key_of rq = quota_key (NamespaceName q) \<and> enforces L q rq)"
| "live_call L rl (WroteRq rq e) \<longleftrightarrow> Applied (Spec rl) \<and> (\<exists>q \<in> set (live_quotas (Quotas (Spec rl))). enforces L q rq)"
| "live_call L rl (DeletedRq rq e) \<longleftrightarrow> \<not> Applied (Spec rl)"
| "live_call L rl (WroteStatus x e) \<longleftrightarrow> x = rl\<lparr>Status := Status x\<rparr> \<and> status_for L (Spec rl) (Status x)"
| "live_call L rl _ \<longleftrightarrow> False"

fun deletion_call :: "ResourceLimiter \<Rightarrow> 'q entry \<Rightarrow> bool" where
  "deletion_call rl (ReadNs k a) \<longleftrightarrow> snd k \<in> NamespaceName ` set (Quotas (Spec rl))"
| "deletion_call rl (WroteNs m e) \<longleftrightarrow> unlabelled m"
| "deletion_call rl (ReadRq k a) \<longleftrightarrow> k \<in> quota_key ` NamespaceName ` set (Quotas (Spec rl))"
| "deletion_call rl (DeletedRq rq e) \<longleftrightarrow> True"
| "deletion_call rl (PatchedRl b x e) \<longleftrightarrow> b = rl \<and>
     x = set_finalizers (filter (\<lambda>f. f \<noteq> DefaultFinalizer) (Finalizers (Meta rl))) rl"
| "deletion_call rl _ \<longleftrightarrow> False"

definition pass_call :: "'q lib \<Rightarrow> ResourceLimiter \<Rightarrow> 'q entry \<Rightarrow> bool" where
  "pass_call L rl c = (if DeletionTimestamp (Meta rl) = None then live_call L rl c else deletion_call rl c)"

text \<open>The calls before the pass: the object is read; if our finalizer is missing it is patched and read again.\<close>

definition opening_calls :: "string \<Rightarrow> 'q entry list \<Rightarrow> bool" where
  "opening_calls n s \<longleftrightarrow> (\<exists>a. s = [ReadRl n a]) \<or>
     (\<exists>rl b x e. DefaultFinalizer \<notin> set (Finalizers (Meta rl)) \<and> x = with_ours rl \<and> (b = rl \<or> b = x) \<and>
        (s = [ReadRl n (Inr rl), PatchedRl b x e] \<or> (\<exists>a. s = [ReadRl n (Inr rl), PatchedRl b x e, ReadRl n a])))"

section \<open>What is sent by the parts\<close>

text \<open>\<open>sends E R m\<close>: what \<open>m\<close> adds to a log satisfies \<open>E\<close>, and its result \<open>R\<close>.\<close>

definition sends ::
  "('e \<Rightarrow> bool) \<Rightarrow> ('r \<Rightarrow> bool) \<Rightarrow> ('w \<times> 'e list \<Rightarrow> 'r \<times> ('w \<times> 'e list)) \<Rightarrow> bool" where
  "sends E R m \<longleftrightarrow> (\<forall>w t. \<exists>s r w'. m (w, t) = (r, (w', t @ s)) \<and> list_all E s \<and> R r)"

lemma sendsD:
  assumes "sends E R m" and "m (w, t) = (r, (w', t'))"
  obtains s where "t' = t @ s" "list_all E s" "R r"
  using assms unfolding sends_def by (metis prod.inject)

lemma sends_mono: "sends E R m \<Longrightarrow> (\<And>r. R r \<Longrightarrow> R' r) \<Longrightarrow> sends E R' m"
  unfolding sends_def by metis

lemma sends_return [intro]: "R r \<Longrightarrow> sends E R (\<lambda>u. (r, u))"
  by (auto simp: sends_def)

lemma sends_bind:
  assumes "sends E S m" and "\<And>a. S a \<Longrightarrow> sends E R (k a)"
  shows "sends E R (\<lambda>u. case m u of (a, u1) \<Rightarrow> k a u1)"
  unfolding sends_def
proof (intro allI)
  fix w t
  from assms(1) obtain s a w1 where 1: "m (w, t) = (a, (w1, t @ s))" "list_all E s" "S a" unfolding sends_def by blast
  from assms(2)[OF 1(3)] obtain s' r w2 where 2: "k a (w1, t @ s) = (r, (w2, (t @ s) @ s'))" "list_all E s'" "R r"
    unfolding sends_def by blast
  with 1 show "\<exists>s r w'. (case m (w, t) of (a, u1) \<Rightarrow> k a u1) = (r, (w', t @ s)) \<and> list_all E s \<and> R r"
    by (intro exI[of _ "s @ s'"]) simp
qed

lemma sends_noting: "(\<And>a. E (e a)) \<Longrightarrow> sends E (\<lambda>_. True) (noting e f)"
  by (auto simp: sends_def noting_def split: prod.splits)

lemma sends_if:
  "(c \<Longrightarrow> sends E R m) \<Longrightarrow> (\<not> c \<Longrightarrow> sends E R n) \<Longrightarrow> sends E R (\<lambda>u. if c then m u else n u)"
  by (cases c) simp_all

text \<open>The states a loop goes through.\<close>

primrec chain :: "('x \<Rightarrow> 's \<Rightarrow> 's \<Rightarrow> bool) \<Rightarrow> 'x list \<Rightarrow> 's \<Rightarrow> 's \<Rightarrow> bool" where
  "chain F [] s s' \<longleftrightarrow> s' = s"
| "chain F (x # xs) s s' \<longleftrightarrow> (\<exists>s1. F x s s1 \<and> chain F xs s1 s')"

lemma sends_for_loop:
  assumes "\<And>x s. x \<in> set xs \<Longrightarrow> sends E (\<lambda>r. \<forall>s'. r = Continue s' \<longrightarrow> F x s s') (body x s)"
  shows "sends E (\<lambda>r. \<forall>s'. r = Continue s' \<longrightarrow> chain F xs s s') (for_loop body xs s)"
  using assms
proof (induction xs arbitrary: s)
  case Nil
  then show ?case by (auto simp: sends_def)
next
  case (Cons x xs)
  have "for_loop body (x # xs) s = (\<lambda>u. case body x s u of (r, u1) \<Rightarrow>
      (case r of Continue s' \<Rightarrow> for_loop body xs s' u1 | Return e \<Rightarrow> (Return e, u1) | Panic m \<Rightarrow> (Panic m, u1)))"
    by (rule ext) (simp split: prod.splits ctl.splits)
  moreover have "sends E (\<lambda>r. \<forall>s'. r = Continue s' \<longrightarrow> chain F (x # xs) s s') \<dots>"
  proof (rule sends_bind[OF Cons.prems[of x s]])
    fix r assume r: "\<forall>s'. r = Continue s' \<longrightarrow> F x s s'"
    show "sends E (\<lambda>r. \<forall>s'. r = Continue s' \<longrightarrow> chain F (x # xs) s s') (\<lambda>u1. case r of
        Continue s' \<Rightarrow> for_loop body xs s' u1 | Return e \<Rightarrow> (Return e, u1) | Panic m \<Rightarrow> (Panic m, u1))"
    proof (cases r)
      case (Continue s1)
      with r have F: "F x s s1" by simp
      have "sends E (\<lambda>r. \<forall>s'. r = Continue s' \<longrightarrow> chain F xs s1 s') (for_loop body xs s1)"
        by (rule Cons.IH) (rule Cons.prems, simp)
      then have "sends E (\<lambda>r. \<forall>s'. r = Continue s' \<longrightarrow> chain F (x # xs) s s') (for_loop body xs s1)"
        by (rule sends_mono) (use F in \<open>auto simp only: chain.simps\<close>)
      then show ?thesis by (simp only: Continue ctl.case)
    next
      case (Return e)
      show ?thesis unfolding Return ctl.case by (rule sends_return) simp
    next
      case (Panic m)
      show ?thesis unfolding Panic ctl.case by (rule sends_return) simp
    qed
  qed simp
  ultimately show ?case by (simp only:)
qed

lemma sends_calls:
  "(\<And>a. E (ReadRl n a)) \<Longrightarrow> sends E (\<lambda>_. True) (get_rl (logged C) n)"
  "(\<And>e. E (PatchedRl b x e)) \<Longrightarrow> sends E (\<lambda>_. True) (patch_rl (logged C) b x)"
  "(\<And>e. E (WroteStatus x e)) \<Longrightarrow> sends E (\<lambda>_. True) (update_status (logged C) x)"
  "(\<And>a. E (ReadNs k a)) \<Longrightarrow> sends E (\<lambda>_. True) (get_ns (logged C) k)"
  "(\<And>e. E (WroteNs m e)) \<Longrightarrow> sends E (\<lambda>_. True) (update_ns (logged C) m)"
  "(\<And>a. E (ReadRq k a)) \<Longrightarrow> sends E (\<lambda>_. True) (get_rq (logged C) k)"
  "(\<And>e. E (CreatedRq q e)) \<Longrightarrow> sends E (\<lambda>_. True) (create_rq (logged C) q)"
  "(\<And>e. E (WroteRq q e)) \<Longrightarrow> sends E (\<lambda>_. True) (update_rq (logged C) q)"
  "(\<And>e. E (DeletedRq q e)) \<Longrightarrow> sends E (\<lambda>_. True) (delete_rq (logged C) q)"
  by (simp_all add: logged_def sends_noting)

lemma sends_sum:
  "(\<And>e. a = Inl e \<Longrightarrow> sends E R (f e)) \<Longrightarrow> (\<And>x. a = Inr x \<Longrightarrow> sends E R (g x)) \<Longrightarrow>
     sends E R (\<lambda>u. case a of Inl e \<Rightarrow> f e u | Inr x \<Rightarrow> g x u)"
  by (cases a) simp_all

lemma sends_option:
  "(a = None \<Longrightarrow> sends E R f) \<Longrightarrow> (\<And>x. a = Some x \<Longrightarrow> sends E R (g x)) \<Longrightarrow>
     sends E R (\<lambda>u. case a of None \<Rightarrow> f u | Some x \<Rightarrow> g x u)"
  by (cases a) simp_all

lemmas sends_intros = sends_if sends_sum sends_option sends_return

section \<open>The pass over a live object\<close>

text \<open>The line a round adds to the status.\<close>

definition adds_line :: "'q lib \<Rightarrow> ResourceLimiterQuota \<Rightarrow> ResourceLimiterQuota list \<Rightarrow> ResourceLimiterQuota list \<Rightarrow> bool" where
  "adds_line L q s s' \<longleftrightarrow> (if ignored (NamespaceName q) then s' = s
     else \<exists>rq :: 'q ResourceQuota. s' = s @ [status_entry L rq q])"

lemma chain_lines:
  assumes "chain (adds_line (L :: 'q lib)) qs s s'"
  shows "\<exists>ls. s' = s @ ls \<and> list_all2 (\<lambda>q l. \<exists>rq :: 'q ResourceQuota. l = status_entry L rq q) (live_quotas qs) ls"
  using assms
proof (induction qs arbitrary: s)
  case (Cons q qs)
  then obtain s1 where a: "adds_line L q s s1" and c: "chain (adds_line L) qs s1 s'" by auto
  from Cons.IH[OF c] obtain ls where ls: "s' = s1 @ ls"
    "list_all2 (\<lambda>q l. \<exists>rq :: 'q ResourceQuota. l = status_entry L rq q) (live_quotas qs) ls" by blast
  show ?case
  proof (cases "ignored (NamespaceName q)")
    case True
    with a ls show ?thesis by (simp add: adds_line_def)
  next
    case False
    with a obtain rq where "s1 = s @ [status_entry L rq q]" by (auto simp: adds_line_def)
    with ls False show ?thesis by (intro exI[of _ "status_entry L rq q # ls"]) auto
  qed
qed simp

context kube_lib
begin

lemma sends_create_quota:
  assumes "Applied (Spec rl)" and "q \<in> set (live_quotas (Quotas (Spec rl)))"
  shows "sends (live_call L rl) (\<lambda>r. \<forall>s'. r \<noteq> Continue s') (create_quota (logged C) L rl q)"
proof -
  have ok: "live_call L rl (CreatedRq rq2 e)"
    if "SetControllerReference L rl (empty_rq\<lparr>QuotaName := quota_name (NamespaceName q), QuotaNamespace := NamespaceName q\<rparr>) = Inr rq1"
      and "setHard L (rq1\<lparr>Hard := []\<rparr>) q = Inr rq2" for rq1 rq2 e
    using SetControllerReference_ok[OF that(1)] setHard_ok[OF that(2)] assms
    by (auto simp: quota_key_def empty_rq_def)
  show ?thesis
    unfolding create_quota_def[abs_def] Let_def
    by (intro sends_intros sends_bind[OF sends_calls(7)]) ((erule (1) ok | simp)+)
qed

lemma sends_update_quota:
  assumes "Applied (Spec rl)" and "q \<in> set (live_quotas (Quotas (Spec rl)))"
  shows "sends (live_call L rl) (\<lambda>r. \<forall>s'. r = Continue s' \<longrightarrow> s' = s @ [status_entry L rq q]) (update_quota (logged C) L rq q s)"
proof -
  have ok: "live_call L rl (WroteRq rq1 e)" if "setHard L (rq\<lparr>Hard := []\<rparr>) q = Inr rq1" for rq1 e
    using setHard_ok[OF that] assms by auto
  show ?thesis
    unfolding update_quota_def[abs_def] Let_def
    by (intro sends_intros sends_bind[OF sends_calls(8)]) ((erule ok | simp)+)
qed

lemma sends_apply_quota:
  assumes "Applied (Spec rl)" and "q \<in> set (live_quotas (Quotas (Spec rl)))"
  shows "sends (live_call L rl) (\<lambda>r. \<forall>s'. r = Continue s' \<longrightarrow> adds_line L q s s') (apply_quota (logged C) L rl q s)"
  unfolding apply_quota_def[abs_def]
proof (intro sends_intros sends_bind[OF sends_calls(6)])
  show "live_call L rl (ReadRq (quota_key (NamespaceName q)) a)" for a using assms(2) by auto
  show "sends (live_call L rl) (\<lambda>r. \<forall>s'. r = Continue s' \<longrightarrow> adds_line L q s s') (create_quota (logged C) L rl q)"
    by (rule sends_mono[OF sends_create_quota[OF assms]]) simp
  show "sends (live_call L rl) (\<lambda>r. \<forall>s'. r = Continue s' \<longrightarrow> adds_line L q s s') (update_quota (logged C) L rq q s)" for rq
    by (rule sends_mono[OF sends_update_quota[OF assms]]) (use assms(2) in \<open>auto simp: adds_line_def live_quotas_def\<close>)
qed simp

lemma sends_remove_quota:
  assumes "\<not> Applied (Spec rl)" and "q \<in> set (live_quotas (Quotas (Spec rl)))"
  shows "sends (live_call L rl) (\<lambda>_. True) (remove_quota (logged C) q s)"
  unfolding remove_quota_def[abs_def]
  by (intro sends_intros sends_bind[OF sends_calls(6)] sends_bind[OF sends_calls(9)]) (use assms in auto)

lemma sends_reconcile_quota:
  assumes "q \<in> set (Quotas (Spec rl))"
  shows "sends (live_call L rl) (\<lambda>r. \<forall>s'. r = Continue s' \<longrightarrow> Applied (Spec rl) \<longrightarrow> adds_line L q s s')
    (reconcile_quota (logged C) L rl q s)"
proof (cases "ignored (NamespaceName q)")
  case True
  then have "reconcile_quota (logged C) L rl q s = (\<lambda>u. (Continue s, u))" 
    by (auto simp: reconcile_quota_def ignored_def)
  with True show ?thesis by (auto simp: adds_line_def)
next
  case False
  then have live: "q \<in> set (live_quotas (Quotas (Spec rl)))" using assms by (simp add: live_quotas_def)
  show ?thesis
    unfolding reconcile_quota_def[abs_def]
  proof (intro sends_intros sends_bind[OF sends_calls(4)] sends_bind[OF sends_calls(5)])
    assume "Applied (Spec rl)"
    from sends_apply_quota[OF this live]
    show "sends (live_call L rl) (\<lambda>r. \<forall>s'. r = Continue s' \<longrightarrow> Applied (Spec rl) \<longrightarrow> adds_line L q s s') (apply_quota (logged C) L rl q s)"
      by (rule sends_mono) simp
  next
    assume "\<not> Applied (Spec rl)"
    from sends_remove_quota[OF this live]
    show "sends (live_call L rl) (\<lambda>r. \<forall>s'. r = Continue s' \<longrightarrow> Applied (Spec rl) \<longrightarrow> adds_line L q s s') (remove_quota (logged C) q s)"
      by (rule sends_mono) (use \<open>\<not> Applied (Spec rl)\<close> in simp)
  qed (use live False in \<open>auto simp: ignored_def\<close>)
qed

lemma sends_updateStatus:
  assumes "status_for L (Spec rl) st"
  shows "sends (live_call L rl) (\<lambda>_. True) (updateStatus (logged C) rl st)"
  unfolding updateStatus_def[abs_def] by (rule sends_calls(3)) (use assms in \<open>simp add: status_for_def\<close>)

lemma sends_reconcile: "sends (live_call L rl) (\<lambda>_. True) (reconcile (logged C) L rl)"
proof -
  let ?F = "\<lambda>q s s'. Applied (Spec rl) \<longrightarrow> adds_line L q s s'"
  have st: "status_for L (Spec rl) \<lparr>State = Ready, StatusQuotas = s'\<rparr>" if "Applied (Spec rl)" "chain ?F (Quotas (Spec rl)) [] s'" for s'
  proof -
    from that have "chain (adds_line L) (Quotas (Spec rl)) [] s'" by simp
    from chain_lines[OF this] that(1) show ?thesis by (simp add: status_for_def)
  qed
  have l: "sends (live_call L rl) (\<lambda>r. \<forall>s'. r = Continue s' \<longrightarrow> chain ?F (Quotas (Spec rl)) [] s')
      (for_loop (reconcile_quota (logged C) L rl) (Quotas (Spec rl)) [])"
    by (rule sends_for_loop) (rule sends_reconcile_quota)
  show ?thesis
    unfolding reconcile_def[abs_def]
  proof (rule sends_bind[OF l])
    fix r assume r: "\<forall>s'. r = Continue s' \<longrightarrow> chain ?F (Quotas (Spec rl)) [] s'"
    show "sends (live_call L rl) (\<lambda>_. True) (\<lambda>w1. case r of Return e \<Rightarrow> (Done e, w1) | Panic m \<Rightarrow> (Panicked m, w1)
        | Continue rlquotas \<Rightarrow> if Applied (Spec rl)
          then (case updateStatus (logged C) rl \<lparr>State = Ready, StatusQuotas = rlquotas\<rparr> w1 of
                  (Some e, w2) \<Rightarrow> (Done (Some e), w2)
                | (None, w2) \<Rightarrow> (Done None, w2))
          else (case updateStatus (logged C) rl \<lparr>State = Stopped, StatusQuotas = []\<rparr> w1 of
                  (e, w2) \<Rightarrow> (Done e, w2)))"
    proof (cases r)
      case (Continue s')
      with r have "chain ?F (Quotas (Spec rl)) [] s'" by simp
      then show ?thesis unfolding Continue ctl.case
        by (intro sends_intros sends_bind[OF sends_updateStatus]) (use st in \<open>auto simp: status_for_def\<close>)
    qed auto
  qed
qed

section \<open>The pass over an object under deletion\<close>

lemma sends_delete_quota:
  assumes "q \<in> set (Quotas (Spec rl))"
  shows "sends (deletion_call rl) (\<lambda>_. True) (delete_quota (logged C) q u)"
  unfolding delete_quota_def[abs_def]
  by (intro sends_intros sends_bind[OF sends_calls(4)] sends_bind[OF sends_calls(5)] sends_bind[OF sends_calls(6)]
      sends_bind[OF sends_calls(9)]) (use assms in auto)

lemma sends_remove_our_finalizer: "sends (deletion_call rl) (\<lambda>_. True) (remove_our_finalizer (logged C) L rl)"
proof -
  have b: "base_value ((\<lambda>_. empty_rl)(2 := rl, Suc 0 := x)) (MergeFrom L 2 rl) = rl" for x
    using MergeFrom_cases[of 2 rl] by auto
  show ?thesis
    unfolding remove_our_finalizer_def[abs_def] Let_def
    by (intro sends_intros sends_bind[OF sends_calls(2)]) (use b in \<open>auto simp: RemoveFinalizer_eq\<close>)
qed

lemma sends_reconcileDelete: "sends (deletion_call rl) (\<lambda>_. True) (reconcileDelete (logged C) L rl)"
proof -
  have l: "sends (deletion_call rl) (\<lambda>_. True) (for_loop (delete_quota (logged C)) (Quotas (Spec rl)) ())"
    by (rule sends_mono[OF sends_for_loop[where F = "\<lambda>q s s'. True"]]) (use sends_delete_quota in auto)
  have k: "sends (deletion_call rl) (\<lambda>_. True) (\<lambda>w1. case r of Return e \<Rightarrow> (Done e, w1) | Panic m \<Rightarrow> (Panicked m, w1)
      | Continue _ \<Rightarrow> remove_our_finalizer (logged C) L rl w1)" for r :: "unit ctl"
    using sends_remove_our_finalizer by (cases r) auto
  show ?thesis
    unfolding reconcileDelete_def[abs_def]
    by (intro sends_if sends_bind[OF l] k sends_remove_our_finalizer) (rule sends_return, simp)
qed

section \<open>The whole run\<close>

lemma register_finalizer_opens:
  "\<exists>r u s. register_finalizer (logged C) L n rl (w, [ReadRl n (Inr rl)]) = (r, (u, ReadRl n (Inr rl) # s)) \<and>
     opening_calls n (ReadRl n (Inr rl) # s) \<and> (\<forall>x. r = Inr x \<longrightarrow> last (ReadRl n (Inr rl) # s) = ReadRl n (Inr x))"
proof (cases "ContainsFinalizer L rl DefaultFinalizer")
  case True
  then show ?thesis by (simp add: register_finalizer_def opening_calls_def)
next
  case False
  let ?o = "AddFinalizer L rl DefaultFinalizer"
  let ?b = "base_value ((\<lambda>_. empty_rl)(1 := ?o)) (MergeFrom L 1 rl)"
  have o: "DefaultFinalizer \<notin> set (Finalizers (Meta rl))" "?o = with_ours rl" "?b = rl \<or> ?b = with_ours rl"
    using False MergeFrom_cases[of 1 rl] AddFinalizer_eq[of DefaultFinalizer rl]
    by (auto simp: ContainsFinalizer_iff with_ours_def)
  obtain e w1 where e: "patch_rl C ?b ?o w = (e, w1)" by (cases "patch_rl C ?b ?o w")
  obtain a w2 where a: "get_rl C n w1 = (a, w2)" by (cases "get_rl C n w1")
  show ?thesis
    using False e a o by (cases e; cases a) (auto simp: register_finalizer_def Let_def opening_calls_def)
qed

lemma sends_pass:
  "sends (pass_call L rl) (\<lambda>_. True) (\<lambda>u. if DeletionTimestamp (Meta rl) \<noteq> None then reconcileDelete (logged C) L rl u
     else reconcile (logged C) L rl u)"
proof (cases "DeletionTimestamp (Meta rl) = None")
  case True
  then have "pass_call L rl = live_call L rl" by (auto simp: pass_call_def)
  with True sends_reconcile show ?thesis by simp
next
  case False
  then have "pass_call L rl = deletion_call rl" by (auto simp: pass_call_def)
  with False sends_reconcileDelete show ?thesis by simp
qed

lemma Reconcile_sends:
  assumes "Reconcile (logged C) L n (w, []) = (out, (w', t))"
  shows "\<exists>s p. t = s @ p \<and> opening_calls n s \<and>
    (p = [] \<or> (\<exists>rl. last s = ReadRl n (Inr rl) \<and> list_all (pass_call L rl) p))"
proof -
  obtain a w1 where a: "get_rl C n w = (a, w1)" by (cases "get_rl C n w")
  show ?thesis
  proof (cases a)
    case (Inl e)
    with a assms have "t = [ReadRl n a]" by (simp add: Reconcile_def)
    then show ?thesis by (intro exI[of _ t] exI[of _ "[]"]) (simp add: opening_calls_def)
  next
    case (Inr rl0)
    let ?R = "ReadRl n (Inr rl0)"
    from register_finalizer_opens[of C n rl0 w1] obtain r u s0
      where r: "register_finalizer (logged C) L n rl0 (w1, [?R]) = (r, (u, ?R # s0))" and s0: "opening_calls n (?R # s0)"
        and last: "\<forall>x. r = Inr x \<longrightarrow> last (?R # s0) = ReadRl n (Inr x)" by blast
    show ?thesis
    proof (cases r)
      case (Inl e)
      with a Inr r assms have "t = ?R # s0" by (simp add: Reconcile_def)
      with s0 show ?thesis by (intro exI[of _ t] exI[of _ "[]"]) simp
    next
      case r': (Inr rl)
      with last have last: "last (?R # s0) = ReadRl n (Inr rl)" by simp
      from sends_pass[of rl C] obtain q p u'
        where p: "(if DeletionTimestamp (Meta rl) \<noteq> None then reconcileDelete (logged C) L rl (u, ?R # s0)
            else reconcile (logged C) L rl (u, ?R # s0)) = (q, (u', (?R # s0) @ p))" "list_all (pass_call L rl) p"
        unfolding sends_def by blast
      with a Inr r r' assms have "t = (?R # s0) @ p" by (simp add: Reconcile_def)
      with s0 last p(2) show ?thesis by (intro exI[of _ "?R # s0"] exI[of _ p]) auto
    qed
  qed
qed

lemma pass_reads_no_object: "list_all (pass_call L rl) p \<Longrightarrow> object_read p = None"
proof (induction p)
  case (Cons e p)
  then show ?case by (cases e) (auto simp: pass_call_def split: if_splits)
qed simp

text \<open>Each call is well formed, and each write is made from the read before it.\<close>

lemma Reconcile_backed:
  assumes "Reconcile (logged C) L n (w, []) = (out, (w', t))"
  shows "\<exists>s p. t = s @ p \<and> opening_calls n s \<and>
    (p = [] \<or> (\<exists>rl. last s = ReadRl n (Inr rl) \<and> list_all (pass_call L rl) p \<and>
       (\<forall>i. Suc i < length t \<longrightarrow> backs L rl (t ! i) (t ! Suc i))))"
proof -
  from Reconcile_sends[OF assms] obtain s p where t: "t = s @ p" "opening_calls n s"
    "p = [] \<or> (\<exists>rl. last s = ReadRl n (Inr rl) \<and> list_all (pass_call L rl) p)" by blast
  from Reconcile_log[of C L n w] assms have l: "run_log L n out t" by (cases "Reconcile C L n w") auto
  have "\<forall>i. Suc i < length t \<longrightarrow> backs L rl (t ! i) (t ! Suc i)"
    if "last s = ReadRl n (Inr rl)" "list_all (pass_call L rl) p" for rl
  proof -
    have "object_read s = Some rl" using t(2) that(1) by (auto simp: opening_calls_def)
    then have "object_read t = Some rl" using t(1) pass_reads_no_object[OF that(2)] by simp
    with l have "disciplined L rl t" by (simp add: run_log_def)
    with disciplined_nth show ?thesis unfolding may_follow_def by blast
  qed
  with t show ?thesis by blast
qed

end

end
