(* ===== verification/Call_Grammar.thy ===== *)
theory Call_Grammar
  imports Call_Contents
begin

text \<open>
  The whole work of a run. The calls of a run that returns no error, in their order, follow a grammar over the entries
  of the object it has read: nothing is skipped, nothing is repeated, every write has been acknowledged. This
  holds for any client, and so whatever others do to the cluster in the meantime.
\<close>

section \<open>The grammar\<close>

definition final_status :: "ResourceLimiterSpec \<Rightarrow> ResourceLimiterQuota list \<Rightarrow> ResourceLimiterStatus" where
  "final_status sp ls = (if Applied sp then \<lparr>State = Ready, StatusQuotas = ls\<rparr> else \<lparr>State = Stopped, StatusQuotas = []\<rparr>)"

text \<open>The new quota of an entry.\<close>

definition new_quota :: "'q lib \<Rightarrow> ResourceLimiter \<Rightarrow> ResourceLimiterQuota \<Rightarrow> 'q ResourceQuota \<Rightarrow> bool" where
  "new_quota L rl q rq \<longleftrightarrow> key_of rq = quota_key (NamespaceName q) \<and> Owner rq = Some (rl_name rl) \<and>
     Used rq = [] \<and> enforces L q rq"

text \<open>Labels of the namespace of an entry are read and written.\<close>

abbreviation labelling :: "ResourceLimiterQuota \<Rightarrow> Namespace \<Rightarrow> 'q entry list \<Rightarrow> 'q entry list" where
  "labelling q x p \<equiv> ReadNs (NamespaceName q, NamespaceName q) (Inr x) # WroteNs (label_namespace x) None # p"

text \<open>The calls of a pass over the live object \<open>rl\<close>, for the entries that are left and the status lines so far.\<close>

inductive live_log ::
  "'q lib \<Rightarrow> ResourceLimiter \<Rightarrow> ResourceLimiterQuota list \<Rightarrow> ResourceLimiterQuota list \<Rightarrow> 'q entry list \<Rightarrow> bool"
  for L rl where
  finished: "live_log L rl [] ls [WroteStatus (rl\<lparr>Status := final_status (Spec rl) ls\<rparr>) None]"
| skipped: "ignored (NamespaceName q) \<Longrightarrow> live_log L rl qs ls p \<Longrightarrow> live_log L rl (q # qs) ls p"
| limited: "\<not> ignored (NamespaceName q) \<Longrightarrow> Applied (Spec rl) \<Longrightarrow> setHard L (rq\<lparr>Hard := []\<rparr>) q = Inr rq' \<Longrightarrow>
    live_log L rl qs (ls @ [status_entry L rq q]) p \<Longrightarrow>
    live_log L rl (q # qs) ls (labelling q x (ReadRq (quota_key (NamespaceName q)) (Inr rq) # WroteRq rq' None # p))"
| created: "\<not> ignored (NamespaceName q) \<Longrightarrow> Applied (Spec rl) \<Longrightarrow> new_quota L rl q rq \<Longrightarrow>
    live_log L rl (q # qs) ls (labelling q x [ReadRq (quota_key (NamespaceName q)) (Inl NotFound), CreatedRq rq None])"
| removed: "\<not> ignored (NamespaceName q) \<Longrightarrow> \<not> Applied (Spec rl) \<Longrightarrow> live_log L rl qs ls p \<Longrightarrow>
    live_log L rl (q # qs) ls (labelling q x (ReadRq (quota_key (NamespaceName q)) (Inr rq) # DeletedRq rq None # p))"
| absent: "\<not> ignored (NamespaceName q) \<Longrightarrow> \<not> Applied (Spec rl) \<Longrightarrow> live_log L rl qs ls p \<Longrightarrow>
    live_log L rl (q # qs) ls (labelling q x (ReadRq (quota_key (NamespaceName q)) (Inl NotFound) # p))"

text \<open>The calls of a pass over an object under deletion.\<close>

inductive deletion_log :: "ResourceLimiter \<Rightarrow> ResourceLimiterQuota list \<Rightarrow> 'q entry list \<Rightarrow> bool" for rl where
  released: "deletion_log rl []
    [PatchedRl rl (set_finalizers (filter (\<lambda>f. f \<noteq> DefaultFinalizer) (Finalizers (Meta rl))) rl) None]"
| gone: "deletion_log rl qs p \<Longrightarrow> deletion_log rl (q # qs) (ReadNs ('''', NamespaceName q) (Inl NotFound) # p)"
| cleaned: "deletion_log rl qs p \<Longrightarrow>
    deletion_log rl (q # qs) (ReadNs ('''', NamespaceName q) (Inr y) # ReadRq (quota_key (NamespaceName q)) (Inr rq) #
      DeletedRq rq None # ReadNs (NamespaceName q, NamespaceName q) (Inr x) # WroteNs (unlabel_namespace x) None # p)"

text \<open>The calls that fetch the object: if our finalizer is missing it is patched and read again.\<close>

definition fetching :: "string \<Rightarrow> ResourceLimiter \<Rightarrow> 'q entry list \<Rightarrow> bool" where
  "fetching n rl s \<longleftrightarrow> DefaultFinalizer \<in> set (Finalizers (Meta rl)) \<and> s = [ReadRl n (Inr rl)] \<or>
     (\<exists>rl0 b. DefaultFinalizer \<notin> set (Finalizers (Meta rl0)) \<and> (b = rl0 \<or> b = with_ours rl0) \<and>
        s = [ReadRl n (Inr rl0), PatchedRl b (with_ours rl0) None, ReadRl n (Inr rl)])"

definition complete_log :: "'q lib \<Rightarrow> string \<Rightarrow> 'q entry list \<Rightarrow> bool" where
  "complete_log L n t \<longleftrightarrow> (\<exists>rl s p. t = s @ p \<and> fetching n rl s \<and>
     (if DeletionTimestamp (Meta rl) = None then live_log L rl (Quotas (Spec rl)) [] p
      else DefaultFinalizer \<in> set (Finalizers (Meta rl)) \<and>
        deletion_log rl (if State (Status rl) = Stopped then [] else Quotas (Spec rl)) p))"

lemma complete_logI:
  assumes "fetching n rl s" and "DeletionTimestamp (Meta rl) = None \<Longrightarrow> live_log L rl (Quotas (Spec rl)) [] p"
    and "DeletionTimestamp (Meta rl) \<noteq> None \<Longrightarrow> DefaultFinalizer \<in> set (Finalizers (Meta rl)) \<and>
      deletion_log rl (if State (Status rl) = Stopped then [] else Quotas (Spec rl)) p"
  shows "complete_log L n (s @ p)"
  unfolding complete_log_def using assms by (intro exI[of _ rl] exI[of _ s] exI[of _ p]) simp

section \<open>Rounds and loops\<close>

context kube_lib
begin

lemma create_quota_log:
  assumes "create_quota (logged C) L rl q (w, t) = (r, (w', t'))"
  shows "r \<noteq> Continue ls" "r = Return None \<Longrightarrow> \<exists>rq. t' = t @ [CreatedRq rq None] \<and> new_quota L rl q rq"
proof -
  from assms show "r \<noteq> Continue ls" by (auto simp: create_quota_def Let_def split: sum.splits prod.splits option.splits)
  assume "r = Return None"
  with assms obtain rq1 rq2
    where 1: "SetControllerReference L rl (empty_rq\<lparr>QuotaName := quota_name (NamespaceName q), QuotaNamespace := NamespaceName q\<rparr>) = Inr rq1"
      and 2: "setHard L (rq1\<lparr>Hard := []\<rparr>) q = Inr rq2" and t: "t' = t @ [CreatedRq rq2 None]"
    by (auto simp: create_quota_def Let_def split: sum.splits prod.splits option.splits)
  from SetControllerReference_ok[OF 1] setHard_ok[OF 2] have "new_quota L rl q rq2"
    by (auto simp: new_quota_def quota_key_def empty_rq_def)
  with t show "\<exists>rq. t' = t @ [CreatedRq rq None] \<and> new_quota L rl q rq" by blast
qed

lemma apply_quota_log:
  assumes "apply_quota (logged C) L rl q ls (w, t) = (r, (w', t'))"
  shows "r = Continue ls' \<Longrightarrow> \<exists>rq rq'. t' = t @ [ReadRq (quota_key (NamespaceName q)) (Inr rq), WroteRq rq' None] \<and>
      setHard L (rq\<lparr>Hard := []\<rparr>) q = Inr rq' \<and> ls' = ls @ [status_entry L rq q]"
    "r = Return None \<Longrightarrow> \<exists>rq. t' = t @ [ReadRq (quota_key (NamespaceName q)) (Inl NotFound), CreatedRq rq None] \<and>
      new_quota L rl q rq"
proof -
  let ?k = "quota_key (NamespaceName q)"
  obtain a w1 where a: "get_rq C ?k w = (a, w1)" by (cases "get_rq C ?k w")
  have "(r = Continue ls' \<longrightarrow> (\<exists>rq rq'. t' = t @ [ReadRq ?k (Inr rq), WroteRq rq' None] \<and>
      setHard L (rq\<lparr>Hard := []\<rparr>) q = Inr rq' \<and> ls' = ls @ [status_entry L rq q])) \<and>
    (r = Return None \<longrightarrow> (\<exists>rq. t' = t @ [ReadRq ?k (Inl NotFound), CreatedRq rq None] \<and> new_quota L rl q rq))"
  proof (cases a)
    case (Inl e)
    show ?thesis
    proof (cases "e = NotFound")
      case True
      with Inl a assms have "create_quota (logged C) L rl q (w1, t @ [ReadRq ?k (Inl NotFound)]) = (r, (w', t'))"
        by (simp add: apply_quota_def)
      from create_quota_log[OF this] show ?thesis by auto
    qed (use Inl a assms in \<open>auto simp: apply_quota_def\<close>)
  next
    case (Inr rq)
    with a assms show ?thesis
      by (auto simp: apply_quota_def update_quota_def Let_def split: sum.splits prod.splits option.splits)
  qed
  then show "r = Continue ls' \<Longrightarrow> \<exists>rq rq'. t' = t @ [ReadRq ?k (Inr rq), WroteRq rq' None] \<and>
      setHard L (rq\<lparr>Hard := []\<rparr>) q = Inr rq' \<and> ls' = ls @ [status_entry L rq q]"
    "r = Return None \<Longrightarrow> \<exists>rq. t' = t @ [ReadRq ?k (Inl NotFound), CreatedRq rq None] \<and> new_quota L rl q rq" by blast+
qed

lemma remove_quota_log:
  assumes "remove_quota (logged C) q ls (w, t) = (r, (w', t'))"
  shows "r = Continue ls' \<Longrightarrow> ls' = ls \<and> (t' = t @ [ReadRq (quota_key (NamespaceName q)) (Inl NotFound)] \<or>
      (\<exists>rq. t' = t @ [ReadRq (quota_key (NamespaceName q)) (Inr rq), DeletedRq rq None]))"
    "r \<noteq> Return None"
  using assms by (auto simp: remove_quota_def split: sum.splits prod.splits option.splits if_splits)

text \<open>What a round adds to the log is what the grammar has for its entry.\<close>

definition round_log ::
  "ResourceLimiter \<Rightarrow> ResourceLimiterQuota \<Rightarrow> ResourceLimiterQuota list \<Rightarrow> ResourceLimiterQuota list ctl \<Rightarrow> 'q entry list \<Rightarrow> bool" where
  "round_log rl q ls r s \<longleftrightarrow>
     (\<forall>ls' qs p. r = Continue ls' \<longrightarrow> live_log L rl qs ls' p \<longrightarrow> live_log L rl (q # qs) ls (s @ p)) \<and>
     (\<forall>qs. r = Return None \<longrightarrow> live_log L rl (q # qs) ls s)"

lemma live_round_log:
  assumes "reconcile_quota (logged C) L rl q ls (w, t) = (r, (w', t'))"
    and "r = Return None \<or> (\<exists>ls'. r = Continue ls')"
  shows "\<exists>s. t' = t @ s \<and> round_log rl q ls r s"
proof (cases "ignored (NamespaceName q)")
  case True
  with assms(1) have "r = Continue ls" "t' = t" by (auto simp: reconcile_quota_def ignored_def)
  with True show ?thesis by (auto simp: round_log_def intro: live_log.skipped)
next
  case False
  let ?ns = "NamespaceName q"
  obtain a w1 where a: "get_ns C (?ns, ?ns) w = (a, w1)" by (cases "get_ns C (?ns, ?ns) w")
  from a assms False obtain x where x: "a = Inr x" by (cases a) (auto simp: reconcile_quota_def ignored_def)
  obtain e w2 where e: "update_ns C (label_namespace x) w1 = (e, w2)" by (cases "update_ns C (label_namespace x) w1")
  from a x e assms False have en: "e = None" by (cases e) (auto simp: reconcile_quota_def ignored_def)
  let ?t = "t @ labelling q x []"
  have m: "(if Applied (Spec rl) then apply_quota (logged C) L rl q ls (w2, ?t) else remove_quota (logged C) q ls (w2, ?t)) =
      (r, (w', t'))" using a x e en assms(1) False by (simp add: reconcile_quota_def ignored_def)
  show ?thesis
  proof (cases "Applied (Spec rl)")
    case True
    with m have "apply_quota (logged C) L rl q ls (w2, ?t) = (r, (w', t'))" by simp
    note l = apply_quota_log[OF this]
    from assms(2) show ?thesis
    proof (elim disjE exE)
      assume r: "r = Return None"
      from l(2)[OF r] live_log.created[OF False True] show ?thesis unfolding round_log_def r by auto
    next
      fix ls' assume r: "r = Continue ls'"
      from l(1)[OF r] live_log.limited[OF False True] show ?thesis unfolding round_log_def r by auto
    qed
  next
    case na: False
    with m have "remove_quota (logged C) q ls (w2, ?t) = (r, (w', t'))" by simp
    note l = remove_quota_log[OF this]
    from assms(2) l(2) obtain ls' where r: "r = Continue ls'" by blast
    from l(1)[OF r] live_log.removed[OF False na] live_log.absent[OF False na] show ?thesis
      unfolding round_log_def r by auto
  qed
qed

lemma live_loop_log:
  assumes "for_loop (reconcile_quota (logged C) L rl) qs ls (w, t) = (r, (w', t'))"
    and "r = Return None \<or> (\<exists>ls'. r = Continue ls')"
  shows "\<exists>s. t' = t @ s \<and> (\<forall>ls' p. r = Continue ls' \<longrightarrow> live_log L rl [] ls' p \<longrightarrow> live_log L rl qs ls (s @ p)) \<and>
    (r = Return None \<longrightarrow> live_log L rl qs ls s)"
  using assms
proof (induction qs arbitrary: ls w t)
  case Nil
  then show ?case by auto
next
  case (Cons q qs)
  obtain c w1 t1 where c: "reconcile_quota (logged C) L rl q ls (w, t) = (c, (w1, t1))" by (metis prod.exhaust)
  show ?case
  proof (cases "\<exists>ls1. c = Continue ls1")
    case True
    then obtain ls1 where ls1: "c = Continue ls1" by blast
    with c Cons.prems(1) have l: "for_loop (reconcile_quota (logged C) L rl) qs ls1 (w1, t1) = (r, (w', t'))" by simp
    from live_round_log[OF c] ls1 obtain s1 where s1: "t1 = t @ s1" "round_log rl q ls c s1" by blast
    from Cons.IH[OF l Cons.prems(2)] obtain s2 where s2: "t' = t1 @ s2"
      "\<forall>ls' p. r = Continue ls' \<longrightarrow> live_log L rl [] ls' p \<longrightarrow> live_log L rl qs ls1 (s2 @ p)"
      "r = Return None \<longrightarrow> live_log L rl qs ls1 s2" by blast
    from s1 s2 ls1 show ?thesis by (intro exI[of _ "s1 @ s2"]) (simp add: round_log_def)
  next
    case False
    with c Cons.prems have "c = r" "t1 = t'" by (cases c; auto)+
    with live_round_log[OF c] Cons.prems(2) False show ?thesis by (auto simp: round_log_def)
  qed
qed

lemma reconcile_log:
  assumes "reconcile (logged C) L rl (w, t) = (Done None, (w', t'))"
  shows "\<exists>p. t' = t @ p \<and> live_log L rl (Quotas (Spec rl)) [] p"
proof -
  obtain c w1 t1 where c: "for_loop (reconcile_quota (logged C) L rl) (Quotas (Spec rl)) [] (w, t) = (c, (w1, t1))"
    by (metis prod.exhaust)
  show ?thesis
  proof (cases c)
    case (Continue ls)
    from live_loop_log[OF c] Continue obtain s where s: "t1 = t @ s"
      "\<forall>p. live_log L rl [] ls p \<longrightarrow> live_log L rl (Quotas (Spec rl)) [] (s @ p)" by blast
    have "t' = t1 @ [WroteStatus (rl\<lparr>Status := final_status (Spec rl) ls\<rparr>) None]"
      using assms c Continue
      by (auto simp: reconcile_def updateStatus_def final_status_def split: prod.splits option.splits if_splits)
    with s live_log.finished[of L rl ls] show ?thesis by auto
  next
    case (Return e)
    with assms c have "e = None" "t1 = t'" by (simp_all add: reconcile_def)
    with live_loop_log[OF c] Return show ?thesis by blast
  next
    case (Panic m)
    with assms c show ?thesis by (simp add: reconcile_def)
  qed
qed

section \<open>Deletion, and the whole run\<close>

lemma delete_round_log:
  assumes "delete_quota (logged C) q u (w, t) = (r, (w', t'))"
  shows "r = Continue v \<Longrightarrow> \<exists>s. t' = t @ s \<and> (\<forall>qs p. deletion_log rl qs p \<longrightarrow> deletion_log rl (q # qs) (s @ p))"
    "r \<noteq> Return None"
proof -
  show "r \<noteq> Return None"
    using assms by (auto simp: delete_quota_def split: sum.splits prod.splits option.splits if_splits)
  assume "r = Continue v"
  with assms have "t' = t @ [ReadNs ('''', NamespaceName q) (Inl NotFound)] \<or>
      (\<exists>y rq x. t' = t @ [ReadNs ('''', NamespaceName q) (Inr y), ReadRq (quota_key (NamespaceName q)) (Inr rq),
         DeletedRq rq None, ReadNs (NamespaceName q, NamespaceName q) (Inr x), WroteNs (unlabel_namespace x) None])"
    by (auto simp: delete_quota_def split: sum.splits prod.splits option.splits if_splits)
  then show "\<exists>s. t' = t @ s \<and> (\<forall>qs p. deletion_log rl qs p \<longrightarrow> deletion_log rl (q # qs) (s @ p))"
    by (auto intro: deletion_log.gone deletion_log.cleaned)
qed

lemma delete_loop_log:
  assumes "for_loop (delete_quota (logged C)) qs u (w, t) = (Continue v, (w', t'))"
  shows "\<exists>s. t' = t @ s \<and> (\<forall>p. deletion_log rl [] p \<longrightarrow> deletion_log rl qs (s @ p))"
  using assms
proof (induction qs arbitrary: u w t)
  case (Cons q qs)
  obtain c w1 t1 where c: "delete_quota (logged C) q u (w, t) = (c, (w1, t1))" by (metis prod.exhaust)
  with Cons.prems obtain u1 where u1: "c = Continue u1" by (cases c) auto
  with c Cons.prems have "for_loop (delete_quota (logged C)) qs u1 (w1, t1) = (Continue v, (w', t'))" by simp
  from Cons.IH[OF this] delete_round_log(1)[OF c u1, of rl] obtain s1 s2
    where "t' = t1 @ s2" "\<forall>p. deletion_log rl [] p \<longrightarrow> deletion_log rl qs (s2 @ p)"
      "t1 = t @ s1" "\<forall>qs p. deletion_log rl qs p \<longrightarrow> deletion_log rl (q # qs) (s1 @ p)" by blast
  then show ?case by (intro exI[of _ "s1 @ s2"]) simp
qed auto

lemma remove_our_finalizer_log:
  assumes "remove_our_finalizer (logged C) L rl (w, t) = (Done None, (w', t'))"
  shows "\<exists>p. t' = t @ p \<and> deletion_log rl [] p"
proof -
  have b: "base_value ((\<lambda>_. empty_rl)(2 := rl, Suc 0 := x)) (MergeFrom L 2 rl) = rl" for x
    using MergeFrom_cases[of 2 rl] by auto
  from assms have "t' = t @ [PatchedRl rl (set_finalizers (filter (\<lambda>f. f \<noteq> DefaultFinalizer) (Finalizers (Meta rl))) rl) None]"
    by (auto simp: remove_our_finalizer_def Let_def b RemoveFinalizer_eq split: prod.splits option.splits)
  with deletion_log.released show ?thesis by blast
qed

lemma reconcileDelete_log:
  assumes "reconcileDelete (logged C) L rl (w, t) = (Done None, (w', t'))"
  shows "DefaultFinalizer \<in> set (Finalizers (Meta rl)) \<and>
    (\<exists>p. t' = t @ p \<and> deletion_log rl (if State (Status rl) = Stopped then [] else Quotas (Spec rl)) p)"
proof (cases "State (Status rl) = Stopped")
  case True
  with assms remove_our_finalizer_log show ?thesis
    by (auto simp: reconcileDelete_def ContainsFinalizer_iff split: if_splits)
next
  case False
  obtain c w1 t1 where c: "for_loop (delete_quota (logged C)) (Quotas (Spec rl)) () (w, t) = (c, (w1, t1))"
    by (metis prod.exhaust)
  have f: "DefaultFinalizer \<in> set (Finalizers (Meta rl))"
    using assms by (auto simp: reconcileDelete_def ContainsFinalizer_iff split: if_splits)
  show ?thesis
  proof (cases c)
    case (Continue v)
    with assms c f False have "remove_our_finalizer (logged C) L rl (w1, t1) = (Done None, (w', t'))"
      by (simp add: reconcileDelete_def ContainsFinalizer_iff)
    from remove_our_finalizer_log[OF this] delete_loop_log[OF c[unfolded Continue], of rl] f False show ?thesis by auto
  next
    case (Return e)
    from for_loop_stopped[OF c] Return obtain x s1 u where d: "delete_quota (logged C) x s1 u = (Return e, (w1, t1))" by auto
    from Return assms c f False have "e = None" by (simp add: reconcileDelete_def ContainsFinalizer_iff)
    with d delete_round_log(2)[of C x s1 "fst u" "snd u" "Return e" w1 t1] show ?thesis by simp
  next
    case (Panic m)
    with assms c f False show ?thesis by (simp add: reconcileDelete_def ContainsFinalizer_iff)
  qed
qed

lemma register_finalizer_log:
  assumes "register_finalizer (logged C) L n rl0 (w, t) = (Inr rl, (w', t'))" and "t = [ReadRl n (Inr rl0)]"
  shows "fetching n rl t'"
proof (cases "DefaultFinalizer \<in> set (Finalizers (Meta rl0))")
  case True
  with assms show ?thesis by (auto simp: register_finalizer_def ContainsFinalizer_iff fetching_def)
next
  case False
  let ?b = "base_value ((\<lambda>_. empty_rl)(1 := with_ours rl0)) (MergeFrom L 1 rl0)"
  have b: "?b = rl0 \<or> ?b = with_ours rl0" using MergeFrom_cases[of 1 rl0] by auto
  have o: "AddFinalizer L rl0 DefaultFinalizer = with_ours rl0"
    using AddFinalizer_eq[OF False] by (simp add: with_ours_def)
  from assms False o have "t' = [ReadRl n (Inr rl0), PatchedRl ?b (with_ours rl0) None, ReadRl n (Inr rl)]"
    by (auto simp: register_finalizer_def ContainsFinalizer_iff Let_def split: prod.splits option.splits sum.splits)
  with False b show ?thesis unfolding fetching_def by blast
qed

lemma Reconcile_complete_log:
  assumes "Reconcile (logged C) L n (w, []) = (Done None, (w', t))"
  shows "complete_log L n t"
proof -
  obtain a w1 where a: "get_rl C n w = (a, w1)" by (cases "get_rl C n w")
  with assms obtain rl0 where rl0: "a = Inr rl0" by (cases a) (auto simp: Reconcile_def)
  obtain b w2 t2 where b: "register_finalizer (logged C) L n rl0 (w1, [ReadRl n (Inr rl0)]) = (b, (w2, t2))"
    by (metis prod.exhaust)
  with assms a rl0 obtain rl where rl: "b = Inr rl" by (cases b) (auto simp: Reconcile_def)
  from register_finalizer_log[OF b[unfolded rl] refl] have f: "fetching n rl t2" .
  have pass: "(if DeletionTimestamp (Meta rl) \<noteq> None then reconcileDelete (logged C) L rl (w2, t2)
      else reconcile (logged C) L rl (w2, t2)) = (Done None, (w', t))"
    using assms a rl0 b rl by (simp add: Reconcile_def)
  show ?thesis
  proof (cases "DeletionTimestamp (Meta rl) = None")
    case True
    with pass have "reconcile (logged C) L rl (w2, t2) = (Done None, (w', t))" by simp
    from reconcile_log[OF this] obtain p where "t = t2 @ p" "live_log L rl (Quotas (Spec rl)) [] p" by blast
    with complete_logI[OF f, of L p] True show ?thesis by simp
  next
    case False
    with pass have "reconcileDelete (logged C) L rl (w2, t2) = (Done None, (w', t))" by simp
    from reconcileDelete_log[OF this] obtain p where "t = t2 @ p" "DefaultFinalizer \<in> set (Finalizers (Meta rl))"
      "deletion_log rl (if State (Status rl) = Stopped then [] else Quotas (Spec rl)) p" by blast
    with complete_logI[OF f, of L p] False show ?thesis by simp
  qed
qed

end

section \<open>What the grammar says\<close>

lemma live_log_nonempty: "live_log L rl qs ls p \<Longrightarrow> p \<noteq> []"
  by (induction rule: live_log.induct) auto

text \<open>Every entry that is not ignored has had its labels written and, if \<open>applied\<close> is set, its limits - or the run
  has created a quota and stopped there.\<close>

lemma live_log_covers:
  assumes "live_log L rl qs ls p" and "Applied (Spec rl)" and "q \<in> set (live_quotas qs)"
  shows "(\<exists>x. WroteNs (label_namespace x) None \<in> set p \<and> (\<exists>rq. WroteRq rq None \<in> set p \<and> enforces L q rq)) \<or>
    (\<exists>rq. last p = CreatedRq rq None)"
  using assms
proof (induction rule: live_log.induct)
  case (limited q' rq rq' qs ls p x)
  have "p \<noteq> []" using live_log_nonempty[OF limited.hyps(4)] .
  moreover have "enforces L q' rq'" using setHard_ok[OF limited.hyps(3)] by auto
  ultimately show ?case using limited.IH limited.prems by (cases "q = q'") (auto split: if_splits)
qed (auto simp: live_quotas_def)

end
