(* ===== verification/Controller_Calls.thy ===== *)
theory Controller_Calls
  imports Call_Grammar Controller_Safety
begin

text \<open>The properties of the calls of one run, for every client whatsoever, and the log of a run on the
  in-memory API server as their witness.\<close>

text \<open>C11: the protocol of a run, for any client. It begins with reading the object; if no read of the object ever succeeds, that
  read is the only call and its error is returned. Otherwise let \<open>rl\<close> be the object as it was read last. A call is followed by
  another one only if it went through and is neither the creation of a quota nor the write of the status, with two exceptions: the
  quota of a live object may be missing, and under deletion the first read of a namespace may find none. If the missing quota
  is that of an applied object, the next call is its creation. Every write of a namespace or quota comes straight after the read it
  relies on, which was for a listed entry, and writes exactly what was read: the namespace with the labels set (under
  deletion: taken off), the quota with its limits replaced by those of the entry, a new quota where none was found, and the quota
  that was read when it is deleted. No error is swallowed: if the last call failed, its error is returned - or, where it was the
  read of a missing quota that could then not be prepared, another error - and \<open>nil\<close> is returned only if the last call
  went through.\<close>

theorem Reconcile_protocol:
  assumes "Reconcile (logged C) L n (w, []) = (out, w', t)"
  shows "Reconcile C L n w = (out, w') \<and> (\<exists>a s. t = ReadRl n a # s) \<and>
    (case object_read t of
       None \<Rightarrow> \<exists>e. t = [ReadRl n (Inl e)] \<and> out = Done (Some e)
     | Some rl \<Rightarrow> (\<forall>i. Suc i < length t \<longrightarrow> may_go_on rl (t ! i) \<and> backs L rl (t ! i) (t ! Suc i) \<and>
           (owes_quota rl (t ! i) \<longrightarrow> (\<exists>rq e. t ! Suc i = CreatedRq rq e))) \<and>
         (\<forall>e. out = Done e \<longrightarrow> ends_with rl t e))"
proof -
  from Reconcile_log[of C L n w] assms have r: "Reconcile C L n w = (out, w')" and l: "run_log L n out t"
    by (cases "Reconcile C L n w"; auto)+
  show ?thesis
  proof (cases "object_read t")
    case None
    with r l show ?thesis by (simp add: run_log_def)
  next
    case (Some rl)
    with l have d: "disciplined L rl t" "seg_out rl out t" "\<exists>a s. t = ReadRl n a # s" by (simp_all add: run_log_def)
    from disciplined_nth[OF d(1)] have "\<forall>i. Suc i < length t \<longrightarrow> may_follow L rl (t ! i) (t ! Suc i)" by blast
    with r d(2,3) Some show ?thesis by (auto simp: may_follow_def)
  qed
qed

text \<open>C13: the number of calls of a run is bounded by the object it reads (it may read it twice, at first):
  four calls for each entry that is not ignored and one for the status, or, under deletion, five for
  each entry and one for the finalizer.\<close>

theorem Reconcile_calls_bounded:
  assumes "Reconcile (logged C) L n (w, []) = (out, w', t)"
  shows "length t \<le> 3 \<or> (\<exists>rl. ReadRl n (Inr rl) \<in> set (take 3 t) \<and>
    length t \<le> 4 + (if DeletionTimestamp (Meta rl) \<noteq> None then 5 * length (Quotas (Spec rl))
      else 4 * length (filter (\<lambda>q. NamespaceName q \<notin> {IgnoreKubeSystem, IgnoreKubePublic}) (Quotas (Spec rl)))))"
proof -
  from Reconcile_log[of C L n w] assms have "run_log L n out t" by (cases "Reconcile C L n w") auto
  then have "length t \<le> 3 \<or> (\<exists>rl. ReadRl n (Inr rl) \<in> set (take 3 t) \<and> length t \<le> 3 + pass_bound rl)"
    by (simp add: run_log_def)
  then show ?thesis
    by (elim disjE exE conjE) (fastforce simp: pass_bound_def live_quotas_def ignored_def)+
qed

definition ex_log :: "string entry list" where
  "ex_log = snd (snd (Reconcile (logged mem_client) mem_lib ''rl'' (ex_cluster1 ex_rl, [])))"

lemma ex_logged: "Reconcile (logged mem_client) mem_lib ''rl'' (ex_cluster1 ex_rl, []) =
    (Done None, fst (snd (Reconcile (logged mem_client) mem_lib ''rl'' (ex_cluster1 ex_rl, []))), ex_log)"
  unfolding ex_log_def by (intro prod_eqI) (code_simp, simp_all)

text \<open>In the example the last but one call writes the quota that was read by the call before.\<close>

theorem Reconcile_protocol_witness:
  "\<exists>rl q rq0 rq. ex_log ! 5 = ReadRq (quota_key (NamespaceName q)) (Inr rq0) \<and> ex_log ! 6 = WroteRq rq None \<and>
     q \<in> set (listed rl) \<and> setHard mem_lib (rq0\<lparr>Hard := []\<rparr>) q = Inr rq"
proof -
  have l: "length ex_log = 8" "object_read ex_log \<noteq> None" by (code_simp, code_simp)
  have "case ex_log ! 6 of WroteRq rq e \<Rightarrow> e = None | _ \<Rightarrow> False" by code_simp
  then obtain rq where q: "ex_log ! 6 = WroteRq rq None" by (cases "ex_log ! 6") auto
  from l(2) obtain rl where "object_read ex_log = Some rl" by auto
  with Reconcile_protocol[OF ex_logged]
  have "\<forall>i. Suc i < length ex_log \<longrightarrow> backs mem_lib rl (ex_log ! i) (ex_log ! Suc i)" by simp
  from this[rule_format, of 5] l(1) q have "backs mem_lib rl (ex_log ! 5) (WroteRq rq None)" by simp
  with q show ?thesis by auto
qed

text \<open>The bound is attained.\<close>

theorem Reconcile_calls_bounded_witness:
  "\<exists>rl. ReadRl ''rl'' (Inr rl) \<in> set (take 3 ex_log) \<and> length ex_log = 8 \<and> 8 \<le>
     4 + (if DeletionTimestamp (Meta rl) \<noteq> None then 5 * length (Quotas (Spec rl))
      else 4 * length (filter (\<lambda>q. NamespaceName q \<notin> {IgnoreKubeSystem, IgnoreKubePublic}) (Quotas (Spec rl))))"
proof -
  have "length ex_log = 8" by code_simp
  with Reconcile_calls_bounded[OF ex_logged] show ?thesis by auto
qed

section \<open>The contents of the calls\<close>

text \<open>C12: what a run sends is well formed, whatever the client answers. First the object is read and, if our finalizer
  is missing, patched with it and read again; all other calls are about the object \<open>rl\<close> read last. For a live object they
  read listed namespaces that are not ignored and their quotas, write namespaces with both labels, create and write quotas with
  exactly the limits of an entry (a new one under the name of its namespace, owned by the object and not used yet; one that
  exists keeps everything but its limits), delete quotas only if the object is not applied, and write the status
  \<open>ready\<close> with one line for each entry or \<open>stopped\<close> with none; under deletion they read, unlabel and delete, and
  patch our finalizer out. What is written or deleted is what the call just before has read for a listed entry: the namespace
  under the name of the entry, the quota under the key of the namespace of the entry whose limits it gets.\<close>

theorem Reconcile_well_formed:
  assumes "kube_lib L" and "Reconcile (logged C) L n (w, []) = (out, (w', t))"
  shows "\<exists>s p. t = s @ p \<and> opening_calls n s \<and>
    (p = [] \<or> (\<exists>rl. last s = ReadRl n (Inr rl) \<and> list_all (pass_call L rl) p \<and>
       (\<forall>i. Suc i < length t \<longrightarrow> backs L rl (t ! i) (t ! Suc i))))"
  by (rule kube_lib.Reconcile_backed[OF assms])

text \<open>The last call of the example writes a status that has the shape, and every namespace written was read for an entry just before.\<close>

theorem Reconcile_well_formed_witness:
  "\<exists>x e rl. last ex_log = WroteStatus x e \<and> ReadRl ''rl'' (Inr rl) \<in> set ex_log \<and>
     x = rl\<lparr>Status := Status x\<rparr> \<and> status_for mem_lib (Spec rl) (Status x) \<and>
     (\<forall>i m d. Suc i < length ex_log \<longrightarrow> ex_log ! Suc i = WroteNs m d \<longrightarrow>
        (\<exists>q \<in> set (listed rl). \<exists>y. ex_log ! i = ReadNs (NamespaceName q, NamespaceName q) (Inr y)))"
proof -
  have "case last ex_log of WroteStatus x e \<Rightarrow> True | _ \<Rightarrow> False" by code_simp
  then obtain x e where l: "last ex_log = WroteStatus x e" by (cases "last ex_log") auto
  from Reconcile_well_formed[OF memlib.kube_lib_axioms ex_logged] obtain s p
    where t: "ex_log = s @ p" "opening_calls ''rl'' s"
      "p = [] \<or> (\<exists>rl. last s = ReadRl ''rl'' (Inr rl) \<and> list_all (pass_call mem_lib rl) p \<and>
         (\<forall>i. Suc i < length ex_log \<longrightarrow> backs mem_lib rl (ex_log ! i) (ex_log ! Suc i)))" by (elim exE conjE)
  have "length ex_log = 8" by code_simp
  moreover have "length s \<le> 3" using t(2) by (auto simp: opening_calls_def)
  ultimately have "p \<noteq> []" using t(1) by auto
  with t(3) obtain rl where rl: "last s = ReadRl ''rl'' (Inr rl)" "list_all (pass_call mem_lib rl) p"
    and b: "\<forall>i. Suc i < length ex_log \<longrightarrow> backs mem_lib rl (ex_log ! i) (ex_log ! Suc i)" by blast
  from \<open>p \<noteq> []\<close> t(1) l rl(2) have "pass_call mem_lib rl (WroteStatus x e)"
    by (metis last_appendR last_in_set list_all_iff)
  then have "x = rl\<lparr>Status := Status x\<rparr> \<and> status_for mem_lib (Spec rl) (Status x)"
    by (auto simp: pass_call_def split: if_splits)
  moreover have "last s \<in> set (s @ p)" using t(2) by (auto simp: opening_calls_def)
  then have "ReadRl ''rl'' (Inr rl) \<in> set ex_log" by (simp only: rl(1) t(1))
  moreover have "\<exists>q \<in> set (listed rl). \<exists>y. ex_log ! i = ReadNs (NamespaceName q, NamespaceName q) (Inr y)"
    if "Suc i < length ex_log" "ex_log ! Suc i = WroteNs m d" for i m d
    using b[rule_format, OF that(1)] unfolding that(2) by auto
  ultimately show ?thesis using l by blast
qed

section \<open>The whole work\<close>

text \<open>C10: a run that returns \<open>nil\<close> has done all its work, and nothing else, among any other writers and against any client.
  Its calls, in order and with their answers, are: the object is read (patched with our finalizer and read again, if that is
  missing). If it is live, then for each entry of its spec that is not ignored, in order, the namespace is read and written back
  with both labels, acknowledged; and, if \<open>applied\<close> is set, its quota is read and written back with the limits of
  the entry, acknowledged, or, where there is none, created, which ends the run; if not, the quota is deleted if there is one. After
  the last entry the status is written, with one line for each quota read. Under deletion, unless the status says stopped, each entry
  has its quota deleted and its labels taken off, or no namespace; and our finalizer is patched away.\<close>

theorem Reconcile_complete:
  assumes "kube_lib L" and "Reconcile (logged C) L n (w, []) = (Done None, (w', t))"
  shows "complete_log L n t"
  by (rule kube_lib.Reconcile_complete_log[OF assms])

text \<open>In the example the limits of the entry have been written.\<close>

theorem Reconcile_complete_witness:
  "\<exists>rq. WroteRq rq None \<in> set ex_log \<and> enforces mem_lib ex_quota rq"
proof -
  from Reconcile_complete[OF memlib.kube_lib_axioms ex_logged] obtain rl s p where t: "ex_log = s @ p" "fetching ''rl'' rl s"
    and p: "if DeletionTimestamp (Meta rl) = None then live_log mem_lib rl (Quotas (Spec rl)) [] p
      else DefaultFinalizer \<in> set (Finalizers (Meta rl)) \<and>
        deletion_log rl (if State (Status rl) = Stopped then [] else Quotas (Spec rl)) p"
    unfolding complete_log_def by blast
  let ?same = "\<lambda>e. case e of ReadRl n (Inr x) \<Rightarrow> Spec x = Spec ex_rl \<and> DeletionTimestamp (Meta x) = None | _ \<Rightarrow> True"
  have "list_all ?same ex_log" by code_simp
  then have "\<forall>e \<in> set s. ?same e" unfolding list_all_iff t(1) set_append by blast
  moreover have "ReadRl ''rl'' (Inr rl) \<in> set s" using t(2) by (auto simp: fetching_def)
  ultimately have rl: "Spec rl = Spec ex_rl" "DeletionTimestamp (Meta rl) = None" by fastforce+
  with p have l: "live_log mem_lib rl (Quotas (Spec ex_rl)) [] p" by simp
  have q: "Applied (Spec rl)" "ex_quota \<in> set (live_quotas (Quotas (Spec ex_rl)))"
    by (simp_all add: rl ex_rl_def ex_quota_def ignored_def go_defs)
  have "\<not> (case last ex_log of CreatedRq x e \<Rightarrow> True | _ \<Rightarrow> False)" by code_simp
  moreover have "last ex_log = last p" unfolding t(1) using live_log_nonempty[OF l] by simp
  ultimately have "\<not> (\<exists>rq. last p = CreatedRq rq None)" by fastforce
  with live_log_covers[OF l q] show ?thesis unfolding t(1) by auto
qed

end
