(* ===== verification/Controller_Machine.thy ===== *)
theory Controller_Machine
  imports Reconciler_Correct Call_Steps
begin

text \<open>
  What the controller is allowed to do, as an abstract machine on the cluster: \<open>controller_step L n\<close> is one
  atomic change made on behalf of the object \<open>n\<close>, with the condition under which it may be made. The guards
  hold what the order of the calls in the code is there for: a namespace is labelled before it gets a quota,
  \<open>ready\<close> is reported when everything is in force, the finalizer goes when everything is cleaned up.
  Every call of a run is such a step or changes nothing.
\<close>

section \<open>The machine\<close>

inductive controller_step :: "'q lib \<Rightarrow> string \<Rightarrow> 'q cluster \<Rightarrow> 'q cluster \<Rightarrow> bool"
  for L :: "'q lib" and n :: string where
  step_register: "Rls c n = Some rl \<Longrightarrow> DefaultFinalizer \<notin> set (Finalizers (Meta rl)) \<Longrightarrow>
      controller_step L n c (set_rl n (with_ours rl) c)"
| step_label: "Rls c n = Some rl \<Longrightarrow> DeletionTimestamp (Meta rl) = None \<Longrightarrow>
      q \<in> set (live_quotas (Quotas (Spec rl))) \<Longrightarrow> Nss c (NamespaceName q) = Some x \<Longrightarrow>
      controller_step L n c (eff_update_ns (label_namespace x) c)"
| step_create: "Rls c n = Some rl \<Longrightarrow> DeletionTimestamp (Meta rl) = None \<Longrightarrow> Applied (Spec rl) \<Longrightarrow>
      q \<in> set (live_quotas (Quotas (Spec rl))) \<Longrightarrow> ns_enabled c (NamespaceName q) \<Longrightarrow>
      Rqs c (quota_key (NamespaceName q)) = None \<Longrightarrow> key_of rq = quota_key (NamespaceName q) \<Longrightarrow>
      Owner rq = Some n \<Longrightarrow> Used rq = [] \<Longrightarrow> enforces L q rq \<Longrightarrow>
      controller_step L n c (eff_create_rq rq c)"
| step_limit: "Rls c n = Some rl \<Longrightarrow> DeletionTimestamp (Meta rl) = None \<Longrightarrow> Applied (Spec rl) \<Longrightarrow>
      q \<in> set (live_quotas (Quotas (Spec rl))) \<Longrightarrow> ns_enabled c (NamespaceName q) \<Longrightarrow>
      Rqs c (quota_key (NamespaceName q)) = Some rq \<Longrightarrow> enforces L q (rq\<lparr>Hard := h\<rparr>) \<Longrightarrow>
      controller_step L n c (eff_update_rq (rq\<lparr>Hard := h\<rparr>) c)"
| step_stop: "Rls c n = Some rl \<Longrightarrow> DeletionTimestamp (Meta rl) = None \<Longrightarrow> \<not> Applied (Spec rl) \<Longrightarrow>
      q \<in> set (live_quotas (Quotas (Spec rl))) \<Longrightarrow> ns_enabled c (NamespaceName q) \<Longrightarrow>
      Rqs c (quota_key (NamespaceName q)) = Some rq \<Longrightarrow> controller_step L n c (eff_delete_rq rq c)"
| step_ready: "Rls c n = Some rl \<Longrightarrow> DeletionTimestamp (Meta rl) = None \<Longrightarrow> Applied (Spec rl) \<Longrightarrow>
      \<forall>ns q. effective (live_quotas (Quotas (Spec rl))) ns = Some q \<longrightarrow> converged L c q \<Longrightarrow>
      controller_step L n c (set_rl n (rl\<lparr>Status := \<lparr>State = Ready, StatusQuotas =
        map (\<lambda>q. status_entry L (the (Rqs c (quota_key (NamespaceName q)))) q)
          (live_quotas (Quotas (Spec rl)))\<rparr>\<rparr>) c)"
| step_stopped: "Rls c n = Some rl \<Longrightarrow> DeletionTimestamp (Meta rl) = None \<Longrightarrow> \<not> Applied (Spec rl) \<Longrightarrow>
      \<forall>q \<in> set (live_quotas (Quotas (Spec rl))).
        Rqs c (quota_key (NamespaceName q)) = None \<and> ns_enabled c (NamespaceName q) \<Longrightarrow>
      controller_step L n c (set_rl n (rl\<lparr>Status := \<lparr>State = Stopped, StatusQuotas = []\<rparr>\<rparr>) c)"
| step_delete: "Rls c n = Some rl \<Longrightarrow> DeletionTimestamp (Meta rl) \<noteq> None \<Longrightarrow>
      DefaultFinalizer \<in> set (Finalizers (Meta rl)) \<Longrightarrow> State (Status rl) \<noteq> Stopped \<Longrightarrow>
      q \<in> set (Quotas (Spec rl)) \<Longrightarrow> Nss c (NamespaceName q) \<noteq> None \<Longrightarrow>
      Rqs c (quota_key (NamespaceName q)) = Some rq \<Longrightarrow> controller_step L n c (eff_delete_rq rq c)"
| step_unlabel: "Rls c n = Some rl \<Longrightarrow> DeletionTimestamp (Meta rl) \<noteq> None \<Longrightarrow>
      DefaultFinalizer \<in> set (Finalizers (Meta rl)) \<Longrightarrow> State (Status rl) \<noteq> Stopped \<Longrightarrow>
      q \<in> set (Quotas (Spec rl)) \<Longrightarrow> Nss c (NamespaceName q) = Some x \<Longrightarrow>
      Rqs c (quota_key (NamespaceName q)) = None \<Longrightarrow>
      controller_step L n c (eff_update_ns (unlabel_namespace x) c)"
| step_release: "Rls c n = Some rl \<Longrightarrow> DeletionTimestamp (Meta rl) \<noteq> None \<Longrightarrow>
      DefaultFinalizer \<in> set (Finalizers (Meta rl)) \<Longrightarrow>
      State (Status rl) = Stopped \<or> (\<forall>q \<in> set (Quotas (Spec rl)).
        Nss c (NamespaceName q) \<noteq> None \<longrightarrow> cleaned c (NamespaceName q)) \<Longrightarrow>
      fs = filter (\<lambda>g. g \<noteq> DefaultFinalizer) (Finalizers (Meta rl)) \<Longrightarrow>
      controller_step L n c (c\<lparr>Rls := (Rls c)(n := if fs = [] then None else Some (set_finalizers fs rl))\<rparr>)"

section \<open>Every call is a step\<close>

text \<open>One call of a run: it makes a step of the machine, or it leaves the cluster as it is.\<close>

definition machine_call ::
  "('q, 'w) client \<Rightarrow> ('w \<Rightarrow> 'q cluster) \<Rightarrow> 'q lib \<Rightarrow> string \<Rightarrow> 'w \<Rightarrow> 'w \<Rightarrow> bool" where
  "machine_call C view L n u v \<longleftrightarrow> call_step C u v \<and> (view v = view u \<or> controller_step L n (view u) (view v))"

context reconciler
begin

abbreviation refined :: "string \<Rightarrow> 'w \<Rightarrow> 'w \<Rightarrow> bool" where
  "refined n \<equiv> (machine_call C abs L n)\<^sup>*\<^sup>*"

lemma read_refined:
  "get_rl C m w = (a1, w1) \<Longrightarrow> refined n w w1" "get_ns C k w = (a2, w1) \<Longrightarrow> refined n w w1"
  "get_rq C k w = (a3, w1) \<Longrightarrow> refined n w w1"
  by (auto intro!: r_into_rtranclp simp: machine_call_def dest: get_rl_abs get_ns_abs get_rq_abs
      intro: call_step.intros)

lemma write_refined:
  assumes "call_step C w w1" and "abs w1 = abs w \<or> abs w1 = c" and "c = abs w \<or> controller_step L n (abs w) c"
  shows "refined n w w1"
  using assms by (auto simp: machine_call_def)

lemma update_ns_refined:
  assumes "update_ns C x w = (e, w1)" and "controller_step L n (abs w) (eff_update_ns x (abs w))"
  shows "refined n w w1"
  by (rule write_refined[OF step_update_ns[OF assms(1)] _ disjI2[OF assms(2)]]) (use write_cases(1)[OF assms(1)] in blast)

lemma delete_rq_refined:
  assumes "delete_rq C x w = (e, w1)" and "controller_step L n (abs w) (eff_delete_rq x (abs w))"
  shows "refined n w w1"
  by (rule write_refined[OF step_delete_rq[OF assms(1)] write_cases(4)[OF assms(1)] disjI2[OF assms(2)]])

section \<open>The pass over a live object\<close>

lemma create_quota_refined:
  assumes "create_quota C L rl q w = (r, w')"
    and rl: "Rls (abs w) n = Some rl" "DeletionTimestamp (Meta rl) = None" "Applied (Spec rl)"
    and q: "q \<in> set (live_quotas (Quotas (Spec rl)))" "ns_enabled (abs w) (NamespaceName q)"
      "Rqs (abs w) (quota_key (NamespaceName q)) = None"
  shows "refined n w w'"
proof -
  let ?rq = "empty_rq\<lparr>QuotaName := quota_name (NamespaceName q), QuotaNamespace := NamespaceName q\<rparr>"
  show ?thesis
  proof (cases "\<exists>rq1 rq2. SetControllerReference L rl ?rq = Inr rq1 \<and> setHard L (rq1\<lparr>Hard := []\<rparr>) q = Inr rq2")
    case False
    with assms(1) have "w' = w" by (auto simp: create_quota_def Let_def split: sum.splits)
    then show ?thesis by simp
  next
    case True
    then obtain rq1 rq2 where o: "SetControllerReference L rl ?rq = Inr rq1" and h: "setHard L (rq1\<lparr>Hard := []\<rparr>) q = Inr rq2"
      by blast
    with assms(1) obtain e where c: "create_rq C rq2 w = (e, w')"
      by (auto simp: create_quota_def Let_def split: prod.splits option.splits)
    have rq1: "rq1 = ?rq\<lparr>Owner := Some (rl_name rl)\<rparr>" by (rule SetControllerReference_ok[OF o])
    from setHard_ok[OF h] obtain h' where e2: "enforces L q rq2" and rq2: "rq2 = rq1\<lparr>Hard := h'\<rparr>" by blast
    have "key_of rq2 = quota_key (NamespaceName q)" "Owner rq2 = Some n" "Used rq2 = []"
      using rl_name_stored[OF rl(1)] unfolding rq2 rq1 by (simp_all add: quota_key_def empty_rq_def)
    then have "controller_step L n (abs w) (eff_create_rq rq2 (abs w))"
      using rl q e2 by (intro step_create[where rl = rl and q = q]) simp_all
    from write_refined[OF step_create_rq[OF c] write_cases(2)[OF c] disjI2[OF this]] show ?thesis .
  qed
qed

lemma update_quota_refined:
  assumes "update_quota C L rq q s w = (r, w')"
    and rl: "Rls (abs w) n = Some rl" "DeletionTimestamp (Meta rl) = None" "Applied (Spec rl)"
    and q: "q \<in> set (live_quotas (Quotas (Spec rl)))" "ns_enabled (abs w) (NamespaceName q)"
      "Rqs (abs w) (quota_key (NamespaceName q)) = Some rq"
  shows "refined n w w'"
proof (cases "setHard L (rq\<lparr>Hard := []\<rparr>) q")
  case (Inl m)
  with assms(1) have "w' = w" by (simp add: update_quota_def)
  then show ?thesis by simp
next
  case h: (Inr rq2)
  with assms(1) obtain e where c: "update_rq C rq2 w = (e, w')"
    by (auto simp: update_quota_def Let_def split: prod.splits option.splits)
  from setHard_ok[OF h] obtain h' where e2: "enforces L q rq2" and rq2: "rq2 = rq\<lparr>Hard := h'\<rparr>" by blast
  have "controller_step L n (abs w) (eff_update_rq rq2 (abs w))"
    unfolding rq2 using rl q e2[unfolded rq2] by (intro step_limit[where rl = rl and q = q]) simp_all
  from write_refined[OF step_update_rq[OF c] write_cases(3)[OF c] disjI2[OF this]] show ?thesis .
qed

lemma apply_quota_refined:
  assumes "apply_quota C L rl q s w = (r, w')"
    and rl: "Rls (abs w) n = Some rl" "DeletionTimestamp (Meta rl) = None" "Applied (Spec rl)"
    and q: "q \<in> set (live_quotas (Quotas (Spec rl)))" "ns_enabled (abs w) (NamespaceName q)"
  shows "refined n w w'"
proof -
  obtain a w1 where g: "get_rq C (quota_key (NamespaceName q)) w = (a, w1)"
    by (cases "get_rq C (quota_key (NamespaceName q)) w") blast
  note a1 = get_rqD(1)[OF g]
  have st: "Rls (abs w1) n = Some rl" "ns_enabled (abs w1) (NamespaceName q)" using rl(1) q(2) a1 by simp_all
  have "refined n w1 w'"
  proof (cases a)
    case (Inl e)
    show ?thesis
    proof (cases "e = NotFound")
      case True
      with assms(1) g Inl have "create_quota C L rl q w1 = (r, w')" by (simp add: apply_quota_def)
      from create_quota_refined[OF this st(1) rl(2,3) q(1) st(2)] get_rqD(3)[OF g] Inl True a1 show ?thesis by simp
    next
      case False
      with assms(1) g Inl show ?thesis by (simp add: apply_quota_def)
    qed
  next
    case (Inr rq)
    with assms(1) g have "update_quota C L rq q s w1 = (r, w')" by (simp add: apply_quota_def)
    from update_quota_refined[OF this st(1) rl(2,3) q(1) st(2)] get_rqD(2)[OF g Inr] a1 show ?thesis by simp
  qed
  with read_refined(3)[OF g] show ?thesis by (rule rtranclp_trans)
qed

lemma remove_quota_refined:
  assumes "remove_quota C q s w = (r, w')"
    and rl: "Rls (abs w) n = Some rl" "DeletionTimestamp (Meta rl) = None" "\<not> Applied (Spec rl)"
    and q: "q \<in> set (live_quotas (Quotas (Spec rl)))" "ns_enabled (abs w) (NamespaceName q)"
  shows "refined n w w'"
proof -
  let ?k = "quota_key (NamespaceName q)"
  obtain a w1 where g: "get_rq C ?k w = (a, w1)" by (cases "get_rq C ?k w") blast
  note r1 = read_refined(3)[OF g, of n] and a1 = get_rqD(1)[OF g]
  have "refined n w1 w'"
  proof (cases a)
    case (Inl e)
    with assms(1) g have "w' = w1" by (auto simp: remove_quota_def split: if_splits)
    then show ?thesis by simp
  next
    case (Inr rq)
    with assms(1) g obtain e where d: "delete_rq C rq w1 = (e, w')"
      by (auto simp: remove_quota_def split: prod.splits option.splits)
    from get_rqD(2)[OF g Inr] rl q a1
    have "controller_step L n (abs w1) (eff_delete_rq rq (abs w1))" by (intro step_stop[where rl = rl and q = q]) simp_all
    from delete_rq_refined[OF d this] show ?thesis .
  qed
  with r1 show ?thesis by (rule rtranclp_trans)
qed

lemma reconcile_quota_refined:
  assumes "reconcile_quota C L rl q s w = (r, w')"
    and rl: "Rls (abs w) n = Some rl" "DeletionTimestamp (Meta rl) = None" and q: "q \<in> set (Quotas (Spec rl))"
  shows "refined n w w'"
proof (cases "ignored (NamespaceName q)")
  case True
  with assms(1) show ?thesis by (simp add: reconcile_quota_ignored)
next
  case False
  let ?ns = "NamespaceName q"
  have live: "q \<in> set (live_quotas (Quotas (Spec rl)))" using q False by (simp add: live_quotas_def)
  obtain a w1 where g: "get_ns C (?ns, ?ns) w = (a, w1)" by (cases "get_ns C (?ns, ?ns) w") blast
  note r1 = read_refined(2)[OF g, of n] and a1 = get_nsD(1)[OF g]
  have "refined n w1 w'"
  proof (cases a)
    case (Inl e)
    with assms(1) g False show ?thesis by (auto simp: reconcile_quota_def ignored_def)
  next
    case (Inr x)
    from get_nsD(2)[OF g Inr] have x: "Nss (abs w1) ?ns = Some x" "NsName x = ?ns" using a1 by auto
    obtain e w2 where u: "update_ns C (label_namespace x) w1 = (e, w2)"
      by (cases "update_ns C (label_namespace x) w1") blast
    have "controller_step L n (abs w1) (eff_update_ns (label_namespace x) (abs w1))"
      using rl live x(1) a1 by (intro step_label[where rl = rl and q = q]) simp_all
    from update_ns_refined[OF u this] have r2: "refined n w1 w2" .
    show ?thesis
    proof (cases e)
      case (Some y)
      with assms(1) g Inr u False r2 show ?thesis by (auto simp: reconcile_quota_def ignored_def)
    next
      case None
      have c2: "abs w2 = eff_update_ns (label_namespace x) (abs w1)" using update_ns_ok[OF u[unfolded None]] by simp
      have st: "Rls (abs w2) n = Some rl" "ns_enabled (abs w2) ?ns"
        unfolding c2 using rl(1) x(2) a1 by (simp_all add: eff_update_ns_def ns_enabled_def)
      from assms(1) g Inr u None False
      have "if Applied (Spec rl) then apply_quota C L rl q s w2 = (r, w') else remove_quota C q s w2 = (r, w')"
        by (auto simp: reconcile_quota_def ignored_def)
      then have "refined n w2 w'"
        using apply_quota_refined[OF _ st(1) rl(2) _ live st(2)] remove_quota_refined[OF _ st(1) rl(2) _ live st(2)]
        by (cases "Applied (Spec rl)") simp_all
      with r2 show ?thesis by (rule rtranclp_trans)
    qed
  qed
  with r1 show ?thesis by (rule rtranclp_trans)
qed

lemma live_loop_refined:
  assumes "for_loop (reconcile_quota C L rl) qs s w = (r, w')" and "set qs \<subseteq> set (Quotas (Spec rl))"
    and rl: "Rls (abs w) n = Some rl" "DeletionTimestamp (Meta rl) = None"
  shows "refined n w w' \<and> Rls (abs w') n = Some rl"
proof (rule for_loop_invariant[where I = "\<lambda>u. refined n w u \<and> Rls (abs u) n = Some rl", OF assms(1)])
  fix x s u r u'
  assume x: "x \<in> set qs" and b: "reconcile_quota C L rl x s u = (r, u')" and I: "refined n w u \<and> Rls (abs u) n = Some rl"
  then have "refined n u u'" using reconcile_quota_refined[OF b _ rl(2)] assms(2) by blast
  moreover have "Rls (abs u') n = Some rl" using only_touchesD(1)[OF live.round_local[OF b]] I by simp
  ultimately show "refined n w u' \<and> Rls (abs u') n = Some rl" using I by (auto intro: rtranclp_trans)
qed (use rl(1) in simp)

lemma updateStatus_refined:
  assumes "updateStatus C rl st w = (e, w')" and "Rls (abs w) n = Some rl"
    and "controller_step L n (abs w) (set_rl n (rl\<lparr>Status := st\<rparr>) (abs w))"
  shows "refined n w w'"
proof -
  have u: "update_status C (rl\<lparr>Status := st\<rparr>) w = (e, w')" using assms(1) by (cases st) (simp add: updateStatus_def)
  have "eff_status (rl\<lparr>Status := st\<rparr>) (abs w) = set_rl n (rl\<lparr>Status := st\<rparr>) (abs w)"
    using assms(2) rl_name_stored[OF assms(2)] by (simp add: eff_status_def set_rl_def)
  with write_cases(5)[OF u] have "abs w' = abs w \<or> abs w' = set_rl n (rl\<lparr>Status := st\<rparr>) (abs w)" by simp
  from write_refined[OF step_status[OF u] this disjI2[OF assms(3)]] show ?thesis .
qed

lemma reconcile_refined:
  assumes "reconcile C L rl w = (out, w')" and rl: "Rls (abs w) n = Some rl" "DeletionTimestamp (Meta rl) = None"
  shows "refined n w w'"
proof -
  let ?body = "reconcile_quota C L rl" and ?qs = "Quotas (Spec rl)"
  obtain c w1 where l: "for_loop ?body ?qs [] w = (c, w1)" by (cases "for_loop ?body ?qs [] w") blast
  from live_loop_refined[OF l subset_refl rl] have r1: "refined n w w1" and st: "Rls (abs w1) n = Some rl" by simp_all
  show ?thesis
  proof (cases c)
    case (Continue s)
    note l = l[unfolded Continue]
    show ?thesis
    proof (cases "Applied (Spec rl)")
      case True
      with assms(1) l obtain e where u: "updateStatus C rl \<lparr>State = Ready, StatusQuotas = s\<rparr> w1 = (e, w')"
        by (auto simp: reconcile_def split: prod.splits option.splits)
      note lp = applied_loop[OF l True]
      have "s = map (\<lambda>q. status_entry L (the (Rqs (abs w1) (quota_key (NamespaceName q)))) q) (live_quotas ?qs)"
        using lp(1) status_lines_same[OF lp(2), of "live_quotas ?qs"] lp(4) by simp
      then have "controller_step L n (abs w1) (set_rl n (rl\<lparr>Status := \<lparr>State = Ready, StatusQuotas = s\<rparr>\<rparr>) (abs w1))"
        using step_ready[OF st rl(2) True] lp(3) by simp
      from r1 updateStatus_refined[OF u st this] show ?thesis by (rule rtranclp_trans)
    next
      case False
      with assms(1) l obtain e where u: "updateStatus C rl \<lparr>State = Stopped, StatusQuotas = []\<rparr> w1 = (e, w')"
        by (auto simp: reconcile_def split: prod.splits)
      have "controller_step L n (abs w1) (set_rl n (rl\<lparr>Status := \<lparr>State = Stopped, StatusQuotas = []\<rparr>\<rparr>) (abs w1))"
        using step_stopped[OF st rl(2) False] stopped_loop[OF l False] by simp
      from r1 updateStatus_refined[OF u st this] show ?thesis by (rule rtranclp_trans)
    qed
  qed (use assms(1) l r1 in \<open>auto simp: reconcile_def\<close>)
qed

section \<open>The pass over an object under deletion\<close>

text \<open>Its end, once the quota is gone: the namespace is read again and its labels are taken off.\<close>

lemma unlabel_refined:
  assumes "refined n w w2" and get: "get_ns C (ns, ns) w2 = (Inr x, w3)" and up: "update_ns C (unlabel_namespace x) w3 = (e, w4)"
    and "Rls (abs w2) n = Some rl" "DeletionTimestamp (Meta rl) \<noteq> None" "DefaultFinalizer \<in> set (Finalizers (Meta rl))"
      "State (Status rl) \<noteq> Stopped" and "q \<in> set (Quotas (Spec rl))" "ns = NamespaceName q"
    and "Rqs (abs w2) (quota_key ns) = None"
  shows "refined n w w4"
proof -
  have c: "abs w3 = abs w2" using get_nsD(1)[OF get] .
  have "controller_step L n (abs w3) (eff_update_ns (unlabel_namespace x) (abs w3))"
  proof (rule step_unlabel[where rl = rl and q = q])
    show "Nss (abs w3) (NamespaceName q) = Some x" using get_nsD(1)[OF get] get_nsD(2)[OF get] assms(9) by simp
  qed (use assms(4-10) c in simp_all)
  from rtranclp_trans[OF rtranclp_trans[OF assms(1) read_refined(2)[OF get]] update_ns_refined[OF up this]]
  show ?thesis .
qed

lemma delete_quota_refined:
  assumes "delete_quota C q s w = (r, w')"
    and rl: "Rls (abs w) n = Some rl" "DeletionTimestamp (Meta rl) \<noteq> None"
      "DefaultFinalizer \<in> set (Finalizers (Meta rl))" "State (Status rl) \<noteq> Stopped"
    and q: "q \<in> set (Quotas (Spec rl))"
  shows "refined n w w'"
proof -
  let ?ns = "NamespaceName q"
  obtain a1 w1 where 1: "get_ns C ('''', ?ns) w = (a1, w1)" by (cases "get_ns C ('''', ?ns) w") blast
  obtain a2 w2 where 2: "get_rq C (quota_key ?ns) w1 = (a2, w2)" by (cases "get_rq C (quota_key ?ns) w1") blast
  have r1: "refined n w w1" and r2: "refined n w w2"
    using read_refined(2)[OF 1, of n] read_refined(3)[OF 2, of n] by (auto intro: rtranclp_trans)
  have a: "abs w2 = abs w" using get_nsD(1)[OF 1] get_rqD(1)[OF 2] by simp
  show ?thesis
  proof (cases "\<exists>rq n0. a2 = Inr rq \<and> a1 = Inr n0")
    case False
    with 1 2 assms(1) r1 r2 show ?thesis by (cases a1; cases a2) (auto simp: delete_quota_def split: if_splits)
  next
    case True
    then obtain rq n0 where rq: "a2 = Inr rq" and n0: "a1 = Inr n0" by blast
    have key: "Rqs (abs w2) (quota_key ?ns) = Some rq" "key_of rq = quota_key ?ns"
      using get_rqD(1,2)[OF 2] rq by simp_all
    have ns: "Nss (abs w2) ?ns \<noteq> None" using get_nsD(2)[OF 1 n0] a by simp
    obtain a3 w3 where 3: "delete_rq C rq w2 = (a3, w3)" by (cases "delete_rq C rq w2") blast
    have "controller_step L n (abs w2) (eff_delete_rq rq (abs w2))"
      using rl q ns key a by (intro step_delete[where rl = rl and q = q]) simp_all
    with r2 have r3: "refined n w w3" by (rule rtranclp_trans[OF _ delete_rq_refined[OF 3]])
    obtain a4 w4 where 4: "get_ns C (?ns, ?ns) w3 = (a4, w4)" by (cases "get_ns C (?ns, ?ns) w3") blast
    have r4: "refined n w w4" by (rule rtranclp_trans[OF r3 read_refined(2)[OF 4]])
    show ?thesis
    proof (cases "a3 = None \<and> (\<exists>x. a4 = Inr x)")
      case False
      with 1 2 3 4 rq n0 assms(1) r3 r4 show ?thesis by (cases a3; cases a4) (auto simp: delete_quota_def)
    next
      case True
      then obtain x where x: "a3 = None" "a4 = Inr x" by blast
      have c3: "abs w3 = eff_delete_rq rq (abs w2)" using delete_rq_ok[OF 3[unfolded x(1)]] by simp
      obtain a5 w5 where 5: "update_ns C (unlabel_namespace x) w4 = (a5, w5)"
        by (cases "update_ns C (unlabel_namespace x) w4") blast
      have "Rls (abs w3) n = Some rl" "Rqs (abs w3) (quota_key ?ns) = None"
        using rl(1) a key(2) unfolding c3 by (simp_all add: eff_delete_rq_def)
      from unlabel_refined[OF r3 4[unfolded x(2)] 5 this(1) rl(2-4) q refl this(2)] have "refined n w w5" .
      moreover have "w' = w5" using 1 2 3 4 5 rq n0 x assms(1) by (cases a5) (auto simp: delete_quota_def)
      ultimately show ?thesis by simp
    qed
  qed
qed

lemma delete_loop_refined:
  assumes "for_loop (delete_quota C) qs s w = (r, w')" and "set qs \<subseteq> set (Quotas (Spec rl))"
    and rl: "Rls (abs w) n = Some rl" "DeletionTimestamp (Meta rl) \<noteq> None"
      "DefaultFinalizer \<in> set (Finalizers (Meta rl))" "State (Status rl) \<noteq> Stopped"
  shows "refined n w w' \<and> Rls (abs w') n = Some rl"
proof (rule for_loop_invariant[where I = "\<lambda>u. refined n w u \<and> Rls (abs u) n = Some rl", OF assms(1)])
  fix x s u r u'
  assume x: "x \<in> set qs" and b: "delete_quota C x s u = (r, u')" and I: "refined n w u \<and> Rls (abs u) n = Some rl"
  then have "refined n u u'" using delete_quota_refined[OF b _ rl(2-4)] assms(2) by blast
  moreover have "Rls (abs u') n = Some rl" using only_touchesD(1)[OF deletion.round_local[OF b]] I by simp
  ultimately show "refined n w u' \<and> Rls (abs u') n = Some rl" using I by (auto intro: rtranclp_trans)
qed (use rl(1) in simp)

lemma remove_our_finalizer_refined:
  assumes "remove_our_finalizer C L rl w = (out, w')" and rl: "Rls (abs w) n = Some rl"
    "DefaultFinalizer \<in> set (Finalizers (Meta rl))" "DeletionTimestamp (Meta rl) \<noteq> None"
    and clean: "State (Status rl) = Stopped \<or>
      (\<forall>q \<in> set (Quotas (Spec rl)). Nss (abs w) (NamespaceName q) \<noteq> None \<longrightarrow> cleaned (abs w) (NamespaceName q))"
  shows "refined n w w'"
proof -
  note n = rl_name_stored[OF rl(1)]
  from assms(1) obtain e b x where p: "patch_rl C b x w = (e, w')"
    by (auto simp: remove_our_finalizer_def Let_def split: prod.splits option.splits)
  have st: "Rls (abs w) (rl_name rl) = Some rl" using rl(1) n by simp
  from remove_our_finalizer_cases[OF assms(1) st rl(2,3)] n
  have "abs w' = abs w \<or> abs w' = (abs w)\<lparr>Rls := (Rls (abs w))(n :=
      if filter (\<lambda>g. g \<noteq> DefaultFinalizer) (Finalizers (Meta rl)) = [] then None
      else Some (set_finalizers (filter (\<lambda>g. g \<noteq> DefaultFinalizer) (Finalizers (Meta rl))) rl))\<rparr>" by simp
  from write_refined[OF step_patch_rl[OF p] this disjI2[OF step_release[OF rl(1,3,2) clean refl]]] show ?thesis .
qed

lemma reconcileDelete_refined:
  assumes "reconcileDelete C L rl w = (out, w')" and rl: "Rls (abs w) n = Some rl" "DeletionTimestamp (Meta rl) \<noteq> None"
  shows "refined n w w'"
proof (cases "DefaultFinalizer \<in> set (Finalizers (Meta rl))")
  case False
  with assms(1) show ?thesis by (simp add: reconcileDelete_def ContainsFinalizer_iff)
next
  case fin: True
  show ?thesis
  proof (cases "State (Status rl) = Stopped")
    case True
    with assms(1) fin have "remove_our_finalizer C L rl w = (out, w')"
      by (simp add: reconcileDelete_def ContainsFinalizer_iff)
    from remove_our_finalizer_refined[OF this rl(1) fin rl(2)] True show ?thesis by simp
  next
    case False
    obtain c w1 where l: "for_loop (delete_quota C) (Quotas (Spec rl)) () w = (c, w1)"
      by (cases "for_loop (delete_quota C) (Quotas (Spec rl)) () w") blast
    from delete_loop_refined[OF l subset_refl rl fin False] have r1: "refined n w w1" and st: "Rls (abs w1) n = Some rl"
      by simp_all
    show ?thesis
    proof (cases c)
      case (Continue v)
      then have v: "c = Continue ()" by simp
      with l assms(1) fin False have p: "remove_our_finalizer C L rl w1 = (out, w')"
        by (simp add: reconcileDelete_def ContainsFinalizer_iff)
      have "Nss (abs w) m = None \<longleftrightarrow> Nss (abs w1) m = None" for m
        using only_touchesD(3)[OF deletion.loop_local[OF l]] by blast
      then have "\<forall>q \<in> set (Quotas (Spec rl)). Nss (abs w1) (NamespaceName q) \<noteq> None \<longrightarrow> cleaned (abs w1) (NamespaceName q)"
        using delete_loop[OF l[unfolded v]] by simp
      from remove_our_finalizer_refined[OF p st fin rl(2) disjI2[OF this]] r1 show ?thesis by (auto intro: rtranclp_trans)
    qed (use assms(1) fin False l r1 in \<open>auto simp: reconcileDelete_def ContainsFinalizer_iff\<close>)
  qed
qed

section \<open>A run\<close>

lemma register_finalizer_refined:
  assumes "register_finalizer C L n rl w = (a, w')" and rl: "Rls (abs w) n = Some rl"
  shows "refined n w w'"
proof (cases "DefaultFinalizer \<in> set (Finalizers (Meta rl))")
  case True
  with assms(1) show ?thesis by (simp add: register_finalizer_eq)
next
  case False
  obtain e w1 where p: "patch_rl C (patch_base L rl) (with_ours rl) w = (e, w1)"
    by (cases "patch_rl C (patch_base L rl) (with_ours rl) w") blast
  let ?c = "eff_patch (patch_base L rl) (with_ours rl) (abs w)"
  have "?c = set_rl n (if MergeFrom L 1 rl = BaseCopy rl then with_ours rl else rl) (abs w)"
    using eff_patch_ours[of "abs w" rl] rl rl_name_stored[OF rl] by simp
  then have c: "?c = abs w \<or> controller_step L n (abs w) ?c"
    using step_register[OF rl False] by (auto simp: set_rl_id[OF rl])
  have "abs w1 = abs w \<or> abs w1 = ?c"
    using patch_rl_ok[of "patch_base L rl" "with_ours rl" w w1] patch_rl_failed[of "patch_base L rl" "with_ours rl" w _ w1]
      patch_base_only p by (cases e) auto
  from write_refined[OF step_patch_rl[OF p] this c] have r1: "refined n w w1" .
  from assms(1) False p have "w' = w1 \<or> get_rl C n w1 = (a, w')" by (cases e) (simp_all add: register_finalizer_eq)
  with r1 show ?thesis by (blast intro: rtranclp_trans read_refined(1))
qed

lemma Reconcile_refined:
  assumes "Reconcile C L n w = (out, w')"
  shows "refined n w w'"
proof -
  obtain g w0 where g: "get_rl C n w = (g, w0)" by (cases "get_rl C n w") blast
  note r0 = read_refined(1)[OF g, of n] and a0 = get_rlD(1)[OF g]
  show ?thesis
  proof (cases g)
    case (Inl e)
    with assms g r0 show ?thesis by (simp add: Reconcile_def)
  next
    case (Inr rl0)
    have st0: "Rls (abs w0) n = Some rl0" using get_rlD(2)[OF g Inr] a0 by simp
    obtain r w1 where r: "register_finalizer C L n rl0 w0 = (r, w1)"
      by (cases "register_finalizer C L n rl0 w0") blast
    have r1: "refined n w w1" by (rule rtranclp_trans[OF r0 register_finalizer_refined[OF r st0]])
    show ?thesis
    proof (cases r)
      case (Inl e)
      with assms g \<open>g = Inr rl0\<close> r r1 show ?thesis by (simp add: Reconcile_def)
    next
      case (Inr rl)
      obtain rl' where w1: "abs w1 = set_rl n rl' (abs w0)" and y: "\<And>x. r = Inr x \<Longrightarrow> x = rl'"
        by (rule register_finalizer_cases[OF r st0]) blast
      have st: "Rls (abs w1) n = Some rl" using y[OF Inr] w1 by simp
      have "if DeletionTimestamp (Meta rl) \<noteq> None then reconcileDelete C L rl w1 = (out, w')
          else reconcile C L rl w1 = (out, w')"
        using assms g \<open>g = Inr rl0\<close> r Inr by (simp add: Reconcile_def split: if_splits)
      with reconcileDelete_refined[OF _ st] reconcile_refined[OF _ st] have "refined n w1 w'"
        by (cases "DeletionTimestamp (Meta rl)") simp_all
      with r1 show ?thesis by (rule rtranclp_trans)
    qed
  qed
qed

end

section \<open>What a step leaves alone\<close>

lemma eff_keys:
  assumes "well_keyed c" and "Rqs c k = Some rq"
  shows "Rqs (eff_update_rq (rq\<lparr>Hard := h\<rparr>) c) = (Rqs c)(k \<mapsto> rq\<lparr>Hard := h\<rparr>)"
    "Rqs (eff_delete_rq rq c) = (Rqs c)(k := None)"
proof -
  have "key_of rq = k" using well_keyedD(3)[OF assms] .
  with assms(2) show "Rqs (eff_update_rq (rq\<lparr>Hard := h\<rparr>) c) = (Rqs c)(k \<mapsto> rq\<lparr>Hard := h\<rparr>)"
    "Rqs (eff_delete_rq rq c) = (Rqs c)(k := None)" by (simp_all add: eff_update_rq_def eff_delete_rq_def)
qed

lemma eff_Rls [simp]: "Rls (eff_update_ns x c) = Rls c" "Rls (eff_create_rq rq c) = Rls c"
  "Rls (eff_update_rq rq c) = Rls c" "Rls (eff_delete_rq rq c) = Rls c"
  by (simp_all add: eff_defs split: option.split)

lemma eff_Rqs [simp]: "Rqs (eff_update_ns x c) = Rqs c" "Rqs (eff_create_rq rq c) = (Rqs c)(key_of rq \<mapsto> rq)"
  by (simp_all add: eff_defs)

lemma eff_Nss [simp]: "Nss (eff_update_ns x c) = (Nss c)(NsName x \<mapsto> x)" "Nss (eff_create_rq rq c) = Nss c"
  "Nss (eff_update_rq rq c) = Nss c" "Nss (eff_delete_rq rq c) = Nss c"
  by (simp_all add: eff_defs split: option.split)

text \<open>The namespaces whose quotas a run for an object is about.\<close>

definition run_scope :: "ResourceLimiter \<Rightarrow> string set" where
  "run_scope rl = NamespaceName ` set (if DeletionTimestamp (Meta rl) = None
     then live_quotas (Quotas (Spec rl)) else Quotas (Spec rl))"

text \<open>A step changes no other object, and of the quotas only those of the namespaces the object lists;
  and a quota never changes hands.\<close>

lemma machine_step:
  assumes "controller_step L n c c'" and wk: "well_keyed c" and rl: "Rls c n = Some rl"
  shows "m \<noteq> n \<Longrightarrow> Rls c' m = Rls c m"
    and "Rls c' n = Some rl' \<Longrightarrow> Spec rl' = Spec rl \<and> run_scope rl' = run_scope rl"
    and "Rqs c' k \<noteq> Rqs c k \<Longrightarrow> k \<in> quota_key ` run_scope rl"
    and "Rqs c' k = Some rq' \<Longrightarrow> Owner rq' = Some n \<or> (\<exists>rq. Rqs c k = Some rq \<and> Owner rq' = Owner rq)"
proof -
  have "(\<forall>m. m \<noteq> n \<longrightarrow> Rls c' m = Rls c m) \<and>
    (\<forall>rl'. Rls c' n = Some rl' \<longrightarrow> Spec rl' = Spec rl \<and> run_scope rl' = run_scope rl) \<and>
    (\<forall>k. Rqs c' k \<noteq> Rqs c k \<longrightarrow> k \<in> quota_key ` run_scope rl) \<and>
    (\<forall>k rq'. Rqs c' k = Some rq' \<longrightarrow> Owner rq' = Some n \<or> (\<exists>rq. Rqs c k = Some rq \<and> Owner rq' = Owner rq))"
    using assms(1)
  proof cases
    case (step_limit rl1 q rq h)
    with rl show ?thesis by (auto simp: eff_keys(1)[OF wk step_limit(7)] run_scope_def)
  next
    case (step_stop rl1 q rq)
    with rl show ?thesis by (auto simp: eff_keys(2)[OF wk step_stop(7)] run_scope_def)
  next
    case (step_delete rl1 q rq)
    with rl show ?thesis by (auto simp: eff_keys(2)[OF wk step_delete(8)] run_scope_def)
  qed (use rl in \<open>auto simp: run_scope_def split: if_splits\<close>)
  then show "m \<noteq> n \<Longrightarrow> Rls c' m = Rls c m"
    and "Rls c' n = Some rl' \<Longrightarrow> Spec rl' = Spec rl \<and> run_scope rl' = run_scope rl"
    and "Rqs c' k \<noteq> Rqs c k \<Longrightarrow> k \<in> quota_key ` run_scope rl"
    and "Rqs c' k = Some rq' \<Longrightarrow> Owner rq' = Some n \<or> (\<exists>rq. Rqs c k = Some rq \<and> Owner rq' = Owner rq)"
    by blast+
qed

lemma no_object_no_step: "controller_step L n c c' \<Longrightarrow> Rls c n \<noteq> None"
  by (auto elim: controller_step.cases)

section \<open>An invariant of all runs\<close>

text \<open>A namespace with a quota of the controller carries the labels that put it under the webhooks.\<close>

definition quotas_guarded :: "'q cluster \<Rightarrow> bool" where
  "quotas_guarded c \<longleftrightarrow> (\<forall>ns. Rqs c (quota_key ns) \<noteq> None \<longrightarrow> ns_enabled c ns)"

lemma controller_step_guarded:
  assumes "controller_step L n c c'" and wk: "well_keyed c" and "quotas_guarded c"
  shows "quotas_guarded c'"
  using assms(1)
proof cases
  case (step_limit rl1 q rq h)
  with assms(3) show ?thesis by (auto simp: quotas_guarded_def ns_enabled_def eff_keys(1)[OF wk step_limit(7)])
next
  case (step_stop rl1 q rq)
  with assms(3) show ?thesis by (auto simp: quotas_guarded_def ns_enabled_def eff_keys(2)[OF wk step_stop(7)])
next
  case (step_delete rl1 q rq)
  with assms(3) show ?thesis by (auto simp: quotas_guarded_def ns_enabled_def eff_keys(2)[OF wk step_delete(8)])
next
  case (step_label rl q x)
  with assms(3) show ?thesis by (auto simp: quotas_guarded_def ns_enabled_def)
next
  case (step_unlabel rl q x)
  have "NsName x = NamespaceName q" using well_keyedD(2)[OF wk step_unlabel(7)] .
  with step_unlabel assms(3) show ?thesis by (auto simp: quotas_guarded_def ns_enabled_def)
next
  case (step_create rl q rq)
  with assms(3) show ?thesis by (auto simp: quotas_guarded_def ns_enabled_def)
qed (use assms(3) in \<open>auto simp: quotas_guarded_def ns_enabled_def\<close>)

context reconciler
begin

lemma refined_keeps:
  assumes "refined n w w'" and "I (abs w)"
    and "\<And>c c'. well_keyed c \<Longrightarrow> controller_step L n c c' \<Longrightarrow> I c \<Longrightarrow> I c'"
  shows "I (abs w')"
  using assms(1,2)
proof (induction rule: rtranclp_induct)
  case (step u v)
  then have "I (abs u)" by blast
  with step(2) assms(3)[OF well_keyed_abs, of u "abs v"] show ?case by (auto simp: machine_call_def)
qed

lemma runs_guarded:
  "quotas_guarded (abs w) \<Longrightarrow> quotas_guarded (abs (foldl (\<lambda>u n. snd (Reconcile C L n u)) w ns))"
proof (induction ns arbitrary: w)
  case (Cons n ns)
  have "quotas_guarded (abs (snd (Reconcile C L n w)))"
    by (rule refined_keeps[where I = quotas_guarded, OF Reconcile_refined[OF prod.collapse[symmetric]] Cons.prems])
      (rule controller_step_guarded)
  from Cons.IH[OF this] show ?case by simp
qed simp

end

end
