(* ===== verification/Controller_Refines.thy ===== *)
theory Controller_Refines
  imports Controller_Machine Controller_Safety
begin

text \<open>The properties of the controller as an implementation of the abstract machine \<open>controller_step\<close>.\<close>

text \<open>C2: the controller refines its specification. Every run for \<open>n\<close>, whatever calls fail on the way and whether it
  ends with \<open>nil\<close>, an error or a panic, is a sequence of calls of which each leaves the cluster as it is or makes
  one step of the machine, with the guards of that step: a quota is created or written only in a namespace
  that carries the labels, with the limits of an entry of the object as it is stored at that moment;
  \<open>ready\<close> is reported only with everything in force, \<open>stopped\<close> only with all quotas gone; a namespace loses its
  labels only after its quota, and the object our finalizer only when all its namespaces are cleaned up.\<close>

theorem Reconcile_refines:
  assumes "reconciler C view L" and "Reconcile C L n w = (out, w')"
  shows "(\<lambda>u v. call_step C u v \<and> (view v = view u \<or> controller_step L n (view u) (view v)))\<^sup>*\<^sup>* w w'"
  using reconciler.Reconcile_refined[OF assms] by (simp only: machine_call_def[abs_def])

theorem Reconcile_refines_witness:
  "\<exists>c. controller_step mem_lib ''rl'' (proper (ex_cluster ex_rl)) c \<and> Rqs (proper (ex_cluster ex_rl)) (''default'', ''rl-quota-default'') = None \<and>
     Rqs (proper (snd (Reconcile mem_client mem_lib ''rl'' (ex_cluster ex_rl)))) (''default'', ''rl-quota-default'') \<noteq> None"
proof -
  let ?w' = "snd (Reconcile mem_client mem_lib ''rl'' (ex_cluster ex_rl))"
  let ?R = "\<lambda>u v. call_step mem_client u v \<and> (proper v = proper u \<or> controller_step mem_lib ''rl'' (proper u) (proper v))"
  have new: "Rqs (proper (ex_cluster ex_rl)) (''default'', ''rl-quota-default'') = None"
    "Rqs (proper ?w') (''default'', ''rl-quota-default'') \<noteq> None"
    by (simp add: ex_cluster_def proper_def, code_simp)
  have "?R\<^sup>*\<^sup>* u v \<Longrightarrow> proper v = proper u \<or> (\<exists>c. controller_step mem_lib ''rl'' (proper u) c)" for u v
    by (induction rule: converse_rtranclp_induct) auto
  with Reconcile_refines[OF memr.reconciler_axioms prod.collapse[symmetric, of "Reconcile mem_client mem_lib ''rl'' (ex_cluster ex_rl)"]]
  have "proper ?w' = proper (ex_cluster ex_rl) \<or> (\<exists>c. controller_step mem_lib ''rl'' (proper (ex_cluster ex_rl)) c)" by blast
  with new show ?thesis by metis
qed

text \<open>C9: an invariant of the cluster that all runs for all objects keep, in whatever order they come and however
  they end: no quota without the labels. A namespace that has a quota named like ours is one the webhooks
  are called for.\<close>

theorem runs_keep_quotas_guarded:
  assumes "reconciler C view L" and "\<forall>ns. Rqs (view w) (quota_key ns) \<noteq> None \<longrightarrow> ns_enabled (view w) ns"
    and "w' = foldl (\<lambda>u n. snd (Reconcile C L n u)) w names"
  shows "\<forall>ns. Rqs (view w') (quota_key ns) \<noteq> None \<longrightarrow> ns_enabled (view w') ns"
  using reconciler.runs_guarded[OF assms(1), of w names] assms(2,3) by (simp add: quotas_guarded_def)

theorem runs_keep_quotas_guarded_witness:
  "ns_enabled (proper (foldl (\<lambda>u n. snd (Reconcile mem_client mem_lib n u)) (ex_cluster ex_rl) [''rl'', ''rl''])) ''default''"
proof -
  let ?w' = "foldl (\<lambda>u n. snd (Reconcile mem_client mem_lib n u)) (ex_cluster ex_rl) [''rl'', ''rl'']"
  have "\<forall>ns. Rqs (proper (ex_cluster ex_rl)) (quota_key ns) \<noteq> None \<longrightarrow> ns_enabled (proper (ex_cluster ex_rl)) ns"
    by (simp add: ex_cluster_def proper_def)
  from runs_keep_quotas_guarded[OF memr.reconciler_axioms this refl, of "[''rl'', ''rl'']"]
  have "Rqs (proper ?w') (quota_key ''default'') \<noteq> None \<longrightarrow> ns_enabled (proper ?w') ''default''" by blast
  moreover have "Rqs (proper ?w') (quota_key ''default'') \<noteq> None" by code_simp
  ultimately show ?thesis by blast
qed

end
