(* ===== verification/Many_Limiters.thy ===== *)
theory Many_Limiters
  imports Event_Loop Controller_Machine
begin

text \<open>
  Several resource limiters under one controller. The queue holds names; the worker takes one, in any order,
  and a run puts back what its calls have woken up. Objects with namespaces of their own do not disturb each
  other. Objects that share a namespace do, and not all of them are told.
\<close>

section \<open>The queue\<close>

inductive manager_step ::
  "controller_setup \<Rightarrow> ('w \<Rightarrow> 'q cluster) \<Rightarrow> 'w versions \<Rightarrow> ('q, 'w) client \<Rightarrow> 'q lib \<Rightarrow>
     string set \<times> 'w \<Rightarrow> string set \<times> 'w \<Rightarrow> bool"
  for S view V C L where
  take_one: "n \<in> queue \<Longrightarrow> Reconcile (watching S view V C) L n (w, queue - {n}) = (out, (w', queue')) \<Longrightarrow>
     manager_step S view V C L (queue, w) (if out = Done None then queue' else insert n queue', w')"

lemma manager_moves:
  assumes "n \<in> queue"
  shows "\<exists>v. manager_step S view V C L (queue, w) v"
proof -
  obtain out w1 q1 where "Reconcile (watching S view V C) L n (w, queue - {n}) = (out, (w1, q1))"
    by (metis prod.exhaust)
  from manager_step.take_one[OF assms this] show ?thesis ..
qed

definition names_of :: "ResourceLimiterSpec \<Rightarrow> string set" where
  "names_of sp = NamespaceName ` set (live_quotas (Quotas sp))"

text \<open>Objects that can be served, each with namespaces of its own, whose quotas belong to no one else.\<close>

definition orderly :: "'q lib \<Rightarrow> string set \<Rightarrow> (string \<Rightarrow> ResourceLimiterSpec) \<Rightarrow> 'q cluster \<Rightarrow> bool" where
  "orderly L F sp c \<longleftrightarrow> (\<forall>n \<in> F. runnable L n (sp n) c \<and> Applied (sp n) \<and>
     distinct (map NamespaceName (live_quotas (Quotas (sp n)))) \<and>
     (\<forall>m \<in> F. m \<noteq> n \<longrightarrow> names_of (sp m) \<inter> names_of (sp n) = {}) \<and>
     (\<forall>ns \<in> names_of (sp n). \<forall>x. owned_by x (Rqs c (quota_key ns)) \<longrightarrow> x = n))"

lemma orderlyD:
  assumes "orderly L F sp c" and "n \<in> F"
  shows "runnable L n (sp n) c" "Applied (sp n)" "distinct (map NamespaceName (live_quotas (Quotas (sp n))))"
    "m \<in> F \<Longrightarrow> m \<noteq> n \<Longrightarrow> names_of (sp m) \<inter> names_of (sp n) = {}"
    "ns \<in> names_of (sp n) \<Longrightarrow> owned_by x (Rqs c (quota_key ns)) \<Longrightarrow> x = n"
  using assms unfolding orderly_def by blast+

section \<open>What one object can see\<close>

text \<open>Two clusters look the same to an object: itself, its namespaces and their quotas.\<close>

definition same_for :: "string \<Rightarrow> string set \<Rightarrow> 'q cluster \<Rightarrow> 'q cluster \<Rightarrow> bool" where
  "same_for n N c c' \<longleftrightarrow> Rls c' n = Rls c n \<and>
     (\<forall>ns \<in> N. Nss c' ns = Nss c ns \<and> Rqs c' (quota_key ns) = Rqs c (quota_key ns))"

lemma same_for_converged:
  "same_for n N c c' \<Longrightarrow> NamespaceName q \<in> N \<Longrightarrow> converged L c' q = converged L c q"
  by (simp add: same_for_def converged_def ns_enabled_def)

lemma same_for_runnable: "same_for n (names_of sp) c c' \<Longrightarrow> runnable L n sp c \<Longrightarrow> runnable L n sp c'"
  by (auto simp: same_for_def runnable_def names_of_def)

lemma same_for_missing: "same_for n (names_of sp) c c' \<Longrightarrow> missing sp c' = missing sp c"
  unfolding missing_def same_for_def names_of_def by (intro arg_cong[where f = card]) auto

lemma same_for_ready:
  assumes "same_for n (names_of sp) c c'" and "ready L n sp c"
  shows "ready L n sp c'"
proof -
  have "converged L c' q" if "effective (live_quotas (Quotas sp)) ns = Some q" for ns q
  proof -
    have "NamespaceName q \<in> names_of sp" using effective_name[OF that] by (auto simp: names_of_def)
    with same_for_converged[OF assms(1), of q L] that assms(2) show ?thesis by (simp add: ready_def)
  qed
  with assms show ?thesis by (simp add: ready_def same_for_def)
qed

lemma same_for_settled_imp:
  assumes s: "same_for n (names_of sp) c c'" and "settled L n c" and rl: "Rls c n = Some rl" "Spec rl = sp"
  shows "settled L n c'"
proof -
  have e: "map (\<lambda>q. status_entry L (the (Rqs c' (quota_key (NamespaceName q)))) q) (live_quotas (Quotas sp)) =
      map (\<lambda>q. status_entry L (the (Rqs c (quota_key (NamespaceName q)))) q) (live_quotas (Quotas sp))"
    using s by (auto simp: same_for_def names_of_def)
  have "converged L c' q" if "q \<in> set (live_quotas (Quotas sp))" "converged L c q" for q
    using same_for_converged[OF s, of q L] that by (auto simp: names_of_def)
  moreover have "Rls c' n = Some rl" using s rl(1) by (simp add: same_for_def)
  ultimately show ?thesis using assms(2) rl e unfolding settled_def by auto
qed

lemma same_for_settled:
  assumes "same_for n (names_of sp) c c'" and "Rls c n = Some rl" and "Spec rl = sp"
  shows "settled L n c' = settled L n c"
proof
  have "same_for n (names_of sp) c' c" "Rls c' n = Some rl" using assms by (auto simp: same_for_def)
  from same_for_settled_imp[OF this(1) _ this(2) assms(3)] show "settled L n c' \<Longrightarrow> settled L n c" .
  from same_for_settled_imp[OF assms(1) _ assms(2,3)] show "settled L n c \<Longrightarrow> settled L n c'" .
qed

lemma same_for_rank:
  assumes "same_for n (names_of sp) c c'" and "runnable L n sp c"
  shows "rank L n sp c' = rank L n sp c"
proof -
  from assms(2) obtain rl where "Rls c n = Some rl" "Spec rl = sp" by (auto simp: runnable_def)
  from same_for_settled[OF assms(1) this] same_for_missing[OF assms(1)] show ?thesis by (simp add: rank_def)
qed

section \<open>A run and the others\<close>

context event_source
begin

lemma queue_grows: "calls W u v \<Longrightarrow> snd u \<subseteq> snd v"
  by (induction rule: rtranclp_induct) (auto simp: W_step)

text \<open>A run for an object whose quotas no one else owns: what every call keeps.\<close>

definition minds_own ::
  "string \<Rightarrow> string set \<Rightarrow> string set \<Rightarrow> (string \<Rightarrow> ResourceLimiter option) \<Rightarrow> 'w \<times> string set \<Rightarrow> bool" where
  "minds_own n N Q rls u \<longleftrightarrow> (\<forall>rl. Rls (view (fst u)) n = Some rl \<longrightarrow> run_scope rl = N) \<and>
     (\<forall>ns \<in> N. \<forall>x. owned_by x (Rqs (view (fst u)) (quota_key ns)) \<longrightarrow> x = n) \<and>
     snd u \<subseteq> insert n Q \<and> (\<forall>m. m \<noteq> n \<longrightarrow> Rls (view (fst u)) m = rls m)"

lemma minds_own_call:
  assumes "machine_call W (\<lambda>u. view (fst u)) L n u v" and I: "minds_own n N Q rls u"
  shows "minds_own n N Q rls v"
proof -
  from assms(1) have s: "call_step C (fst u) (fst v)" "snd v = snd u \<union> {x. wakes controller_builder view V x (fst u) (fst v)}"
    and c: "view (fst v) = view (fst u) \<or> controller_step L n (view (fst u)) (view (fst v))"
    by (simp_all add: machine_call_def W_step)
  note I' = I[unfolded minds_own_def]
  show ?thesis
  proof (cases "view (fst v) = view (fst u)")
    case True
    then have "snd v = snd u" using s(2) wakes_iff[OF s(1)] by auto
    with I' show ?thesis unfolding minds_own_def True by blast
  next
    case False
    with c have m: "controller_step L n (view (fst u)) (view (fst v))" by blast
    from no_object_no_step[OF m] obtain rl where rl: "Rls (view (fst u)) n = Some rl" by blast
    with I' have sc: "run_scope rl = N" by blast
    note ms = machine_step[OF m well_keyed_abs rl, unfolded sc]
    have own_u: "x = n" if "ns \<in> N" "owned_by x (Rqs (view (fst u)) (quota_key ns))" for ns x using I' that by blast
    have own: "x = n" if "ns \<in> N" "owned_by x (Rqs (view (fst v)) (quota_key ns))" for ns x
      using ms(4)[of "quota_key ns"] own_u[OF that(1)] that(2) by (auto simp: owned_by_def split: option.splits)
    have "x = n" if w: "wakes controller_builder view V x (fst u) (fst v)" for x
    proof (cases "Rls (view (fst v)) x = Rls (view (fst u)) x")
      case True
      with w[unfolded wakes_iff[OF s(1)]] obtain k where k: "Rqs (view (fst v)) k \<noteq> Rqs (view (fst u)) k"
        "owned_by x (Rqs (view (fst u)) k) \<or> owned_by x (Rqs (view (fst v)) k)" by blast
      with ms(3) own own_u show ?thesis by blast
    qed (use ms(1) in blast)
    then have "snd v \<subseteq> insert n Q" unfolding s(2) using I' by blast
    moreover have "\<forall>m. m \<noteq> n \<longrightarrow> Rls (view (fst v)) m = rls m" using ms(1) I' by metis
    ultimately show ?thesis unfolding minds_own_def using ms(2) own by blast
  qed
qed

text \<open>It wakes no one else up, and the quotas remain its own.\<close>

lemma run_wakes_itself:
  assumes run: "Reconcile W L n (w, Q) = (out, (w', Q'))" and rl: "Rls (view w) n = Some rl"
    and own: "\<And>ns x. ns \<in> run_scope rl \<Longrightarrow> owned_by x (Rqs (view w) (quota_key ns)) \<Longrightarrow> x = n"
  shows "Q' \<subseteq> insert n Q"
    "ns \<in> run_scope rl \<Longrightarrow> owned_by x (Rqs (view w') (quota_key ns)) \<Longrightarrow> x = n"
    "m \<noteq> n \<Longrightarrow> Rls (view w') m = Rls (view w) m"
proof -
  have "minds_own n (run_scope rl) Q (Rls (view w)) (w, Q)"
    using rl own by (simp add: minds_own_def subset_insertI)
  with reconciler.Reconcile_refined[OF W_reconciler run] have "minds_own n (run_scope rl) Q (Rls (view w)) (w', Q')"
    by (induction rule: rtranclp_induct) (blast intro: minds_own_call)+
  then show "Q' \<subseteq> insert n Q"
    "ns \<in> run_scope rl \<Longrightarrow> owned_by x (Rqs (view w') (quota_key ns)) \<Longrightarrow> x = n"
    "m \<noteq> n \<Longrightarrow> Rls (view w') m = Rls (view w) m" unfolding minds_own_def fst_conv snd_conv by blast+
qed

text \<open>To the others everything looks the same afterwards.\<close>

lemma run_same_for:
  assumes run: "Reconcile W L n (w, Q) = (out, (w', Q'))" and rl: "Rls (view w) n = Some rl" "DeletionTimestamp (Meta rl) = None"
    and "m \<noteq> n" and "N \<inter> names_of (Spec rl) = {}"
  shows "same_for m N (view w) (view w')"
proof -
  from reconciler.Reconcile_run_frame[OF W_reconciler run, unfolded fst_conv, OF rl(1)] rl(2)
  have f: "run_frame n (names_of (Spec rl)) (view w) (view w')" by (simp add: names_of_def)
  then have o: "only_touches (names_of (Spec rl)) (view w) ((view w')\<lparr>Rls := Rls (view w)\<rparr>)"
    and "Rls (view w') m = Rls (view w) m" using assms(4) unfolding run_frame_def by blast+
  moreover have "Nss (view w') ns = Nss (view w) ns \<and> Rqs (view w') (quota_key ns) = Rqs (view w) (quota_key ns)"
    if "ns \<in> N" for ns
  proof -
    have "ns \<notin> names_of (Spec rl)" "quota_key ns \<notin> quota_key ` names_of (Spec rl)" using that assms(5) by auto
    with only_touchesD(2,4)[OF o] show ?thesis by simp
  qed
  ultimately show ?thesis by (simp add: same_for_def)
qed

section \<open>The manager comes to rest\<close>

text \<open>What holds between two turns: the objects can be served, and those that are not queued are at their goal.\<close>

definition between_turns :: "string set \<Rightarrow> (string \<Rightarrow> ResourceLimiterSpec) \<Rightarrow> string set \<times> 'w \<Rightarrow> bool" where
  "between_turns F sp u \<longleftrightarrow> fst u \<subseteq> F \<and> orderly L F sp (view (snd u)) \<and>
     (\<forall>n \<in> F - fst u. ready L n (sp n) (view (snd u)))"

definition turns_left :: "(string \<Rightarrow> ResourceLimiterSpec) \<Rightarrow> string set \<times> 'w \<Rightarrow> nat" where
  "turns_left sp u = (\<Sum>n \<in> fst u. rank L n (sp n) (view (snd u)) + 1)"

lemma orderly_turn:
  assumes kind: "(\<forall>x. MergeFrom L 1 x = BaseCopy x) \<or> (\<forall>x. MergeFrom L 1 x = BaseRef 1)"
    and ord: "orderly L F sp (view w)" and nF: "n \<in> F"
    and run: "Reconcile W L n (w, Q) = (out, (w', Q'))" and nQ: "n \<notin> Q"
  shows "out = Done None" "n \<notin> Q' \<Longrightarrow> ready L n (sp n) (view w')" "n \<in> Q' \<Longrightarrow> rank L n (sp n) (view w') < rank L n (sp n) (view w)"
    "Q \<subseteq> Q'" "Q' \<subseteq> insert n Q" "m \<in> F \<Longrightarrow> m \<noteq> n \<Longrightarrow> same_for m (names_of (sp m)) (view w) (view w')"
    "orderly L F sp (view w')"
proof -
  note o = orderlyD[OF ord nF]
  from o(1) obtain rl where rl: "Rls (view w) n = Some rl" "Spec rl = sp n" "DeletionTimestamp (Meta rl) = None"
    by (auto simp: runnable_def)
  then have scope: "run_scope rl = names_of (sp n)" by (simp add: run_scope_def names_of_def)
  note t = turn[OF o(1-3) kind run nQ]
  show "out = Done None" "n \<notin> Q' \<Longrightarrow> ready L n (sp n) (view w')"
    "n \<in> Q' \<Longrightarrow> rank L n (sp n) (view w') < rank L n (sp n) (view w)" using t by simp_all
  show "Q \<subseteq> Q'" using queue_grows[OF Reconcile_calls[OF run]] by simp
  show "Q' \<subseteq> insert n Q" by (rule run_wakes_itself(1)[OF run rl(1)]) (use o(5) in \<open>simp add: scope\<close>)
  have own: "x = n" if "ns \<in> names_of (sp n)" "owned_by x (Rqs (view w') (quota_key ns))" for ns x
    by (rule run_wakes_itself(2)[OF run rl(1), of ns]) (use o(5) that in \<open>simp_all add: scope\<close>)
  have same: "same_for m (names_of (sp m)) (view w) (view w')" if "m \<in> F" "m \<noteq> n" for m
    by (rule run_same_for[OF run rl(1,3) that(2)]) (use o(4)[OF that] rl(2) in simp)
  then show "m \<in> F \<Longrightarrow> m \<noteq> n \<Longrightarrow> same_for m (names_of (sp m)) (view w) (view w')" .
  have "runnable L m (sp m) (view w') \<and> (\<forall>ns \<in> names_of (sp m). \<forall>x. owned_by x (Rqs (view w') (quota_key ns)) \<longrightarrow> x = m)"
    if m: "m \<in> F" for m
  proof (cases "m = n")
    case True
    with t(2) own show ?thesis by blast
  next
    case False
    note om = orderlyD[OF ord m]
    have "x = m" if "ns \<in> names_of (sp m)" "owned_by x (Rqs (view w') (quota_key ns))" for ns x
      using om(5)[of ns x] same[OF m False] that by (simp add: same_for_def)
    with same_for_runnable[OF same[OF m False] om(1)] show ?thesis by blast
  qed
  with ord show "orderly L F sp (view w')" unfolding orderly_def by blast
qed

lemma turns_left_drops:
  assumes "finite queue" and n: "n \<in> queue" and sub: "queue - {n} \<subseteq> queue'" "queue' \<subseteq> queue"
    and drop: "n \<in> queue' \<Longrightarrow> rank L n (sp n) (view w') < rank L n (sp n) (view w)"
    and same: "\<And>m. m \<in> queue - {n} \<Longrightarrow> rank L m (sp m) (view w') = rank L m (sp m) (view w)"
  shows "turns_left sp (queue', w') < turns_left sp (queue, w)"
proof -
  let ?r = "\<lambda>c m. rank L m (sp m) c + 1"
  have others: "(\<Sum>m \<in> queue - {n}. ?r (view w') m) = (\<Sum>m \<in> queue - {n}. ?r (view w) m)"
    using same by (intro sum.cong) auto
  have u: "turns_left sp (queue, x) = ?r (view x) n + (\<Sum>m \<in> queue - {n}. ?r (view x) m)" for x
    unfolding turns_left_def fst_conv snd_conv by (rule sum.remove[OF assms(1) n])
  show ?thesis
  proof (cases "n \<in> queue'")
    case True
    then have "queue' = queue" using sub by auto
    with u others drop[OF True] show ?thesis by simp
  next
    case False
    then have "queue' = queue - {n}" using sub by auto
    with u others show ?thesis by (simp add: turns_left_def)
  qed
qed

lemma one_turn:
  assumes kind: "(\<forall>x. MergeFrom L 1 x = BaseCopy x) \<or> (\<forall>x. MergeFrom L 1 x = BaseRef 1)"
    and fin: "finite F" and I: "between_turns F sp u" and "manager_step controller_builder view V C L u v"
  shows "between_turns F sp v \<and> turns_left sp v < turns_left sp u"
  using assms(4)
proof cases
  case (take_one n queue w out w' queue')
  from I take_one(1,3) have QF: "queue \<subseteq> F" and nF: "n \<in> F" and ord: "orderly L F sp (view w)"
    and rest: "\<And>m. m \<in> F - queue \<Longrightarrow> ready L m (sp m) (view w)" by (auto simp: between_turns_def)
  have "n \<notin> queue - {n}" by simp
  note t = orderly_turn[OF kind ord nF take_one(4) this]
  have sub: "queue' \<subseteq> queue" using t(5) take_one(3) by auto
  have "ready L m (sp m) (view w')" if "m \<in> F - queue'" for m
  proof (cases "m = n")
    case True
    with t(2) that show ?thesis by blast
  next
    case False
    with that t(4) rest same_for_ready[OF t(6)] show ?thesis by auto
  qed
  with t(7) sub QF have "between_turns F sp (queue', w')" by (auto simp: between_turns_def)
  moreover have "rank L m (sp m) (view w') = rank L m (sp m) (view w)" if "m \<in> queue - {n}" for m
    using same_for_rank[OF t(6) orderlyD(1)[OF ord], of m] that QF by auto
  then have "turns_left sp (queue', w') < turns_left sp (queue, w)"
    by (intro turns_left_drops[OF finite_subset[OF QF fin] take_one(3) t(4) sub]) (rule t(3))
  ultimately show ?thesis using take_one(1,2) t(1) by simp
qed

lemma all_turns:
  assumes "(\<forall>x. MergeFrom L 1 x = BaseCopy x) \<or> (\<forall>x. MergeFrom L 1 x = BaseRef 1)" and "finite F"
    and "between_turns F sp u" and "(manager_step controller_builder view V C L ^^ k) u v"
  shows "between_turns F sp v \<and> turns_left sp v + k \<le> turns_left sp u"
  using assms(4)
proof (induction k arbitrary: v)
  case 0
  with assms(3) show ?case by simp
next
  case (Suc k)
  then obtain x where x: "(manager_step controller_builder view V C L ^^ k) u x"
    "manager_step controller_builder view V C L x v" by auto
  from Suc.IH[OF x(1)] one_turn[OF assms(1,2) _ x(2)] show ?case by fastforce
qed

lemma manager_comes_to_rest:
  assumes kind: "(\<forall>x. MergeFrom L 1 x = BaseCopy x) \<or> (\<forall>x. MergeFrom L 1 x = BaseRef 1)" and fin: "finite F"
    and "orderly L F sp (view w)" and "(manager_step controller_builder view V C L ^^ k) (F, w) (queue, w')"
  shows "k \<le> (\<Sum>n \<in> F. missing (sp n) (view w) + 2)" "n \<in> F - queue \<Longrightarrow> ready L n (sp n) (view w')"
proof -
  have "between_turns F sp (F, w)" using assms(3) by (simp add: between_turns_def)
  from all_turns[OF kind fin this assms(4)]
  have *: "between_turns F sp (queue, w')" "k \<le> turns_left sp (F, w)" by simp_all
  have "turns_left sp (F, w) \<le> (\<Sum>n \<in> F. missing (sp n) (view w) + 2)"
    unfolding turns_left_def by (rule order_trans[OF _ sum_mono[of F "\<lambda>n. rank L n (sp n) (view w) + 1"]]) (simp_all add: rank_def)
  with * show "k \<le> (\<Sum>n \<in> F. missing (sp n) (view w) + 2)" "n \<in> F - queue \<Longrightarrow> ready L n (sp n) (view w')"
    by (simp_all add: between_turns_def)
qed

section \<open>Objects that share a namespace\<close>

text \<open>A turn for an object without missing quotas leaves it settled and every other object as it is.\<close>

lemma lone_turn:
  assumes kind: "(\<forall>x. MergeFrom L 1 x = BaseCopy x) \<or> (\<forall>x. MergeFrom L 1 x = BaseRef 1)"
    and "manager_step controller_builder view V C L u v" and "between_turns {a} sp u"
    and "missing (sp a) (view (snd u)) = 0" and "b \<noteq> a"
  shows "settled L a (view (snd v)) \<and> Rls (view (snd v)) b = Rls (view (snd u)) b"
  using assms(2)
proof cases
  case (take_one n queue w out w' queue')
  from assms(3) take_one(1,3) have n: "n = a" and ord: "orderly L {a} sp (view w)" by (auto simp: between_turns_def)
  note o = orderlyD[OF ord singletonI]
  from o(1) obtain rl where rl: "Rls (view w) a = Some rl" "Spec rl = sp a" "DeletionTimestamp (Meta rl) = None"
    by (auto simp: runnable_def)
  note run = take_one(4)[unfolded n]
  have "a \<notin> queue - {a}" by simp
  from turn(1)[OF o(1-3) kind run this] have run0: "Reconcile W L a (w, queue - {a}) = (Done None, (w', queue'))"
    using run by simp
  have ex: "Rqs (view w) (quota_key (NamespaceName q)) \<noteq> None" if "q \<in> set (live_quotas (Quotas (sp a)))" for q
    using assms(4) take_one(1) that by (simp add: missing_zero)
  have "settled L a (view w')"
    using reconciler.settling_run[OF W_reconciler run0, unfolded fst_conv, OF rl(1,3)] rl(2) o(2,3) ex kind by simp
  moreover have scope: "run_scope rl = names_of (sp a)" using rl(2,3) by (simp add: run_scope_def names_of_def)
  have "Rls (view w') b = Rls (view w) b"
    by (rule run_wakes_itself(3)[OF run rl(1) _ assms(5)]) (use o(5) in \<open>simp add: scope\<close>)
  ultimately show ?thesis using take_one(1,2) by simp
qed

lemma settled_missing:
  assumes "settled L n c" and "runnable L n sp c"
  shows "missing sp c = 0"
  using assms by (auto simp: missing_zero settled_def runnable_def converged_def)

lemma lone_turns:
  assumes kind: "(\<forall>x. MergeFrom L 1 x = BaseCopy x) \<or> (\<forall>x. MergeFrom L 1 x = BaseRef 1)"
    and "between_turns {a} sp u" and "missing (sp a) (view (snd u)) = 0" and "b \<noteq> a"
    and "(manager_step controller_builder view V C L ^^ Suc k) u v"
  shows "settled L a (view (snd v)) \<and> Rls (view (snd v)) b = Rls (view (snd u)) b"
  using assms(5)
proof (induction k arbitrary: v)
  case 0
  then have "manager_step controller_builder view V C L u v" by (simp add: relcompp_apply)
  from lone_turn[OF kind this assms(2-4)] show ?case .
next
  case (Suc k)
  then obtain x where x: "(manager_step controller_builder view V C L ^^ Suc k) u x"
    "manager_step controller_builder view V C L x v" by auto
  from all_turns[OF kind _ assms(2) x(1)] have I: "between_turns {a} sp x" by simp
  then have "orderly L {a} sp (view (snd x))" by (simp add: between_turns_def)
  from orderlyD(1)[OF this singletonI] Suc.IH[OF x(1)] settled_missing have "missing (sp a) (view (snd x)) = 0" by blast
  from lone_turn[OF kind x(2) I this assms(4)] Suc.IH[OF x(1)] show ?case by simp
qed

lemma shared_namespace:
  assumes kind: "(\<forall>x. MergeFrom L 1 x = BaseCopy x) \<or> (\<forall>x. MergeFrom L 1 x = BaseRef 1)"
    and "orderly L {a} (\<lambda>n. sp) (view w)" and "missing sp (view w) = 0" and "b \<noteq> a"
    and "qa \<in> set (live_quotas (Quotas sp))" and "NamespaceName qb = NamespaceName qa"
    and "setHard L empty_rq qa \<noteq> setHard L (empty_rq :: 'q ResourceQuota) qb"
    and steps: "(manager_step controller_builder view V C L ^^ Suc k) ({a}, w) (queue, w')"
  shows "k < 2" "queue \<subseteq> {a}" "Rls (view w') b = Rls (view w) b" "\<not> converged L (view w') qb"
proof -
  have I: "between_turns {a} (\<lambda>n. sp) ({a}, w)" using assms(2) by (simp add: between_turns_def)
  from all_turns[OF kind _ I steps] have "between_turns {a} (\<lambda>n. sp) (queue, w')" by simp
  then have "orderly L {a} (\<lambda>n. sp) (view w')" and "queue \<subseteq> {a}" by (simp_all add: between_turns_def)
  from orderlyD(1)[OF this(1) singletonI] have r: "runnable L a sp (view w')" .
  from \<open>queue \<subseteq> {a}\<close> show "queue \<subseteq> {a}" by simp
  from manager_comes_to_rest(1)[OF kind _ assms(2) steps] assms(3) show "k < 2" by simp
  from lone_turns[OF kind I _ assms(4) steps] assms(3)
  have s: "settled L a (view w')" and "Rls (view w') b = Rls (view w) b" by simp_all
  then show "Rls (view w') b = Rls (view w) b" by simp
  from s r assms(5) have "converged L (view w') qa" by (auto simp: settled_def runnable_def)
  then obtain rq where rq: "Rqs (view w') (quota_key (NamespaceName qa)) = Some rq" "enforces L qa rq"
    by (auto simp: converged_def)
  from enforces_both[OF rq(2)] assms(7) have "\<not> enforces L qb rq" by blast
  with rq(1) assms(6) show "\<not> converged L (view w') qb" by (simp add: converged_def)
qed

lemma stranded_by_deletion:
  assumes run: "Reconcile W L a (w, {}) = (Done None, (w', queue))" and rl: "Rls (view w) a = Some rl"
    and "DeletionTimestamp (Meta rl) \<noteq> None" and "DefaultFinalizer \<in> set (Finalizers (Meta rl))"
    and "State (Status rl) \<noteq> Stopped"
    and own: "\<And>ns x. ns \<in> run_scope rl \<Longrightarrow> owned_by x (Rqs (view w) (quota_key ns)) \<Longrightarrow> x = a"
    and "qa \<in> set (Quotas (Spec rl))" and "Nss (view w) (NamespaceName qa) \<noteq> None"
    and "NamespaceName qb = NamespaceName qa" and "b \<noteq> a"
  shows "b \<notin> queue" "Rls (view w') b = Rls (view w) b" "cleaned (view w') (NamespaceName qa)" "\<not> converged L (view w') qb"
proof -
  from reconciler.deletion_run[OF W_reconciler run, unfolded fst_conv, OF rl assms(3,4)] assms(5,7,8)
  show c: "cleaned (view w') (NamespaceName qa)" by blast
  show "\<not> converged L (view w') qb" using c assms(9) by (auto simp: cleaned_def converged_def)
  have "queue \<subseteq> insert a {}" by (rule run_wakes_itself(1)[OF run rl]) (rule own)
  with assms(10) show "b \<notin> queue" by blast
  show "Rls (view w') b = Rls (view w) b" by (rule run_wakes_itself(3)[OF run rl _ assms(10)]) (rule own)
qed

end

end
