(* ===== verification/Many_Limiters_Props.thy ===== *)
theory Many_Limiters_Props
  imports Many_Limiters Event_Loop_Props
begin

text \<open>
  The properties of several resource limiters under one controller, for every API server that keeps the contracts
  and versions its objects (\<open>event_source\<close>): objects with namespaces of their own all come to rest; objects
  that share a namespace undo each other's work, and one of them is never told.
\<close>

section \<open>Objects with namespaces of their own\<close>

text \<open>With any number of objects in the queue, in whatever order they are taken, the controller comes
  to rest: if each object can be served, has namespaces of its own and lists each once, then all together take
  at most two more runs per object than there are quotas to create, at any time every object that is not in the
  queue is \<open>ready\<close> with all its quotas in force, and while the queue is not empty there is a next run.\<close>

theorem manager_rests:
  assumes "event_source C view L V" and "(\<forall>x. MergeFrom L 1 x = BaseCopy x) \<or> (\<forall>x. MergeFrom L 1 x = BaseRef 1)"
    and "finite F" and "orderly L F sp (view w)"
    and "(manager_step controller_builder view V C L ^^ k) (F, w) (queue, w')"
  shows "k \<le> (\<Sum>n \<in> F. missing (sp n) (view w) + 2) \<and> (\<forall>n \<in> F - queue. ready L n (sp n) (view w')) \<and>
    (queue \<noteq> {} \<longrightarrow> (\<exists>v. manager_step controller_builder view V C L (queue, w') v))"
proof (intro conjI ballI impI)
  show "k \<le> (\<Sum>n \<in> F. missing (sp n) (view w) + 2)" by (rule event_source.manager_comes_to_rest(1)[OF assms])
  show "ready L n (sp n) (view w')" if "n \<in> F - queue" for n
    by (rule event_source.manager_comes_to_rest(2)[OF assms that])
  assume "queue \<noteq> {}"
  then obtain n where "n \<in> queue" by blast
  then show "\<exists>v. manager_step controller_builder view V C L (queue, w') v" by (rule manager_moves)
qed

definition ex_other :: ResourceLimiter where
  "ex_other = ex_rl\<lparr>Meta := empty_meta\<lparr>Name := ''rl2''\<rparr>,
     Spec := \<lparr>Quotas = [ex_quota\<lparr>NamespaceName := ''team''\<rparr>], Applied = True\<rparr>\<rparr>"

definition ex_two :: "string cluster" where
  "ex_two = \<lparr>Rls = [''rl'' \<mapsto> ex_rl, ''rl2'' \<mapsto> ex_other],
     Nss = [''default'' \<mapsto> ex_ns, ''team'' \<mapsto> \<lparr>NsName = ''team'', Labels = []\<rparr>], Rqs = Map.empty\<rparr>"

lemma ex_two_sel: "Rls (proper ex_two) ''rl'' = Some ex_rl" "Rls (proper ex_two) ''rl2'' = Some ex_other"
  "Nss (proper ex_two) ''default'' \<noteq> None" "Nss (proper ex_two) ''team'' \<noteq> None" "Rqs (proper ex_two) k = None"
  by (simp_all add: ex_two_def proper_def ex_other_def ex_rl_def empty_meta_def ex_ns_def)

lemma ex_live: "live_quotas (Quotas (Spec ex_rl)) = [ex_quota]"
  "live_quotas (Quotas (Spec ex_other)) = [ex_quota\<lparr>NamespaceName := ''team''\<rparr>]"
  by (simp_all add: ex_rl_def ex_other_def ex_quota_def ignored_def go_defs)

lemma ex_two_orderly:
  "orderly mem_lib {''rl'', ''rl2''} (\<lambda>n. if n = ''rl'' then Spec ex_rl else Spec ex_other) (proper ex_two)"
proof -
  have p: "parses mem_lib ex_quota" "parses mem_lib (ex_quota\<lparr>NamespaceName := ''team''\<rparr>)"
    "NamespaceName ex_quota = ''default''" by (simp_all add: parses_def mem_lib_def ex_quota_def)
  have d: "DeletionTimestamp (Meta ex_rl) = None" "DeletionTimestamp (Meta ex_other) = None"
    "Applied (Spec ex_rl)" "Applied (Spec ex_other)" by (simp_all add: ex_rl_def ex_other_def empty_meta_def)
  show ?thesis
    using p d ex_two_sel by (simp add: orderly_def runnable_def ex_live names_of_def owned_by_def)
qed

theorem manager_rests_witness:
  "\<exists>queue w'. (manager_step controller_builder (\<lambda>u. proper (fst u)) stamp_versions versioned_mem mem_lib ^^ 1)
       ({''rl'', ''rl2''}, (ex_two, stamp0)) (queue, w') \<and>
     (''rl'' \<notin> queue \<longrightarrow> ready mem_lib ''rl'' (Spec ex_rl) (proper (fst w')))"
proof -
  let ?v = "\<lambda>u :: string cluster \<times> stamps. proper (fst u)" and ?sp = "\<lambda>n. if n = ''rl'' then Spec ex_rl else Spec ex_other"
  let ?F = "{''rl'', ''rl2''}" and ?w = "(ex_two, stamp0)"
  obtain out w1 q1 where r: "Reconcile (watching controller_builder ?v stamp_versions versioned_mem) mem_lib ''rl''
      (?w, ?F - {''rl''}) = (out, (w1, q1))" by (metis prod.exhaust)
  obtain queue w' where s: "manager_step controller_builder ?v stamp_versions versioned_mem mem_lib (?F, ?w) (queue, w')"
    using manager_step.take_one[OF insertI1 r] by blast
  then have s1: "(manager_step controller_builder ?v stamp_versions versioned_mem mem_lib ^^ 1) (?F, ?w) (queue, w')"
    by (simp add: relcompp_apply)
  have k: "(\<forall>x. MergeFrom mem_lib 1 x = BaseCopy x) \<or> (\<forall>x. MergeFrom mem_lib 1 x = BaseRef 1)"
    by (simp add: mem_lib_def)
  have o: "orderly mem_lib ?F ?sp (?v ?w)" using ex_two_orderly by simp
  from manager_rests[OF meme.event_source_axioms k _ o s1]
  have "\<forall>n \<in> ?F - queue. ready mem_lib n (?sp n) (?v w')" by simp
  then have "''rl'' \<notin> queue \<longrightarrow> ready mem_lib ''rl'' (Spec ex_rl) (proper (fst w'))"
    by (auto dest!: bspec[where x = "''rl''"])
  with s1 show ?thesis by blast
qed

section \<open>Objects that share a namespace\<close>

text \<open>C30: two objects list one namespace with different limits. The first, for its part, is in order: live, applied, with existing
  namespaces listed once each, quantities that parse, all quotas there, and none of them owned by another. However long
  the controller goes on after the first object was queued (it does so for at most two runs), after each run
  the limits of the second object are not in force, the second object is as it was - its status still says what it
  said - and it is not in the queue: nobody will tell. The validating webhook looks at one object at a time
  and refuses neither.\<close>

theorem shared_namespace_unnoticed:
  assumes "event_source C (view :: 'w \<Rightarrow> 'q cluster) L V"
    and "(\<forall>x. MergeFrom L 1 x = BaseCopy x) \<or> (\<forall>x. MergeFrom L 1 x = BaseRef 1)"
    and "orderly L {a} (\<lambda>n. sp) (view w)" and "missing sp (view w) = 0" and "b \<noteq> a"
    and "qa \<in> set (live_quotas (Quotas sp))" and "NamespaceName qb = NamespaceName qa"
    and "setHard L empty_rq qa \<noteq> setHard L (empty_rq :: 'q ResourceQuota) qb"
    and "(manager_step controller_builder view V C L ^^ Suc k) ({a}, w) (queue, w')"
  shows "k < 2 \<and> b \<notin> queue \<and> Rls (view w') b = Rls (view w) b \<and> \<not> converged L (view w') qb"
  using event_source.shared_namespace[OF assms] assms(5) by blast

definition ex_rival :: ResourceLimiter where
  "ex_rival = ex_rl\<lparr>Meta := empty_meta\<lparr>Name := ''rl2''\<rparr>, Spec := \<lparr>Quotas = [ex_quota\<lparr>CpuLimit := ''3''\<rparr>], Applied = True\<rparr>,
     Status := \<lparr>State = Ready, StatusQuotas = []\<rparr>\<rparr>"

definition ex_shared :: "string cluster" where
  "ex_shared = (ex_cluster1 ex_rl)\<lparr>Rls := [''rl'' \<mapsto> ex_rl, ''rl2'' \<mapsto> ex_rival]\<rparr>"

lemma ex_shared_sel: "Rls (proper ex_shared) ''rl'' = Some ex_rl" "Rls (proper ex_shared) ''rl2'' = Some ex_rival"
  "Nss (proper ex_shared) ''default'' \<noteq> None"
  "\<exists>rq. Rqs (proper ex_shared) (quota_key ''default'') = Some rq \<and> Owner rq = Some ''rl''"
proof -
  show "Rls (proper ex_shared) ''rl'' = Some ex_rl" "Rls (proper ex_shared) ''rl2'' = Some ex_rival"
    by (simp_all add: ex_shared_def proper_def ex_rl_def ex_rival_def empty_meta_def)
  show "Nss (proper ex_shared) ''default'' \<noteq> None" by code_simp
  have "owned_by ''rl'' (Rqs (proper ex_shared) (quota_key ''default''))" by code_simp
  then show "\<exists>rq. Rqs (proper ex_shared) (quota_key ''default'') = Some rq \<and> Owner rq = Some ''rl''"
    by (simp add: owned_by_def split: option.splits)
qed

lemma ex_rival_differs: "NamespaceName (ex_quota\<lparr>CpuLimit := ''3''\<rparr>) = NamespaceName ex_quota"
  "setHard mem_lib empty_rq ex_quota \<noteq> setHard mem_lib empty_rq (ex_quota\<lparr>CpuLimit := ''3''\<rparr>)"
  "NamespaceName ex_quota = ''default''" "parses mem_lib ex_quota"
  by (simp_all add: setHard_def mem_lib_def ex_quota_def empty_rq_def go_defs parses_def)

theorem shared_namespace_unnoticed_witness:
  "\<exists>queue w'. (manager_step controller_builder (\<lambda>u. proper (fst u)) stamp_versions versioned_mem mem_lib ^^ Suc 0)
       ({''rl''}, (ex_shared, stamp0)) (queue, w') \<and> ''rl2'' \<notin> queue \<and>
     Rls (proper (fst w')) ''rl2'' = Some ex_rival \<and> State (Status ex_rival) = Ready \<and>
     \<not> converged mem_lib (proper (fst w')) (ex_quota\<lparr>CpuLimit := ''3''\<rparr>) \<and>
     check_quotas mem_lib (Quotas (Spec ex_rival)) = Inr None"
proof -
  let ?v = "\<lambda>u :: string cluster \<times> stamps. proper (fst u)" and ?w = "(ex_shared, stamp0)"
  obtain out w1 q1 where r: "Reconcile (watching controller_builder ?v stamp_versions versioned_mem) mem_lib ''rl''
      (?w, {''rl''} - {''rl''}) = (out, (w1, q1))" by (metis prod.exhaust)
  obtain queue w' where "manager_step controller_builder ?v stamp_versions versioned_mem mem_lib ({''rl''}, ?w) (queue, w')"
    using manager_step.take_one[OF singletonI r] by blast
  then have s: "(manager_step controller_builder ?v stamp_versions versioned_mem mem_lib ^^ Suc 0) ({''rl''}, ?w) (queue, w')"
    by (simp add: relcompp_apply)
  have d: "DeletionTimestamp (Meta ex_rl) = None" "Applied (Spec ex_rl)" by (simp_all add: ex_rl_def empty_meta_def)
  have o: "orderly mem_lib {''rl''} (\<lambda>n. Spec ex_rl) (?v ?w)"
    using ex_rival_differs ex_shared_sel d
    by (auto simp: orderly_def runnable_def ex_live names_of_def owned_by_def)
  have m: "missing (Spec ex_rl) (?v ?w) = 0"
    using ex_shared_sel(4) ex_rival_differs(3) by (auto simp: missing_zero ex_live)
  have k: "(\<forall>x. MergeFrom mem_lib 1 x = BaseCopy x) \<or> (\<forall>x. MergeFrom mem_lib 1 x = BaseRef 1)"
    by (simp add: mem_lib_def)
  have q: "ex_quota \<in> set (live_quotas (Quotas (Spec ex_rl)))" by (simp add: ex_live)
  have "''rl2'' \<noteq> ''rl''" by simp
  note u = shared_namespace_unnoticed[OF meme.event_source_axioms k o m this q ex_rival_differs(1,2) s]
  show ?thesis
  proof (intro exI conjI)
    show "(manager_step controller_builder ?v stamp_versions versioned_mem mem_lib ^^ Suc 0) ({''rl''}, ?w) (queue, w')"
      by (rule s)
    show "check_quotas mem_lib (Quotas (Spec ex_rival)) = Inr None" by code_simp
    show "State (Status ex_rival) = Ready" by (simp add: ex_rival_def)
  qed (use u ex_shared_sel(2) in simp_all)
qed




end
