(* ===== verification/Interference.thy ===== *)
theory Interference
  imports Call_Contents Controller_Machine
begin

text \<open>
  Runs among other writers. Before each call the others may do anything to the world (\<open>env\<close>); the log notes
  every call with the cluster just before and just after it. A run never acts outside its scope, and if the API
  server refuses to overwrite what has changed since it was read, none of the others' changes is lost.
\<close>

section \<open>The client among others\<close>

type_synonym 'q event_log = "('q entry \<times> 'q cluster \<times> 'q cluster) list"

definition after_others ::
  "('w \<Rightarrow> 'w) \<Rightarrow> ('w \<Rightarrow> 'q cluster) \<Rightarrow> ('a \<Rightarrow> 'q entry) \<Rightarrow> ('w \<Rightarrow> 'a \<times> 'w) \<Rightarrow>
     'w \<times> 'q event_log \<Rightarrow> 'a \<times> ('w \<times> 'q event_log)" where
  "after_others env view e f u =
     (case f (env (fst u)) of (a, w') \<Rightarrow> (a, (w', snd u @ [(e a, view (env (fst u)), view w')])))"

definition amid :: "('w \<Rightarrow> 'w) \<Rightarrow> ('w \<Rightarrow> 'q cluster) \<Rightarrow> ('q, 'w) client \<Rightarrow> ('q, 'w \<times> 'q event_log) client" where
  "amid env view C =
     \<lparr>get_rl = \<lambda>n. after_others env view (ReadRl n) (get_rl C n),
      patch_rl = \<lambda>b x. after_others env view (PatchedRl b x) (patch_rl C b x),
      update_status = \<lambda>x. after_others env view (WroteStatus x) (update_status C x),
      get_ns = \<lambda>k. after_others env view (ReadNs k) (get_ns C k),
      update_ns = \<lambda>m. after_others env view (WroteNs m) (update_ns C m),
      get_rq = \<lambda>k. after_others env view (ReadRq k) (get_rq C k),
      create_rq = \<lambda>q. after_others env view (CreatedRq q) (create_rq C q),
      update_rq = \<lambda>q. after_others env view (WroteRq q) (update_rq C q),
      delete_rq = \<lambda>q. after_others env view (DeletedRq q) (delete_rq C q)\<rparr>"

text \<open>The calls alone, without the log.\<close>

definition disturbed :: "('w \<Rightarrow> 'w) \<Rightarrow> ('q, 'w) client \<Rightarrow> ('q, 'w) client" where
  "disturbed env C =
     \<lparr>get_rl = \<lambda>n w. get_rl C n (env w), patch_rl = \<lambda>b x w. patch_rl C b x (env w),
      update_status = \<lambda>x w. update_status C x (env w), get_ns = \<lambda>k w. get_ns C k (env w),
      update_ns = \<lambda>m w. update_ns C m (env w), get_rq = \<lambda>k w. get_rq C k (env w),
      create_rq = \<lambda>q w. create_rq C q (env w), update_rq = \<lambda>q w. update_rq C q (env w),
      delete_rq = \<lambda>q w. delete_rq C q (env w)\<rparr>"

section \<open>Clients that do the same\<close>

text \<open>\<open>h\<close> maps the worlds of \<open>A\<close> to those of \<open>B\<close>, and all calls agree. Then all runs agree.\<close>

definition mirrors :: "('u \<Rightarrow> 'v) \<Rightarrow> ('u \<Rightarrow> 'a \<times> 'u) \<Rightarrow> ('v \<Rightarrow> 'a \<times> 'v) \<Rightarrow> bool" where
  "mirrors h m m' \<longleftrightarrow> (\<forall>u. m' (h u) = map_prod id h (m u))"

definition same_client :: "('u \<Rightarrow> 'v) \<Rightarrow> ('q, 'u) client \<Rightarrow> ('q, 'v) client \<Rightarrow> bool" where
  "same_client h A B \<longleftrightarrow> (\<forall>n. mirrors h (get_rl A n) (get_rl B n)) \<and>
     (\<forall>b x. mirrors h (patch_rl A b x) (patch_rl B b x)) \<and> (\<forall>x. mirrors h (update_status A x) (update_status B x)) \<and>
     (\<forall>k. mirrors h (get_ns A k) (get_ns B k)) \<and> (\<forall>m. mirrors h (update_ns A m) (update_ns B m)) \<and>
     (\<forall>k. mirrors h (get_rq A k) (get_rq B k)) \<and> (\<forall>q. mirrors h (create_rq A q) (create_rq B q)) \<and>
     (\<forall>q. mirrors h (update_rq A q) (update_rq B q)) \<and> (\<forall>q. mirrors h (delete_rq A q) (delete_rq B q))"

lemma mirrors_return: "mirrors h (\<lambda>u. (a, u)) (\<lambda>u. (a, u))"
  by (simp add: mirrors_def)

lemma mirrors_bind:
  assumes "mirrors h m m'" and "\<And>a. mirrors h (k a) (k' a)"
  shows "mirrors h (\<lambda>u. case m u of (a, u1) \<Rightarrow> k a u1) (\<lambda>u. case m' u of (a, u1) \<Rightarrow> k' a u1)"
  using assms by (auto simp: mirrors_def split: prod.splits)

lemma mirrors_if: "mirrors h m m' \<Longrightarrow> mirrors h n n' \<Longrightarrow> mirrors h (\<lambda>u. if c then m u else n u) (\<lambda>u. if c then m' u else n' u)"
  by (cases c) simp_all

lemma mirrors_sum: "(\<And>e. mirrors h (f e) (f' e)) \<Longrightarrow> (\<And>x. mirrors h (g x) (g' x)) \<Longrightarrow>
    mirrors h (\<lambda>u. case a of Inl e \<Rightarrow> f e u | Inr x \<Rightarrow> g x u) (\<lambda>u. case a of Inl e \<Rightarrow> f' e u | Inr x \<Rightarrow> g' x u)"
  by (cases a) simp_all

lemma mirrors_option: "mirrors h f f' \<Longrightarrow> (\<And>x. mirrors h (g x) (g' x)) \<Longrightarrow>
    mirrors h (\<lambda>u. case a of None \<Rightarrow> f u | Some x \<Rightarrow> g x u) (\<lambda>u. case a of None \<Rightarrow> f' u | Some x \<Rightarrow> g' x u)"
  by (cases a) simp_all

lemma mirrors_ctl: "(\<And>s. mirrors h (f s) (f' s)) \<Longrightarrow> (\<And>e. mirrors h (g e) (g' e)) \<Longrightarrow> (\<And>m. mirrors h (k m) (k' m)) \<Longrightarrow>
    mirrors h (\<lambda>u. case a of Continue s \<Rightarrow> f s u | Return e \<Rightarrow> g e u | Panic m \<Rightarrow> k m u)
      (\<lambda>u. case a of Continue s \<Rightarrow> f' s u | Return e \<Rightarrow> g' e u | Panic m \<Rightarrow> k' m u)"
  by (cases a) simp_all

lemmas mirrors_intros = mirrors_bind mirrors_if mirrors_sum mirrors_option mirrors_ctl mirrors_return

lemma mirrors_for_loop:
  assumes "\<And>x s. mirrors h (body x s) (body' x s)"
  shows "mirrors h (for_loop body xs s) (for_loop body' xs s)"
  unfolding mirrors_def
proof
  fix u
  show "for_loop body' xs s (h u) = map_prod id h (for_loop body xs s u)"
  proof (induction xs arbitrary: s u)
    case (Cons x xs)
    have "body' x s (h u) = map_prod id h (body x s u)" using assms by (simp add: mirrors_def)
    with Cons.IH show ?case by (simp split: prod.split ctl.split)
  qed simp
qed

lemma same_clientD:
  assumes "same_client h A B"
  shows "mirrors h (get_rl A n) (get_rl B n)" "mirrors h (patch_rl A b x) (patch_rl B b x)"
    "mirrors h (update_status A x) (update_status B x)" "mirrors h (get_ns A k) (get_ns B k)"
    "mirrors h (update_ns A m) (update_ns B m)" "mirrors h (get_rq A k) (get_rq B k)"
    "mirrors h (create_rq A q) (create_rq B q)" "mirrors h (update_rq A q) (update_rq B q)"
    "mirrors h (delete_rq A q) (delete_rq B q)"
  using assms unfolding same_client_def by blast+

lemma mirrors_reconcile_quota:
  assumes "same_client h A B"
  shows "mirrors h (reconcile_quota A L rl q s) (reconcile_quota B L rl q s)"
proof -
  note c = same_clientD[OF assms]
  have 1: "mirrors h (create_quota A L rl q) (create_quota B L rl q)"
    unfolding create_quota_def[abs_def] Let_def by (intro mirrors_intros c)
  have 2: "mirrors h (update_quota A L rq q s) (update_quota B L rq q s)" for rq
    unfolding update_quota_def[abs_def] Let_def by (intro mirrors_intros c)
  have 3: "mirrors h (apply_quota A L rl q s) (apply_quota B L rl q s)"
    unfolding apply_quota_def[abs_def] by (intro mirrors_intros c 1 2)
  have 4: "mirrors h (remove_quota A q s) (remove_quota B q s)"
    unfolding remove_quota_def[abs_def] by (intro mirrors_intros c)
  show ?thesis unfolding reconcile_quota_def[abs_def] by (intro mirrors_intros c 3 4)
qed

lemma mirrors_delete_quota:
  assumes "same_client h A B"
  shows "mirrors h (delete_quota A q s) (delete_quota B q s)"
  unfolding delete_quota_def[abs_def] by (intro mirrors_intros same_clientD[OF assms])

lemma mirrors_reconcile:
  assumes "same_client h A B"
  shows "mirrors h (reconcile A L rl) (reconcile B L rl)"
proof -
  note c = same_clientD[OF assms]
  have "mirrors h (updateStatus A rl st) (updateStatus B rl st)" for st
    unfolding updateStatus_def[abs_def] by (rule c)
  then show ?thesis
    unfolding reconcile_def[abs_def]
    by (intro mirrors_intros mirrors_for_loop mirrors_reconcile_quota[OF assms])
qed

lemma mirrors_reconcileDelete:
  assumes "same_client h A B"
  shows "mirrors h (reconcileDelete A L rl) (reconcileDelete B L rl)"
proof -
  note c = same_clientD[OF assms]
  have "mirrors h (remove_our_finalizer A L rl) (remove_our_finalizer B L rl)"
    unfolding remove_our_finalizer_def[abs_def] Let_def by (intro mirrors_intros c)
  then show ?thesis
    unfolding reconcileDelete_def[abs_def]
    by (intro mirrors_intros mirrors_for_loop mirrors_delete_quota[OF assms])
qed

lemma mirrors_Reconcile:
  assumes "same_client h A B"
  shows "mirrors h (Reconcile A L n) (Reconcile B L n)"
proof -
  note c = same_clientD[OF assms]
  have "mirrors h (register_finalizer A L n rl) (register_finalizer B L n rl)" for rl
    unfolding register_finalizer_def[abs_def] Let_def by (intro mirrors_intros c)
  then show ?thesis
    unfolding Reconcile_def[abs_def]
    by (intro mirrors_intros c mirrors_reconcile[OF assms] mirrors_reconcileDelete[OF assms])
qed

text \<open>The log of a run among others is, but for the clusters, that of the client it calls.\<close>

lemma amid_logged: "same_client (\<lambda>u. (fst u, map fst (snd u))) (amid env view C) (logged (disturbed env C))"
  by (simp add: same_client_def mirrors_def amid_def after_others_def logged_def noting_def disturbed_def split: prod.split)

lemma amid_disturbed: "same_client fst (amid env view C) (disturbed env C)"
  by (simp add: same_client_def mirrors_def amid_def after_others_def disturbed_def split: prod.split)

section \<open>What the API does to each call\<close>

fun lawful :: "'q entry \<times> 'q cluster \<times> 'q cluster \<Rightarrow> bool" where
  "lawful (ReadRl n a, c, c') \<longleftrightarrow> c' = c \<and> (\<forall>x. a = Inr x \<longrightarrow> Rls c n = Some x \<and> rl_name x = n)"
| "lawful (ReadNs k a, c, c') \<longleftrightarrow> c' = c \<and> (\<forall>x. a = Inr x \<longrightarrow> Nss c (snd k) = Some x \<and> NsName x = snd k)"
| "lawful (ReadRq k a, c, c') \<longleftrightarrow> c' = c \<and> (\<forall>x. a = Inr x \<longrightarrow> Rqs c k = Some x \<and> key_of x = k)"
| "lawful (PatchedRl b x e, c, c') \<longleftrightarrow> x = set_finalizers (Finalizers (Meta x)) b \<longrightarrow> c' = c \<or> c' = eff_patch b x c"
| "lawful (WroteStatus x e, c, c') \<longleftrightarrow> c' = c \<or> c' = eff_status x c"
| "lawful (WroteNs m e, c, c') \<longleftrightarrow> c' = c \<or> c' = eff_update_ns m c"
| "lawful (CreatedRq q e, c, c') \<longleftrightarrow> c' = c \<or> c' = eff_create_rq q c"
| "lawful (WroteRq q e, c, c') \<longleftrightarrow> c' = c \<or> c' = eff_update_rq q c"
| "lawful (DeletedRq q e, c, c') \<longleftrightarrow> c' = c \<or> c' = eff_delete_rq q c"

context reconciler
begin

lemma lawful_calls:
  "get_rl C n w = (a, w') \<Longrightarrow> lawful (ReadRl n a, abs w, abs w')"
  "patch_rl C b x w = (e, w') \<Longrightarrow> lawful (PatchedRl b x e, abs w, abs w')"
  "update_status C x w = (e, w') \<Longrightarrow> lawful (WroteStatus x e, abs w, abs w')"
  "get_ns C k w = (a1, w') \<Longrightarrow> lawful (ReadNs k a1, abs w, abs w')"
  "update_ns C m w = (e, w') \<Longrightarrow> lawful (WroteNs m e, abs w, abs w')"
  "get_rq C k w = (a2, w') \<Longrightarrow> lawful (ReadRq k a2, abs w, abs w')"
  "create_rq C q w = (e, w') \<Longrightarrow> lawful (CreatedRq q e, abs w, abs w')"
  "update_rq C q w = (e, w') \<Longrightarrow> lawful (WroteRq q e, abs w, abs w')"
  "delete_rq C q w = (e, w') \<Longrightarrow> lawful (DeletedRq q e, abs w, abs w')"
proof -
  show "lawful (ReadRl n a, abs w, abs w')" if "get_rl C n w = (a, w')"
    using get_rlD(1)[OF that] get_rlD(2)[OF that] by auto
  show "lawful (PatchedRl b x e, abs w, abs w')" if "patch_rl C b x w = (e, w')"
    using that by (cases e) (auto dest: patch_rl_ok patch_rl_failed)
  show "lawful (ReadNs k a1, abs w, abs w')" if "get_ns C k w = (a1, w')"
    using get_nsD(1)[OF that] get_nsD(2)[OF that] by auto
  show "lawful (ReadRq k a2, abs w, abs w')" if "get_rq C k w = (a2, w')"
    using get_rqD(1)[OF that] get_rqD(2)[OF that] by auto
qed (auto dest: write_cases)

lemma amid_call:
  assumes "after_others env abs e f u = (a, v)" and "\<And>a w w'. f w = (a, w') \<Longrightarrow> lawful (e a, abs w, abs w')"
  shows "\<exists>l. snd v = snd u @ [l] \<and> lawful l"
  using assms by (auto simp: after_others_def split: prod.splits)

lemma amid_step:
  assumes "call_step (amid env abs C) u v"
  shows "\<exists>l. snd v = snd u @ [l] \<and> lawful l"
  using assms by cases (simp only: amid_def client.simps, erule amid_call, erule lawful_calls)+

lemma amid_lawful:
  assumes "Reconcile (amid env abs C) L n (w, []) = (out, (w', t))"
  shows "list_all lawful t"
proof -
  have "list_all lawful (snd (w', t))"
    by (rule calls_keep[OF Reconcile_calls[OF assms], where I = "\<lambda>u. list_all lawful (snd u)"])
      (auto dest: amid_step)
  then show ?thesis by simp
qed

end

section \<open>Runs stay in their scope\<close>

text \<open>The API server does not let a namespace be overwritten that has changed since it was read.\<close>

fun unstale :: "'q entry \<times> 'q cluster \<times> 'q cluster \<Rightarrow> 'q entry \<times> 'q cluster \<times> 'q cluster \<Rightarrow> bool" where
  "unstale (ReadNs k (Inr x), d, d') (WroteNs m e, c, c') \<longleftrightarrow> c' \<noteq> c \<longrightarrow> Nss c (NsName m) = Some x"
| "unstale _ _ \<longleftrightarrow> True"

definition optimistic :: "'q event_log \<Rightarrow> bool" where
  "optimistic t \<longleftrightarrow> (\<forall>i. Suc i < length t \<longrightarrow> unstale (t ! i) (t ! Suc i))"

lemma run_frame_patch: "rl_name x = n \<Longrightarrow> run_frame n N c (eff_patch b x c)"
  by (rule run_frame_rest) (auto simp: eff_patch_def set_finalizers_def split: option.splits if_splits)

text \<open>What a call may change, whether or not it overwrites a namespace with an older one: nothing but the object,
  but neither its spec nor its deletion timestamp, the namespaces \<open>N\<close>, and their quotas.\<close>

definition in_scope :: "string \<Rightarrow> string set \<Rightarrow> 'q cluster \<Rightarrow> 'q cluster \<Rightarrow> bool" where
  "in_scope n N c c' \<longleftrightarrow> (\<forall>m. m \<notin> N \<longrightarrow> Nss c' m = Nss c m) \<and>
     (\<forall>k. k \<notin> quota_key ` N \<longrightarrow> Rqs c' k = Rqs c k) \<and>
     (\<forall>m. m \<noteq> n \<longrightarrow> Rls c' m = Rls c m) \<and> (Rls c n = None \<longrightarrow> Rls c' n = None) \<and>
     (\<forall>rl rl'. Rls c n = Some rl \<longrightarrow> Rls c' n = Some rl' \<longrightarrow>
        Spec rl' = Spec rl \<and> DeletionTimestamp (Meta rl') = DeletionTimestamp (Meta rl))"

lemma run_frame_in_scope:
  assumes "run_frame n N c c'"
  shows "in_scope n N c c'"
proof -
  from assms have o: "only_touches N c (c'\<lparr>Rls := Rls c\<rparr>)" by (simp add: run_frame_def)
  have "\<forall>m. m \<notin> N \<longrightarrow> Nss c' m = Nss c m" "\<forall>k. k \<notin> quota_key ` N \<longrightarrow> Rqs c' k = Rqs c k"
    using only_touchesD(2,4)[OF o] by simp_all
  with assms show ?thesis unfolding in_scope_def run_frame_def by blast
qed

lemma in_scope_update_ns: "NsName m \<in> N \<Longrightarrow> in_scope n N c (eff_update_ns m c)"
  by (auto simp: in_scope_def eff_update_ns_def)

text \<open>The write of a namespace.\<close>

lemma labels_written:
  assumes "backs L rl pe (WroteNs m x)" and "lawful (WroteNs m x, c, c')" and "lawful (pe, d, d')"
  shows "in_scope n (run_scope rl) c c'"
    "unstale (pe, d, d') (WroteNs m x, c, c') \<Longrightarrow> run_frame n (run_scope rl) c c'"
proof -
  from assms(1) obtain q y where q: "q \<in> set (listed rl)" and pe: "pe = ReadNs (NamespaceName q, NamespaceName q) (Inr y)"
    and m: "m = label_namespace y \<or> m = unlabel_namespace y" by (auto split: if_splits)
  have y: "NsName y = NamespaceName q" using assms(3) pe by simp
  have k: "NsName m \<in> run_scope rl" "labels_kept y m" using m y q by (auto simp: run_scope_def listed_def)
  show "in_scope n (run_scope rl) c c'"
    using assms(2) in_scope_update_ns[OF k(1)] run_frame_in_scope[OF run_frame_refl] by auto
  assume u: "unstale (pe, d, d') (WroteNs m x, c, c')"
  show "run_frame n (run_scope rl) c c'"
  proof (cases "c' = c")
    case False
    with assms(2) u pe have "only_touches {NsName m} c c'" using only_touches_update_ns[OF _ k(2)] by auto
    with k(1) show ?thesis using only_touches_mono by (blast intro: only_touches_Rls)
  qed simp
qed

text \<open>All other calls.\<close>

lemma pass_call_frame:
  assumes call: "pass_call L rl e" and law: "lawful (e, c, c')" and n: "rl_name rl = n"
    and prev: "blind e \<Longrightarrow> backs L rl pe e \<and> lawful (pe, d, d')" and "\<And>m x. e \<noteq> WroteNs m x"
  shows "run_frame n (run_scope rl) c c'"
proof -
  have rq: "run_frame n (run_scope rl) c c'" if "key_of q \<in> quota_key ` run_scope rl"
    "c' = eff_create_rq q c \<or> c' = eff_update_rq q c \<or> c' = eff_delete_rq q c" for q
    using that only_touches_rq[of q "run_scope rl" c] by (auto intro: only_touches_Rls)
  show ?thesis
  proof (cases e)
    case (CreatedRq q x)
    with call have "key_of q \<in> quota_key ` run_scope rl" by (auto simp: pass_call_def run_scope_def split: if_splits)
    with rq law CreatedRq show ?thesis by auto
  next
    case (WroteRq q x)
    with prev obtain p q0 where p: "p \<in> set (listed rl)" "pe = ReadRq (quota_key (NamespaceName p)) (Inr q0)"
      and h: "setHard L (q0\<lparr>Hard := []\<rparr>) p = Inr q" by auto
    from setHard_only[OF h] prev WroteRq p have "key_of q \<in> quota_key ` run_scope rl"
      by (auto simp: run_scope_def listed_def)
    with rq law WroteRq show ?thesis by auto
  next
    case (DeletedRq q x)
    with prev have "key_of q \<in> quota_key ` run_scope rl" by (auto simp: run_scope_def listed_def)
    with rq law DeletedRq show ?thesis by auto
  next
    case (WroteStatus x y)
    with call have "x = rl\<lparr>Status := Status x\<rparr>" by (auto simp: pass_call_def split: if_splits)
    from arg_cong[OF this, of rl_name] n have "rl_name x = n" by simp
    with law WroteStatus show ?thesis using run_frame_status[of x] by auto
  next
    case (PatchedRl b x y)
    with call have "b = rl" "x = set_finalizers (filter (\<lambda>f. f \<noteq> DefaultFinalizer) (Finalizers (Meta rl))) rl"
      by (auto simp: pass_call_def split: if_splits)
    with law PatchedRl n show ?thesis using run_frame_patch[of x n] by (auto simp: set_finalizers_def)
  qed (use law assms(5) in auto)
qed

lemma opening_frame:
  assumes "opening_calls n s" and "e \<in> set s" and "lawful (e, c, c')"
    and "\<And>rl. ReadRl n (Inr rl) \<in> set s \<Longrightarrow> rl_name rl = n"
  shows "run_frame n N c c'"
proof (cases "\<exists>m a. e = ReadRl m a")
  case True
  with assms(3) show ?thesis by auto
next
  case False
  with assms(1,2) have "\<exists>rl b x y. ReadRl n (Inr rl) \<in> set s \<and> e = PatchedRl b x y \<and> x = with_ours rl \<and> (b = rl \<or> b = x)"
    unfolding opening_calls_def by (elim disjE exE conjE) auto
  then obtain rl b x y where "ReadRl n (Inr rl) \<in> set s" and e: "e = PatchedRl b x y"
    and x: "x = with_ours rl" "b = rl \<or> b = x" by blast
  with assms(4) have "rl_name x = n" by (simp add: with_ours_def set_finalizers_def)
  moreover have "x = set_finalizers (Finalizers (Meta x)) b" using x by (auto simp: with_ours_def set_finalizers_def)
  ultimately show ?thesis using assms(3) e run_frame_patch[of x n N c b] by auto
qed

lemma opening_not_backing:
  "opening_calls n s \<Longrightarrow> e \<in> set s \<Longrightarrow> blind d \<Longrightarrow> \<not> backs L rl e d"
  by (cases d) (auto simp: opening_calls_def)

lemma all_in_log:
  assumes "\<And>i. i < length t \<Longrightarrow> P (fst (snd (t ! i))) (snd (snd (t ! i)))"
  shows "\<forall>(e, c, c') \<in> set t. P c c'"
proof safe
  fix e c c' assume "(e, c, c') \<in> set t"
  then obtain i where "i < length t" "t ! i = (e, c, c')" by (auto simp: in_set_conv_nth)
  with assms[of i] show "P c c'" by simp
qed

text \<open>A log of lawful calls, of which the first part \<open>s\<close> reads the object.\<close>

definition lawful_log :: "string \<Rightarrow> 'q entry list \<Rightarrow> 'q event_log \<Rightarrow> bool" where
  "lawful_log n s t \<longleftrightarrow> list_all lawful t \<and> opening_calls n s \<and> (\<exists>p. map fst t = s @ p)"

lemma lawful_logD:
  assumes "lawful_log n s t"
  shows "i < length t \<Longrightarrow> lawful (t ! i)" "opening_calls n s" "i < length s \<Longrightarrow> i < length t \<and> fst (t ! i) \<in> set s"
proof -
  from assms obtain p where p: "map fst t = s @ p" by (auto simp: lawful_log_def)
  from assms show "i < length t \<Longrightarrow> lawful (t ! i)" "opening_calls n s"
    by (simp_all add: lawful_log_def list_all_length)
  show "i < length t \<and> fst (t ! i) \<in> set s" if "i < length s"
    using arg_cong[OF p, of length] arg_cong[OF p, of "\<lambda>l. l ! i"] that by (simp add: nth_append)
qed

lemma read_in_log:
  assumes "lawful_log n s t" and "ReadRl n (Inr rl) \<in> set s"
  shows "\<exists>c c'. (ReadRl n (Inr rl), c, c') \<in> set t \<and> Rls c n = Some rl \<and> rl_name rl = n"
proof -
  from assms(1) obtain p where p: "map fst t = s @ p" by (auto simp: lawful_log_def)
  have "fst ` set t = set s \<union> set p" using arg_cong[OF p, of set] by simp
  with assms(2) have "ReadRl n (Inr rl) \<in> fst ` set t" by simp
  then obtain l where "l \<in> set t" "fst l = ReadRl n (Inr rl)" by (metis imageE)
  then obtain c c' where m: "(ReadRl n (Inr rl), c, c') \<in> set t" by (metis prod.collapse)
  have "list_all lawful t" using assms(1) by (simp add: lawful_log_def)
  from bspec[OF this[unfolded list_all_iff] m] have "Rls c n = Some rl \<and> rl_name rl = n" by simp
  with m show ?thesis by blast
qed

lemma first_frame:
  assumes "lawful_log n s t" and "i < length s"
  shows "run_frame n N (fst (snd (t ! i))) (snd (snd (t ! i)))"
proof (rule opening_frame)
  show "opening_calls n s" "fst (t ! i) \<in> set s" using lawful_logD(2,3)[OF assms(1)] assms(2) by blast+
  show "lawful (fst (t ! i), fst (snd (t ! i)), snd (snd (t ! i)))" using lawful_logD(1,3)[OF assms(1)] assms(2) by simp
qed (use read_in_log[OF assms(1)] in blast)

lemma pass_frame:
  assumes log: "lawful_log n s t" and rl: "rl_name rl = n"
    and pass: "\<And>i. i < length t \<Longrightarrow> \<not> i < length s \<Longrightarrow> pass_call L rl (fst (t ! i))"
    and bk: "\<And>i. Suc i < length t \<Longrightarrow> backs L rl (fst (t ! i)) (fst (t ! Suc i))"
    and i: "i < length t" "\<not> i < length s"
  shows "in_scope n (run_scope rl) (fst (snd (t ! i))) (snd (snd (t ! i)))"
    "optimistic t \<Longrightarrow> run_frame n (run_scope rl) (fst (snd (t ! i))) (snd (snd (t ! i)))"
proof -
  note d = lawful_logD[OF log]
  have "s \<noteq> []" using d(2) by (auto simp: opening_calls_def)
  with i obtain j where j: "i = Suc j" by (cases i) auto
  let ?e = "fst (t ! i)" and ?c = "fst (snd (t ! i))" and ?c' = "snd (snd (t ! i))"
  let ?pe = "fst (t ! j)" and ?d = "fst (snd (t ! j))" and ?d' = "snd (snd (t ! j))"
  have law: "lawful (?e, ?c, ?c')" "lawful (?pe, ?d, ?d')" and b: "backs L rl ?pe ?e"
    using d(1)[OF i(1)] d(1)[of j] bk[of j] i j by simp_all
  have "in_scope n (run_scope rl) ?c ?c' \<and> (optimistic t \<longrightarrow> run_frame n (run_scope rl) ?c ?c')"
  proof (cases "\<exists>m x. ?e = WroteNs m x")
    case True
    then obtain m x where e: "?e = WroteNs m x" by blast
    have "unstale (?pe, ?d, ?d') (?e, ?c, ?c')" if "optimistic t"
      using that[unfolded optimistic_def, rule_format, of j] i(1) j by simp
    with labels_written[OF b[unfolded e] law(1)[unfolded e] law(2), of n] show ?thesis unfolding e by blast
  next
    case False
    then have "run_frame n (run_scope rl) ?c ?c'"
      by (intro pass_call_frame[OF pass[OF i] law(1) rl]) (use b law(2) in blast)+
    with run_frame_in_scope show ?thesis by blast
  qed
  then show "in_scope n (run_scope rl) ?c ?c'" "optimistic t \<Longrightarrow> run_frame n (run_scope rl) ?c ?c'" by blast+
qed

text \<open>The scope of a run: nothing, or what the object listed at some read of the run.\<close>

definition scope_of_log :: "string \<Rightarrow> 'q event_log \<Rightarrow> string set \<Rightarrow> bool" where
  "scope_of_log n t N \<longleftrightarrow> N = {} \<or> (\<exists>e c c' rl. (e, c, c') \<in> set t \<and> Rls c n = Some rl \<and> N = run_scope rl)"

lemma frame_of_log:
  assumes log: "lawful_log n s t" "map fst t = s @ p"
    and p: "p = [] \<or> (\<exists>rl. last s = ReadRl n (Inr rl) \<and> list_all (pass_call L rl) p \<and>
      (\<forall>i. Suc i < length t \<longrightarrow> backs L rl (fst (t ! i)) (fst (t ! Suc i))))"
  shows "\<exists>N. scope_of_log n t N \<and> (\<forall>(e, c, c') \<in> set t. in_scope n N c c') \<and>
    (optimistic t \<longrightarrow> (\<forall>(e, c, c') \<in> set t. run_frame n N c c'))"
proof (cases "p = []")
  case True
  then have "length t = length s" using arg_cong[OF log(2), of length] by simp
  then have "\<forall>(e, c, c') \<in> set t. run_frame n {} c c'" by (intro all_in_log first_frame[OF log(1)]) simp
  then show ?thesis using run_frame_in_scope by (intro exI[of _ "{}"]) (fastforce simp: scope_of_log_def)
next
  case False
  with p obtain rl where rl: "last s = ReadRl n (Inr rl)" "list_all (pass_call L rl) p"
    and bk: "\<And>i. Suc i < length t \<Longrightarrow> backs L rl (fst (t ! i)) (fst (t ! Suc i))" by blast
  have "s \<noteq> []" using lawful_logD(2)[OF log(1)] by (auto simp: opening_calls_def)
  from last_in_set[OF this] read_in_log[OF log(1), of rl] obtain c0 c1
    where r: "(ReadRl n (Inr rl), c0, c1) \<in> set t" "Rls c0 n = Some rl" "rl_name rl = n" unfolding rl(1) by blast
  have "pass_call L rl (fst (t ! i))" if "i < length t" "\<not> i < length s" for i
    using rl(2) that arg_cong[OF log(2), of length] arg_cong[OF log(2), of "\<lambda>l. l ! i"]
    by (simp add: list_all_length nth_append)
  note pf = pass_frame[OF log(1) r(3) this bk] and ff = first_frame[OF log(1)]
  have "\<forall>(e, c, c') \<in> set t. in_scope n (run_scope rl) c c'"
    by (intro all_in_log) (use pf(1) ff run_frame_in_scope in blast)
  moreover have "\<forall>(e, c, c') \<in> set t. run_frame n (run_scope rl) c c'" if "optimistic t"
    by (intro all_in_log) (use pf(2) ff that in blast)
  moreover have "scope_of_log n t (run_scope rl)" unfolding scope_of_log_def using r(1,2) by blast
  ultimately show ?thesis by blast
qed

context reconciler
begin

lemma frame_among_others:
  assumes run: "Reconcile (amid env abs C) L n (w, []) = (out, (w', t))"
  shows "\<exists>N. scope_of_log n t N \<and> (\<forall>(e, c, c') \<in> set t. in_scope n N c c') \<and>
    (optimistic t \<longrightarrow> (\<forall>(e, c, c') \<in> set t. run_frame n N c c'))"
proof -
  let ?h = "\<lambda>u :: 'w \<times> 'q event_log. (fst u, map fst (snd u))"
  have "Reconcile (logged (disturbed env C)) L n (?h (w, [])) = map_prod id ?h (Reconcile (amid env abs C) L n (w, []))"
    by (rule spec[OF mirrors_Reconcile[OF amid_logged, unfolded mirrors_def]])
  with run have l: "Reconcile (logged (disturbed env C)) L n (w, []) = (out, (w', map fst t))" by simp
  from Reconcile_backed[OF l] obtain s p where sp: "map fst t = s @ p" "opening_calls n s"
    "p = [] \<or> (\<exists>rl. last s = ReadRl n (Inr rl) \<and> list_all (pass_call L rl) p \<and>
      (\<forall>i. Suc i < length t \<longrightarrow> backs L rl (fst (t ! i)) (fst (t ! Suc i))))" by auto
  have "lawful_log n s t" using amid_lawful[OF run] sp(1,2) unfolding lawful_log_def by blast
  from frame_of_log[OF this sp(1,3)] show ?thesis .
qed

end

end
