(* ===== verification/Interference_Props.thy ===== *)
theory Interference_Props
  imports Interference Event_Loop_Props
begin

text \<open>The properties of the controller among other writers: users, and the controllers of the cluster.\<close>

section \<open>Others who write during a run\<close>

text \<open>C8: a run keeps to its scope whatever others do in the meantime. Before each call the others may change the
  cluster in any way. There is one set \<open>N\<close> of namespaces - none, or those the object listed at some moment of
  the run - such that every call of the run changes no other namespace than these, no other quota than theirs, no other
  object, and neither the spec nor the deletion timestamp of its own. That holds whether or not the API server refuses to
  overwrite a namespace that has changed since it was read; if it does, then moreover every call keeps everything of the
  namespaces but the two labels, so that no change of others to a namespace is lost.\<close>

theorem Reconcile_among_others:
  assumes "reconciler C view L" and "Reconcile (amid env view C) L n (w, []) = (out, (w', t))"
  shows "\<exists>N. (N = {} \<or> (\<exists>e c c' rl. (e, c, c') \<in> set t \<and> Rls c n = Some rl \<and> N = run_scope rl)) \<and>
    (\<forall>(e, c, c') \<in> set t. in_scope n N c c') \<and>
    (optimistic t \<longrightarrow> (\<forall>(e, c, c') \<in> set t. run_frame n N c c'))"
  by (rule reconciler.frame_among_others[OF assms, unfolded scope_of_log_def])

text \<open>Someone else labels the namespace \<open>default\<close> while the run goes on.\<close>

definition ex_env :: "string cluster \<Rightarrow> string cluster" where
  "ex_env c = (case Nss c ''default'' of None \<Rightarrow> c
     | Some x \<Rightarrow> c\<lparr>Nss := (Nss c)(''default'' \<mapsto> x\<lparr>Labels := AList.update ''team'' ''b'' (Labels x)\<rparr>)\<rparr>)"

definition ex_among :: "outcome \<times> (string cluster \<times> string event_log)" where
  "ex_among = Reconcile (amid ex_env proper mem_client) mem_lib ''rl'' (ex_cluster ex_rl, [])"

fun fresh :: "'q entry \<times> 'q cluster \<times> 'q cluster \<Rightarrow> 'q entry \<times> 'q cluster \<times> 'q cluster \<Rightarrow> bool" where
  "fresh (ReadNs k (Inr x), d, d') (WroteNs m e, c, c') \<longleftrightarrow> Nss c (NsName m) = Some x"
| "fresh _ _ \<longleftrightarrow> True"

lemma fresh_unstale: "fresh p q \<Longrightarrow> unstale p q"
  by (cases "(p, q)" rule: fresh.cases) auto

lemma fresh_optimistic:
  assumes "list_all (\<lambda>(p, q). fresh p q) (zip t (tl t))"
  shows "optimistic t"
proof -
  have "fresh (t ! i) (t ! Suc i)" if "Suc i < length t" for i
    using assms that by (auto simp: list_all_length nth_tl)
  then show ?thesis by (simp add: optimistic_def fresh_unstale)
qed

theorem Reconcile_among_others_witness:
  "\<exists>out w' t. Reconcile (amid ex_env proper mem_client) mem_lib ''rl'' (ex_cluster ex_rl, []) = (out, (w', t)) \<and>
     length t = 7 \<and> map_option (\<lambda>x. map_of (Labels x) ''team'') (Nss (proper w') ''default'') = Some (Some ''b'') \<and>
     (\<forall>(e, c, c') \<in> set t. rel_option labels_kept (Nss c ''default'') (Nss c' ''default''))"
proof -
  obtain out w' t where r: "ex_among = (out, (w', t))" by (metis prod.exhaust)
  have "length (snd (snd ex_among)) = 7" by code_simp
  moreover have "map_option (\<lambda>x. map_of (Labels x) ''team'') (Nss (proper (fst (snd ex_among))) ''default'') = Some (Some ''b'')"
    by code_simp
  moreover have "list_all (\<lambda>(p, q). fresh p q) (zip (snd (snd ex_among)) (tl (snd (snd ex_among))))" by code_simp
  ultimately have t: "length t = 7" "optimistic t"
    "map_option (\<lambda>x. map_of (Labels x) ''team'') (Nss (proper w') ''default'') = Some (Some ''b'')"
    unfolding r by (simp_all add: fresh_optimistic)
  note run = r[unfolded ex_among_def]
  from Reconcile_among_others[OF memr.reconciler_axioms run] t(2) obtain N
    where "\<forall>(e, c, c') \<in> set t. run_frame ''rl'' N c c'" by (elim exE conjE impE)
  then have "\<forall>(e, c, c') \<in> set t. rel_option labels_kept (Nss c ''default'') (Nss c' ''default'')"
    by (auto simp: run_frame_def only_touches_def)
  with run t show ?thesis by (intro exI[of _ out] exI[of _ w'] exI[of _ t] conjI)
qed

section \<open>Others who write between runs\<close>







end
