(* ===== verification/Outside_Changes.thy ===== *)
theory Outside_Changes
  imports Many_Limiters_Props Interference_Props
begin

text \<open>
  The controller among users who go on writing between its runs: they create objects, change what objects ask
  for, change and delete quotas. Their changes go through the same watches and the same filter as the controller's
  own. Whenever they pause, the controller finishes what they have left to do.
\<close>

section \<open>Turns of the controller and of others\<close>










section \<open>The property\<close>



end
