(* ===== verification/Validate_Ends.thy ===== *)
theory Validate_Ends
  imports Validate_Race
begin

text \<open>
  Where the race of the validating handlers does no harm. As long as no request makes a handler panic, every
  handler finds the error variable empty once it has reset it, whatever was left there before, and all of them
  are answered as if each were alone.
\<close>

text \<open>\<open>steps s is s'\<close>: the handlers \<open>is\<close> make one step each, in this order.\<close>

inductive steps :: "'q wire \<Rightarrow> 'q lib \<Rightarrow> (nat \<Rightarrow> AdmissionReview) \<Rightarrow> race \<Rightarrow> nat list \<Rightarrow> race \<Rightarrow> bool"
  for D L ars s where
  none: "steps D L ars s [] s"
| more: "steps D L ars s is s1 \<Longrightarrow> race_step D L ars i s1 s2 \<Longrightarrow> steps D L ars s (is @ [i]) s2"

text \<open>What a handler has done so far when nobody panics, and how many steps it has left.\<close>

fun calm :: "string + AdmissionResponse \<Rightarrow> place \<Rightarrow> bool" where
  "calm v (Returned r) \<longleftrightarrow> (\<exists>x. r = Some x \<and> v = Inr x)"
| "calm v (Answered r) \<longleftrightarrow> (\<exists>x. r = Some x \<and> v = Inr x)"
| "calm v Reading \<longleftrightarrow> False"
| "calm v Crashed \<longleftrightarrow> False"
| "calm v p \<longleftrightarrow> True"

fun steps_left :: "place \<Rightarrow> nat" where
  "steps_left Waiting = 3"
| "steps_left Running = 2"
| "steps_left (Returned r) = 1"
| "steps_left p = 0"

text \<open>The first step of any handler empties the error variable, and nobody fills it again.\<close>

definition untouched :: "race \<Rightarrow> bool" where
  "untouched s \<longleftrightarrow> resFormErr s = None \<or> (\<forall>i. At s i = Waiting)"

lemma calm_step:
  assumes "race_step D L ars i s s'" and "\<And>m. validate_body D L (ars i) \<noteq> Inl m"
    and "calm (validate_body D L (ars i)) (At s i)" and "untouched s"
  shows "calm (validate_body D L (ars i)) (At s' i) \<and> resFormErr s' = None \<and>
    Suc (steps_left (At s' i)) = steps_left (At s i) \<and> (\<forall>j. j \<noteq> i \<longrightarrow> At s' j = At s j)"
proof -
  have "resFormErr s = None" if "At s i \<noteq> Waiting" using assms(4) that by (auto simp: untouched_def)
  with assms(1-3) show ?thesis by (auto elim!: race_stepE)
qed

lemma calm_steps:
  assumes "steps D L ars s is s'" and "\<And>i. At s i = Waiting" and "set is \<subseteq> {..<N}"
    and "\<And>i m. i < N \<Longrightarrow> validate_body D L (ars i) \<noteq> Inl m"
  shows "untouched s' \<and> (\<forall>i. calm (validate_body D L (ars i)) (At s' i) \<and> count_list is i + steps_left (At s' i) = 3)"
  using assms(1,3)
proof (induction rule: steps.induct)
  case none
  then show ?case by (simp add: assms(2) untouched_def)
next
  case (more is' s1 j s2)
  then have IH: "untouched s1" "\<And>i. calm (validate_body D L (ars i)) (At s1 i)"
    "\<And>i. count_list is' i + steps_left (At s1 i) = 3" and j: "j < N" by auto
  from calm_step[OF more.hyps(2) assms(4)[OF j] IH(2,1)]
  have 1: "calm (validate_body D L (ars j)) (At s2 j)" "resFormErr s2 = None"
    "Suc (steps_left (At s2 j)) = steps_left (At s1 j)" "\<And>i. i \<noteq> j \<Longrightarrow> At s2 i = At s1 i" by blast+
  have "calm (validate_body D L (ars i)) (At s2 i) \<and> count_list (is' @ [j]) i + steps_left (At s2 i) = 3" for i
    using 1 IH(2,3)[of i] by (cases "i = j") auto
  with 1(2) show ?case unfolding untouched_def by blast
qed

lemma calm_end:
  assumes "calm (validate_body D L (ars i)) (At s i)" and "untouched s" and "\<nexists>s'. race_step D L ars i s s'"
  shows "\<exists>r. At s i = Answered (Some r) \<and> validate_body D L (ars i) = Inr r"
proof (cases "At s i")
  case Running
  with assms(3) show ?thesis by (cases "validate_body D L (ars i)") (blast intro: race_step.intros)+
next
  case (Returned r)
  with assms(2) have "resFormErr s = None" by (auto simp: untouched_def)
  with Returned assms(3) show ?thesis by (blast intro: race_step.check_nil)
qed (use assms in \<open>auto intro: race_step.intros\<close>)

text \<open>C18: requests that make no handler panic do not disturb each other. Let \<open>N\<close> of them arrive, with anything left over in the
  shared error variable. In every interleaving all handlers are through after at most \<open>3 * N\<close> accesses to it, none of them
  ever crashes, and a handler that has come to its end has sent the answer of the sequential handler.\<close>

theorem race_without_panics:
  assumes "\<And>i. At s i = Waiting" and "steps D L ars s is s'" and "set is \<subseteq> {..<N}"
    and "\<And>i m. i < N \<Longrightarrow> validate_body D L (ars i) \<noteq> Inl m"
  shows "length is \<le> 3 * N \<and> (\<forall>i < N. At s' i \<noteq> Crashed \<and> ((\<nexists>s''. race_step D L ars i s' s'') \<longrightarrow>
    At s' i = Answered (override (snd (validate D L (ars i) e)) (fst (validate D L (ars i) e)))))"
proof (intro conjI allI impI)
  from calm_steps[OF assms(2,1,3,4)] have c: "untouched s'" "\<And>i. calm (validate_body D L (ars i)) (At s' i)"
    "\<And>i. count_list is i + steps_left (At s' i) = 3" by auto
  have "length is = sum (count_list is) {..<N}" using sum_count_set[OF assms(3)] by simp
  also have "\<dots> \<le> (\<Sum>i<N. 3)" by (rule sum_mono) (metis c(3) le_add1)
  finally show "length is \<le> 3 * N" by simp
  show "At s' i \<noteq> Crashed" for i using c(2)[of i] by auto
  show "At s' i = Answered (override (snd (validate D L (ars i) e)) (fst (validate D L (ars i) e)))"
    if "\<nexists>s''. race_step D L ars i s' s''" for i
    using calm_end[OF c(2,1) that] by (auto simp: validate_def override_def)
qed

text \<open>Two requests in lock-step, after an earlier one has left its error behind: both get the verdict of their own.\<close>

lemma next_step: "steps_left (At s i) \<noteq> 0 \<Longrightarrow> race_step D L ars i s (next_state D L ars i s)"
  by (cases "At s i") (auto split: sum.splits option.splits intro: race_step.intros)

definition ex_calm :: "nat \<Rightarrow> AdmissionReview" where
  "ex_calm i = (if i = 0 then review ''Service'' ''v1'' None else review ''ResourceLimiter'' ''v1beta2'' None)"

definition ex_stale :: race where
  "ex_stale = \<lparr>resFormErr = Some ''MustParse failed due to quantity'', At = \<lambda>_. Waiting\<rparr>"

definition ex_end :: race where
  "ex_end = foldl (\<lambda>s i. next_state mem_wire mem_lib ex_calm i s) ex_stale [0, 1, 0, 1, 0, 1]"

lemma calm_0: "validate_body mem_wire mem_lib (ex_calm 0) = Inr (allowed ''Validate rl of Service OK'')"
  by (simp add: ex_calm_def validate_body_def validate_switch_def review_def)

lemma calm_1: "\<exists>m. validate_body mem_wire mem_lib (ex_calm (Suc i)) = Inr (denied m)"
  by (rule exI[of _ "unmarshal_error mem_wire None"])
    (simp add: ex_calm_def validate_body_def validate_switch_def review_def validate_v1beta2_def unmarshal_rl_def)

lemma ex_steps: "steps mem_wire mem_lib ex_calm ex_stale [0, 1, 0, 1, 0, 1] ex_end"
proof -
  obtain m where m: "validate_body mem_wire mem_lib (ex_calm (Suc 0)) = Inr (denied m)" using calm_1 by blast
  let ?n = "\<lambda>i s. next_state mem_wire mem_lib ex_calm i s"
  note r = steps.more[OF _ next_step, of mem_wire mem_lib ex_calm ex_stale]
  have "steps mem_wire mem_lib ex_calm ex_stale (((((([] @ [0]) @ [1]) @ [0]) @ [1]) @ [0]) @ [1])
      (?n 1 (?n 0 (?n 1 (?n 0 (?n 1 (?n 0 ex_stale))))))"
    by (rule r[OF r[OF r[OF r[OF r[OF r[OF steps.none]]]]]]) (simp_all add: ex_stale_def calm_0 m)
  then show ?thesis by (simp add: ex_end_def del: next_state.simps)
qed

lemma ex_end_stuck:
  assumes "i < 2"
  shows "\<nexists>s. race_step mem_wire mem_lib ex_calm i ex_end s"
proof -
  obtain m where m: "validate_body mem_wire mem_lib (ex_calm (Suc 0)) = Inr (denied m)" using calm_1 by blast
  from assms have "i = 0 \<or> i = Suc 0" by auto
  then have "\<exists>r. At ex_end i = Answered r" by (auto simp: ex_end_def ex_stale_def calm_0 m)
  then show ?thesis by (auto elim: race_stepE)
qed

theorem race_without_panics_witness:
  "\<exists>s. steps mem_wire mem_lib ex_calm ex_stale [0, 1, 0, 1, 0, 1] s \<and> (\<exists>m. At s 1 = Answered (Some (denied m))) \<and>
     At s 0 = Answered (Some (allowed ''Validate rl of Service OK''))"
proof -
  obtain m where m: "validate_body mem_wire mem_lib (ex_calm (Suc 0)) = Inr (denied m)" using calm_1 by blast
  have w: "At ex_stale i = Waiting" for i by (simp add: ex_stale_def)
  have "validate_body mem_wire mem_lib (ex_calm i) \<noteq> Inl x" for i x
    using calm_0 calm_1[of "i - 1"] by (cases i) auto
  note c = race_without_panics[OF w ex_steps _ this, of 2 None, THEN conjunct2, rule_format, THEN conjunct2, THEN mp, OF _ _ ex_end_stuck]
  have "At ex_end 0 = Answered (Some (allowed ''Validate rl of Service OK''))" "At ex_end 1 = Answered (Some (denied m))"
    using c[of 0] c[of "Suc 0"] by (simp_all add: validate_def override_def calm_0 m)
  with ex_steps show ?thesis by blast
qed

end
