(* ===== verification/Go_Heap.thy ===== *)
theory Go_Heap
  imports Prelude
begin

text \<open>
  Memory, as far as the generated copy functions use it. An address leads to a cell; what cells there
  are is left to the program that uses the heap. A slice points into an array cell, a map variable
  and a pointer are addresses, and \<open>None\<close> is \<open>nil\<close>. Allocation takes the next address. The builtins
  \<open>new\<close>, \<open>make\<close>, \<open>copy\<close> and the range loop over a map are defined once for all kinds of cells; a kind
  is the pair of its constructor and its selector (contract \<open>cell_kind\<close>).
\<close>

section \<open>Heaps\<close>

record 'k heap =
  Limit :: nat
  Cells :: "nat \<rightharpoonup> 'k"

record slice =
  Arr :: nat
  Off :: nat
  Len :: nat

definition sound :: "'k heap \<Rightarrow> bool" where
  "sound h \<longleftrightarrow> (\<forall>a. Cells h a \<noteq> None \<longrightarrow> a < Limit h)"

definition extends :: "'k heap \<Rightarrow> 'k heap \<Rightarrow> bool" where
  "extends h h' \<longleftrightarrow> Limit h \<le> Limit h' \<and> (\<forall>a < Limit h. Cells h' a = Cells h a)"

definition alloc :: "'k \<Rightarrow> 'k heap \<Rightarrow> nat \<times> 'k heap" where
  "alloc c h = (Limit h, \<lparr>Limit = Suc (Limit h), Cells = (Cells h)(Limit h \<mapsto> c)\<rparr>)"

definition store :: "nat \<Rightarrow> 'k \<Rightarrow> 'k heap \<Rightarrow> 'k heap" where
  "store a c h = h\<lparr>Cells := (Cells h)(a \<mapsto> c)\<rparr>"

definition fetch :: "('k \<Rightarrow> 'x option) \<Rightarrow> 'k heap \<Rightarrow> nat \<Rightarrow> 'x option" where
  "fetch get h a = (case Cells h a of None \<Rightarrow> None | Some c \<Rightarrow> get c)"

lemma store_sel [simp]: "Limit (store a c h) = Limit h" "Cells (store a c h) = (Cells h)(a \<mapsto> c)"
  by (simp_all add: store_def)

lemma extends_refl [simp]: "extends h h"
  by (simp add: extends_def)

lemma extends_trans: "extends h h1 \<Longrightarrow> extends h1 h2 \<Longrightarrow> extends h h2"
  by (auto simp: extends_def)

lemma extends_store: "extends h h1 \<Longrightarrow> Limit h \<le> a \<Longrightarrow> extends h (store a c h1)"
  by (auto simp: extends_def)

lemma sound_store: "sound h \<Longrightarrow> a < Limit h \<Longrightarrow> sound (store a c h)"
  by (auto simp: sound_def)

lemma allocD:
  assumes "alloc c h = (a, h')"
  shows "a = Limit h" "Limit h' = Suc (Limit h)" "Cells h' = (Cells h)(Limit h \<mapsto> c)" "extends h h'"
    "sound h \<Longrightarrow> sound h'"
  using assms by (auto simp: alloc_def extends_def sound_def less_Suc_eq split: if_splits)

lemma fetch_cong: "Cells h' a = Cells h a \<Longrightarrow> fetch get h' a = fetch get h a"
  by (simp add: fetch_def)

lemma fetch_live: "sound h \<Longrightarrow> fetch get h a = Some x \<Longrightarrow> a < Limit h"
  by (auto simp: fetch_def sound_def split: option.splits)

section \<open>Builtins on arrays and maps\<close>

definition array_at :: "('k \<Rightarrow> 'x list option) \<Rightarrow> 'k heap \<Rightarrow> nat \<Rightarrow> 'x list" where
  "array_at get h a = (case fetch get h a of None \<Rightarrow> [] | Some xs \<Rightarrow> xs)"

definition elems :: "('k \<Rightarrow> 'x list option) \<Rightarrow> 'k heap \<Rightarrow> slice \<Rightarrow> 'x list" where
  "elems get h s = take (Len s) (drop (Off s) (array_at get h (Arr s)))"

definition make_slice :: "('x list \<Rightarrow> 'k) \<Rightarrow> 'x \<Rightarrow> nat \<Rightarrow> 'k heap \<Rightarrow> slice \<times> 'k heap" where
  "make_slice mk zero n h =
     (case alloc (mk (replicate n zero)) h of (a, h1) \<Rightarrow> (\<lparr>Arr = a, Off = 0, Len = n\<rparr>, h1))"

definition set_elem ::
  "('x list \<Rightarrow> 'k) \<Rightarrow> ('k \<Rightarrow> 'x list option) \<Rightarrow> slice \<Rightarrow> nat \<Rightarrow> 'x \<Rightarrow> 'k heap \<Rightarrow> 'k heap" where
  "set_elem mk get s i x h = store (Arr s) (mk ((array_at get h (Arr s))[Off s + i := x])) h"

text \<open>\<open>copy(dst, src)\<close>: as many elements as the shorter slice has.\<close>

definition copy_elems ::
  "('x list \<Rightarrow> 'k) \<Rightarrow> ('k \<Rightarrow> 'x list option) \<Rightarrow> slice \<Rightarrow> slice \<Rightarrow> 'k heap \<Rightarrow> 'k heap" where
  "copy_elems mk get dst src h =
     (let xs = take (Len dst) (elems get h src); ys = array_at get h (Arr dst)
      in store (Arr dst) (mk (take (Off dst) ys @ xs @ drop (Off dst + length xs) ys)) h)"

text \<open>\<open>for key, val := range *in { (*out)[key] = val }\<close>\<close>

definition put_entry ::
  "(('a, 'b) gomap \<Rightarrow> 'k) \<Rightarrow> ('k \<Rightarrow> ('a, 'b) gomap option) \<Rightarrow> nat \<Rightarrow> 'a \<times> 'b \<Rightarrow> 'k heap \<Rightarrow> 'k heap" where
  "put_entry mk get a e h = store a (mk (AList.update (fst e) (snd e) (array_at get h a))) h"

definition copy_entries ::
  "(('a, 'b) gomap \<Rightarrow> 'k) \<Rightarrow> ('k \<Rightarrow> ('a, 'b) gomap option) \<Rightarrow> nat \<Rightarrow> ('a, 'b) gomap \<Rightarrow> 'k heap \<Rightarrow> 'k heap" where
  "copy_entries mk get a es h = fold (put_entry mk get a) es h"

text \<open>The three patterns for a field of a struct, each guarded by \<open>if in.F != nil\<close>.\<close>

definition copy_slice_field ::
  "('x list \<Rightarrow> 'k) \<Rightarrow> ('k \<Rightarrow> 'x list option) \<Rightarrow> 'x \<Rightarrow> slice option \<Rightarrow> 'k heap \<Rightarrow> slice option \<times> 'k heap" where
  "copy_slice_field mk get zero f h =
     (case f of None \<Rightarrow> (f, h)
      | Some s \<Rightarrow> (case make_slice mk zero (Len s) h of (t, h1) \<Rightarrow> (Some t, copy_elems mk get t s h1)))"

definition copy_map_field ::
  "(('a, 'b) gomap \<Rightarrow> 'k) \<Rightarrow> ('k \<Rightarrow> ('a, 'b) gomap option) \<Rightarrow> nat option \<Rightarrow> 'k heap \<Rightarrow> nat option \<times> 'k heap" where
  "copy_map_field mk get f h =
     (case f of None \<Rightarrow> (f, h)
      | Some m \<Rightarrow> (case alloc (mk []) h of (a, h1) \<Rightarrow> (Some a, copy_entries mk get a (array_at get h1 m) h1)))"

text \<open>\<open>for i := range *in { (*in)[i].DeepCopyInto(&(*out)[i]) }\<close>\<close>

fun copy_items ::
  "('x list \<Rightarrow> 'k) \<Rightarrow> ('k \<Rightarrow> 'x list option) \<Rightarrow> ('x \<Rightarrow> 'k heap \<Rightarrow> 'x \<times> 'k heap) \<Rightarrow> slice \<Rightarrow> slice \<Rightarrow>
     nat list \<Rightarrow> 'k heap \<Rightarrow> 'k heap" where
  "copy_items mk get copy s t [] h = h"
| "copy_items mk get copy s t (i # is) h =
     (case copy (elems get h s ! i) h of (x, h1) \<Rightarrow> copy_items mk get copy s t is (set_elem mk get t i x h1))"

definition copy_items_field ::
  "('x list \<Rightarrow> 'k) \<Rightarrow> ('k \<Rightarrow> 'x list option) \<Rightarrow> 'x \<Rightarrow> ('x \<Rightarrow> 'k heap \<Rightarrow> 'x \<times> 'k heap) \<Rightarrow>
     slice option \<Rightarrow> 'k heap \<Rightarrow> slice option \<times> 'k heap" where
  "copy_items_field mk get zero copy f h =
     (case f of None \<Rightarrow> (f, h)
      | Some s \<Rightarrow> (case make_slice mk zero (Len s) h of (t, h1) \<Rightarrow>
          (Some t, copy_items mk get copy s t [0..<Len s] h1)))"

text \<open>The method \<open>DeepCopy\<close>: \<open>new\<close>, then \<open>DeepCopyInto\<close>.\<close>

definition new_copy ::
  "('x \<Rightarrow> 'k) \<Rightarrow> ('k \<Rightarrow> 'x option) \<Rightarrow> 'x \<Rightarrow> ('x \<Rightarrow> 'k heap \<Rightarrow> 'x \<times> 'k heap) \<Rightarrow>
     nat option \<Rightarrow> 'k heap \<Rightarrow> nat option \<times> 'k heap" where
  "new_copy mk get zero copy p h =
     (case p of None \<Rightarrow> (None, h)
      | Some a \<Rightarrow> (case alloc (mk zero) h of (b, h1) \<Rightarrow>
          (case copy (case fetch get h1 a of None \<Rightarrow> zero | Some x \<Rightarrow> x) h1 of (x', h2) \<Rightarrow>
             (Some b, store b (mk x') h2))))"

end
