(* ===== verification/Go_Copies.thy ===== *)
theory Go_Copies
  imports Go_Heap
begin

text \<open>
  The contract \<open>copying\<close> of a deep copy: seen as a value the copy is the original, everything that was
  there is left alone, and all the copy reaches is new. \<open>view\<close> is the value a term denotes in a
  heap (\<open>None\<close>: it dangles or leads to a cell of another kind), \<open>foot\<close> the addresses it reaches. The
  lemmas build copies of slices, maps, structs and pointers from copies of their parts, and draw
  the consequence that neither side sees a change of the other.
\<close>

section \<open>What a deep copy promises\<close>

locale cell_kind =
  fixes mk :: "'x \<Rightarrow> 'k" and get :: "'k \<Rightarrow> 'x option"
  assumes get_mk: "get (mk x) = Some x"
begin

lemma fetch_store [simp]: "fetch get (store a (mk x) h) b = (if b = a then Some x else fetch get h b)"
  by (simp add: fetch_def get_mk)

lemma fetch_alloc: "alloc (mk x) h = (a, h') \<Longrightarrow> fetch get h' a = Some x"
  using allocD(1,3)[of "mk x" h a h'] by (simp add: fetch_def get_mk)

end

locale copying =
  fixes copy :: "'x \<Rightarrow> 'k heap \<Rightarrow> 'x \<times> 'k heap"
    and view :: "'k heap \<Rightarrow> 'x \<Rightarrow> 'v option"
    and foot :: "'k heap \<Rightarrow> 'x \<Rightarrow> nat set"
  assumes view_frame: "view h x = Some v \<Longrightarrow> (\<And>a. a \<in> foot h x \<Longrightarrow> Cells h' a = Cells h a) \<Longrightarrow>
      view h' x = Some v \<and> foot h' x = foot h x"
    and foot_live: "sound h \<Longrightarrow> view h x = Some v \<Longrightarrow> foot h x \<subseteq> {..<Limit h}"
    and copy_ok: "sound h \<Longrightarrow> view h x = Some v \<Longrightarrow> copy x h = (x', h') \<Longrightarrow>
      sound h' \<and> extends h h' \<and> view h' x' = Some v \<and> foot h' x' \<subseteq> {Limit h..<Limit h'}"
begin

lemma kept:
  assumes "sound h" and "view h x = Some v" and "extends h h'"
  shows "view h' x = Some v \<and> foot h' x = foot h x"
  using assms(2)
proof (rule view_frame)
  fix a assume "a \<in> foot h x"
  with foot_live[OF assms(1,2)] assms(3) show "Cells h' a = Cells h a" by (auto simp: extends_def)
qed

end

section \<open>Copies of slices and maps\<close>

definition view_slice ::
  "('k \<Rightarrow> 'x list option) \<Rightarrow> ('k heap \<Rightarrow> 'x \<Rightarrow> 'v option) \<Rightarrow> 'k heap \<Rightarrow> slice option \<Rightarrow> 'v list option option" where
  "view_slice get view h f =
     (case f of None \<Rightarrow> Some None
      | Some s \<Rightarrow> (case fetch get h (Arr s) of None \<Rightarrow> None
          | Some xs \<Rightarrow> if Off s + Len s \<le> length xs
              then map_option Some (those (map (view h) (take (Len s) (drop (Off s) xs)))) else None))"

definition foot_slice ::
  "('k \<Rightarrow> 'x list option) \<Rightarrow> ('k heap \<Rightarrow> 'x \<Rightarrow> nat set) \<Rightarrow> 'k heap \<Rightarrow> slice option \<Rightarrow> nat set" where
  "foot_slice get foot h f =
     (case f of None \<Rightarrow> {} | Some s \<Rightarrow> insert (Arr s) (\<Union>x \<in> set (elems get h s). foot h x))"

definition view_map :: "('k \<Rightarrow> ('a, 'b) gomap option) \<Rightarrow> 'k heap \<Rightarrow> nat option \<Rightarrow> ('a \<rightharpoonup> 'b) option option" where
  "view_map get h f =
     (case f of None \<Rightarrow> Some None
      | Some a \<Rightarrow> (case fetch get h a of None \<Rightarrow> None
          | Some m \<Rightarrow> if distinct (map fst m) then Some (Some (map_of m)) else None))"

definition foot_map :: "'k heap \<Rightarrow> nat option \<Rightarrow> nat set" where
  "foot_map h f = set_option f"

lemma those_Some: "those (map f xs) = Some vs \<longleftrightarrow> map f xs = map Some vs"
  by (induction xs arbitrary: vs) (auto split: option.splits)

lemma those_all: "those (map Some xs) = Some xs"
  by (induction xs) auto

lemma view_slice_None [simp]: "view_slice get view h None = Some None"
  by (simp add: view_slice_def)

lemma view_slice_Some: "view_slice get view h (Some s) = Some v \<longleftrightarrow>
    (\<exists>xs vs. fetch get h (Arr s) = Some xs \<and> Off s + Len s \<le> length xs \<and> v = Some vs \<and>
       map (view h) (elems get h s) = map Some vs)"
  by (auto simp: view_slice_def those_Some elems_def array_at_def split: option.splits if_splits)

lemma elems_length: "fetch get h (Arr s) = Some xs \<Longrightarrow> Off s + Len s \<le> length xs \<Longrightarrow> length (elems get h s) = Len s"
  by (simp add: elems_def array_at_def)

lemma elems_cong: "Cells h' (Arr s) = Cells h (Arr s) \<Longrightarrow> elems get h' s = elems get h s"
  by (simp add: elems_def array_at_def fetch_def)

lemma elems_fetch: "fetch get h (Arr s) = Some xs \<Longrightarrow> elems get h s = take (Len s) (drop (Off s) xs)"
  by (simp add: elems_def array_at_def)

lemma map_view_nth:
  "map f xs = map Some vs \<longleftrightarrow> length xs = length vs \<and> (\<forall>i < length vs. f (xs ! i) = Some (vs ! i))"
  by (auto simp: list_eq_iff_nth_eq)

lemma make_sliceD:
  assumes "make_slice mk zero n h = (t, h1)"
  shows "t = \<lparr>Arr = Limit h, Off = 0, Len = n\<rparr>" "alloc (mk (replicate n zero)) h = (Limit h, h1)"
  using assms allocD(1)[of "mk (replicate n zero)" h "fst (alloc (mk (replicate n zero)) h)"]
  by (auto simp: make_slice_def split: prod.splits)

text \<open>Slices whose elements hold no references, copied by \<open>copy\<close>.\<close>

abbreviation view_flat :: "('k \<Rightarrow> 'x list option) \<Rightarrow> 'k heap \<Rightarrow> slice option \<Rightarrow> 'x list option option" where
  "view_flat get \<equiv> view_slice get (\<lambda>_. Some)"

abbreviation foot_flat :: "('k \<Rightarrow> 'x list option) \<Rightarrow> 'k heap \<Rightarrow> slice option \<Rightarrow> nat set" where
  "foot_flat get \<equiv> foot_slice get (\<lambda>_ _. {})"

locale array_kind = cell_kind mk get
  for mk :: "'x list \<Rightarrow> 'k" and get :: "'k \<Rightarrow> 'x list option"
begin

lemma array_at_store [simp]: "array_at get (store a (mk xs) h) b = (if b = a then xs else array_at get h b)"
  by (simp add: array_at_def)

lemma copying_flat: "copying (copy_slice_field mk get zero) (view_flat get) (foot_flat get)"
proof
  fix h :: "'k heap" and f v and h' :: "'k heap"
  assume v: "view_flat get h f = Some v" and same: "\<And>a. a \<in> foot_flat get h f \<Longrightarrow> Cells h' a = Cells h a"
  show "view_flat get h' f = Some v \<and> foot_flat get h' f = foot_flat get h f"
  proof (cases f)
    case None
    with v show ?thesis by (simp add: foot_slice_def)
  next
    case (Some s)
    with same have "Cells h' (Arr s) = Cells h (Arr s)" by (simp add: foot_slice_def)
    with v Some fetch_cong[OF this, of get] elems_cong[OF this, of get] show ?thesis
      by (simp add: view_slice_Some foot_slice_def)
  qed
next
  fix h :: "'k heap" and f v
  assume "sound h" "view_flat get h f = Some v"
  then show "foot_flat get h f \<subseteq> {..<Limit h}"
    by (cases f) (auto simp: foot_slice_def view_slice_Some dest: fetch_live)
next
  fix h :: "'k heap" and f v f' h'
  assume sound: "sound h" and v: "view_flat get h f = Some v" and c: "copy_slice_field mk get zero f h = (f', h')"
  show "sound h' \<and> extends h h' \<and> view_flat get h' f' = Some v \<and> foot_flat get h' f' \<subseteq> {Limit h..<Limit h'}"
  proof (cases f)
    case None
    with v c sound show ?thesis by (simp add: copy_slice_field_def foot_slice_def)
  next
    case (Some s)
    obtain t h1 where m: "make_slice mk zero (Len s) h = (t, h1)" by (cases "make_slice mk zero (Len s) h")
    note t = make_sliceD[OF m] and al = allocD[OF make_sliceD(2)[OF m]]
    from v Some obtain xs where x: "fetch get h (Arr s) = Some xs" "Off s + Len s \<le> length xs"
      "v = Some (elems get h s)" by (auto simp: view_slice_Some)
    have l: "Arr s < Limit h" using fetch_live[OF sound x(1)] .
    then have e: "elems get h1 s = elems get h s" using al(3) by (intro elems_cong) simp
    have len: "length (elems get h s) = Len s" using elems_length x by blast
    have at: "array_at get h1 (Limit h) = replicate (Len s) zero"
      using fetch_alloc[OF t(2)] by (simp add: array_at_def)
    have h': "f' = Some t" "h' = store (Limit h) (mk (elems get h s)) h1"
      using c Some m t(1) e len at by (simp_all add: copy_slice_field_def copy_elems_def Let_def)
    have "elems get h' t = elems get h s" using h' t(1) len by (simp add: elems_def)
    moreover have "fetch get h' (Limit h) = Some (elems get h s)" using h' by simp
    ultimately show ?thesis
      using h' al x(3) sound t(1) len by (auto simp: foot_slice_def view_slice_Some sound_store extends_store)
  qed
qed

end

text \<open>Maps: the keys of a map cell are distinct, and the order of its entries is not seen.\<close>

lemma update_entries:
  "distinct (map fst es) \<Longrightarrow> map_of (fold (\<lambda>e. AList.update (fst e) (snd e)) es m) = map_of m ++ map_of es"
proof (induction es arbitrary: m)
  case (Cons e es)
  then have "map_of es (fst e) = None" by (auto simp: map_of_eq_None_iff)
  then have "(map_of m)(fst e \<mapsto> snd e) ++ map_of es = map_of m ++ (map_of es)(fst e \<mapsto> snd e)"
    by (auto simp: map_add_def fun_eq_iff split: option.splits)
  moreover have "map_of (e # es) = (map_of es)(fst e \<mapsto> snd e)" by (cases e) (simp add: fun_eq_iff)
  ultimately show ?case using Cons by (simp add: fun_upd_def del: map_of.simps)
qed simp

lemma update_entries_distinct:
  "distinct (map fst m) \<Longrightarrow> distinct (map fst (fold (\<lambda>e. AList.update (fst e) (snd e)) es m))"
  by (induction es arbitrary: m) (simp_all add: distinct_update)

locale map_kind = cell_kind mk get
  for mk :: "('a, 'b) gomap \<Rightarrow> 'k" and get :: "'k \<Rightarrow> ('a, 'b) gomap option"
begin

lemma copy_entries:
  assumes "fetch get h a = Some m"
  shows "fetch get (copy_entries mk get a es h) a = Some (fold (\<lambda>e. AList.update (fst e) (snd e)) es m)"
    "Limit (copy_entries mk get a es h) = Limit h"
    "\<And>b. b \<noteq> a \<Longrightarrow> Cells (copy_entries mk get a es h) b = Cells h b"
    "a < Limit h \<Longrightarrow> sound h \<Longrightarrow> sound (copy_entries mk get a es h)"
  using assms
  by (induction es arbitrary: h m) (simp_all add: copy_entries_def put_entry_def array_at_def sound_store)

lemma copying_map: "copying (copy_map_field mk get) (view_map get) foot_map"
proof
  fix h :: "'k heap" and f v and h' :: "'k heap"
  assume "view_map get h f = Some v" "\<And>a. a \<in> foot_map h f \<Longrightarrow> Cells h' a = Cells h a"
  then show "view_map get h' f = Some v \<and> foot_map h' f = foot_map h f"
    by (cases f) (auto simp: view_map_def foot_map_def fetch_def)
next
  fix h :: "'k heap" and f v
  assume "sound h" "view_map get h f = Some v"
  then show "foot_map h f \<subseteq> {..<Limit h}"
    by (cases f) (auto simp: view_map_def foot_map_def dest: fetch_live split: option.splits)
next
  fix h :: "'k heap" and f v f' h'
  assume sound: "sound h" and v: "view_map get h f = Some v" and c: "copy_map_field mk get f h = (f', h')"
  show "sound h' \<and> extends h h' \<and> view_map get h' f' = Some v \<and> foot_map h' f' \<subseteq> {Limit h..<Limit h'}"
  proof (cases f)
    case None
    with v c sound show ?thesis by (simp add: copy_map_field_def foot_map_def view_map_def)
  next
    case (Some m)
    with v obtain es where es: "fetch get h m = Some es" "distinct (map fst es)" "v = Some (map_of es)"
      by (auto simp: view_map_def split: option.splits if_splits)
    obtain a h1 where a: "alloc (mk []) h = (a, h1)" by (cases "alloc (mk []) h")
    note al = allocD[OF a]
    have "m < Limit h" using fetch_live[OF sound es(1)] .
    then have "array_at get h1 m = es" using es(1) al(3) by (simp add: array_at_def fetch_def)
    with c Some a have h': "f' = Some a" "h' = copy_entries mk get a es h1"
      by (simp_all add: copy_map_field_def)
    note ce = copy_entries[OF fetch_alloc[OF a], where es = es]
    from ce(1) es(2) h' have "view_map get h' f' = Some v"
      using es(3) update_entries[OF es(2), of "[]"] update_entries_distinct[of "[]" es]
      by (simp add: view_map_def)
    moreover have "extends h h'" using al ce(2,3) h' by (auto simp: extends_def)
    ultimately show ?thesis using h' ce(2,4) al sound by (simp add: foot_map_def)
  qed
qed

end

text \<open>Slices whose elements have deep copies of their own, copied one by one.\<close>

locale item_kind = array_kind mk get + copying copy view foot
  for mk :: "'x list \<Rightarrow> 'k" and get :: "'k \<Rightarrow> 'x list option"
    and copy :: "'x \<Rightarrow> 'k heap \<Rightarrow> 'x \<times> 'k heap" and view :: "'k heap \<Rightarrow> 'x \<Rightarrow> 'v option" and foot
begin

text \<open>
  The loop, from index \<open>k\<close> on: \<open>h0\<close> is the heap before the new array \<open>Limit h0\<close> was made, and the
  first \<open>k\<close> elements of that array are copies already.
\<close>

definition copied_upto :: "'k heap \<Rightarrow> 'v list \<Rightarrow> nat \<Rightarrow> 'k heap \<Rightarrow> bool" where
  "copied_upto h0 vs k h \<longleftrightarrow> sound h \<and> extends h0 h \<and> Limit h0 < Limit h \<and>
     (\<exists>ys. fetch get h (Limit h0) = Some ys \<and> length ys = length vs \<and>
       (\<forall>j < k. view h (ys ! j) = Some (vs ! j) \<and> foot h (ys ! j) \<subseteq> {Limit h0<..<Limit h}))"

lemma copy_items_step:
  assumes inv: "copied_upto h0 vs k h" and k: "k < length vs"
    and el: "view h0 x = Some (vs ! k)" and sound0: "sound h0"
    and c: "copy x h = (x', h1)" and t: "t = \<lparr>Arr = Limit h0, Off = 0, Len = length vs\<rparr>"
  shows "copied_upto h0 vs (Suc k) (set_elem mk get t k x' h1)"
proof -
  let ?a = "Limit h0" and ?h2 = "set_elem mk get t k x' h1"
  from inv obtain ys where i: "sound h" "extends h0 h" "?a < Limit h" "fetch get h ?a = Some ys"
      "length ys = length vs"
      "\<And>j. j < k \<Longrightarrow> view h (ys ! j) = Some (vs ! j) \<and> foot h (ys ! j) \<subseteq> {?a<..<Limit h}"
    unfolding copied_upto_def by blast
  from kept[OF sound0 el i(2)] have "view h x = Some (vs ! k)" by blast
  from copy_ok[OF i(1) this c] have n: "sound h1" "extends h h1" "view h1 x' = Some (vs ! k)"
    "foot h1 x' \<subseteq> {Limit h..<Limit h1}" by blast+
  have "Cells h1 ?a = Cells h ?a" using n(2) i(3) by (simp add: extends_def)
  then have y1: "fetch get h1 ?a = Some ys" using i(4) by (simp add: fetch_def)
  have h2: "?h2 = store ?a (mk (ys[k := x'])) h1" using t y1 by (simp add: set_elem_def array_at_def)
  have lim: "Limit h \<le> Limit h1" using n(2) by (simp add: extends_def)
  have view2: "view ?h2 y = Some v \<and> foot ?h2 y = foot h1 y" if "view h1 y = Some v" "?a \<notin> foot h1 y" for y v
    by (rule view_frame[OF that(1)]) (use that(2) h2 in auto)
  have old: "view ?h2 (ys ! j) = Some (vs ! j) \<and> foot ?h2 (ys ! j) \<subseteq> {?a<..<Limit h1}" if "j < k" for j
  proof -
    note ij = i(6)[OF that]
    from kept[OF i(1) conjunct1[OF ij] n(2)] have "view h1 (ys ! j) = Some (vs ! j)" "foot h1 (ys ! j) = foot h (ys ! j)"
      by blast+
    moreover have "foot h (ys ! j) \<subseteq> {?a<..<Limit h1}"
      using conjunct2[OF ij] by (rule subset_trans) (use lim in auto)
    moreover from this have "?a \<notin> foot h (ys ! j)" by auto
    ultimately show ?thesis using view2[of "ys ! j" "vs ! j"] by simp
  qed
  have "?a \<notin> foot h1 x'" using n(4) i(3) by auto
  from view2[OF n(3) this] n(4) i(3) have new: "view ?h2 x' = Some (vs ! k)" "foot ?h2 x' \<subseteq> {?a<..<Limit h1}"
    by auto
  show ?thesis unfolding copied_upto_def
  proof (intro conjI exI[of _ "ys[k := x']"] allI impI)
    show "sound ?h2" using n(1) i(3) lim h2 by (simp add: sound_store)
    show "extends h0 ?h2" using extends_store[OF extends_trans[OF i(2) n(2)], of ?a] h2 by simp
    show "?a < Limit ?h2" using h2 i(3) lim by simp
    show "fetch get ?h2 ?a = Some (ys[k := x'])" using h2 by simp
    show "length (ys[k := x']) = length vs" using i(5) by simp
    fix j assume "j < Suc k"
    then have "view ?h2 (ys[k := x'] ! j) = Some (vs ! j) \<and> foot ?h2 (ys[k := x'] ! j) \<subseteq> {?a<..<Limit h1}"
      using old[of j] new k i(5) by (cases "j = k") simp_all
    then show "view ?h2 (ys[k := x'] ! j) = Some (vs ! j)" "foot ?h2 (ys[k := x'] ! j) \<subseteq> {?a<..<Limit ?h2}"
      using h2 by simp_all
  qed
qed

lemma copy_items_loop:
  assumes "copied_upto h0 vs k h" and "k + n = length vs" and "sound h0"
    and "elems get h0 s = xs" and "Arr s < Limit h0" and "map (view h0) xs = map Some vs"
    and t: "t = \<lparr>Arr = Limit h0, Off = 0, Len = length vs\<rparr>"
  shows "copied_upto h0 vs (length vs) (copy_items mk get copy s t [k..<k + n] h)"
  using assms(1,2)
proof (induction n arbitrary: k h)
  case 0
  then show ?case by simp
next
  case (Suc n)
  from Suc.prems(1) have "extends h0 h" by (simp add: copied_upto_def)
  with assms(5) have "Cells h (Arr s) = Cells h0 (Arr s)" by (simp add: extends_def)
  from elems_cong[OF this, of get] assms(4) have e: "elems get h s = xs" by simp
  obtain x' h1 where c: "copy (xs ! k) h = (x', h1)" by (cases "copy (xs ! k) h")
  have k: "k < length vs" using Suc.prems(2) by simp
  then have v: "view h0 (xs ! k) = Some (vs ! k)" using assms(6) by (simp add: map_view_nth)
  have "[k..<k + Suc n] = k # [Suc k..<Suc k + n]" by (simp add: upt_conv_Cons)
  then have "copy_items mk get copy s t [k..<k + Suc n] h =
      copy_items mk get copy s t [Suc k..<Suc k + n] (set_elem mk get t k x' h1)"
    using e c by (simp del: upt_Suc)
  moreover have "Suc k + n = length vs" using Suc.prems(2) by simp
  ultimately show ?case using Suc.IH[OF copy_items_step[OF Suc.prems(1) k v assms(3) c t]] by (simp only:)
qed

lemma items_kept:
  assumes v: "view_slice get view h f = Some v" and same: "\<And>a. a \<in> foot_slice get foot h f \<Longrightarrow> Cells h' a = Cells h a"
  shows "view_slice get view h' f = Some v \<and> foot_slice get foot h' f = foot_slice get foot h f"
proof (cases f)
  case None
  with v show ?thesis by (simp add: foot_slice_def)
next
  case (Some s)
  with same have c: "Cells h' (Arr s) = Cells h (Arr s)" by (simp add: foot_slice_def)
  note e = fetch_cong[OF c, of get] elems_cong[OF c, of get]
  from v Some obtain xs vs where x: "fetch get h (Arr s) = Some xs" "Off s + Len s \<le> length xs"
      "v = Some vs" "map (view h) (elems get h s) = map Some vs"
    by (auto simp: view_slice_Some)
  have *: "view h' x = view h x \<and> foot h' x = foot h x" if "x \<in> set (elems get h s)" for x
  proof -
    have "view h x \<in> set (map (view h) (elems get h s))" using that by simp
    then obtain w where w: "view h x = Some w" unfolding x(4) by auto
    have "view h' x = Some w \<and> foot h' x = foot h x"
      by (rule view_frame[OF w], rule same) (use that Some in \<open>auto simp: foot_slice_def\<close>)
    with w show ?thesis by simp
  qed
  then have "map (view h') (elems get h s) = map (view h) (elems get h s)" by simp
  with x e Some * show ?thesis by (auto simp: view_slice_Some foot_slice_def)
qed

lemma items_live:
  assumes sound: "sound h" and v: "view_slice get view h f = Some v"
  shows "foot_slice get foot h f \<subseteq> {..<Limit h}"
proof (cases f)
  case None
  then show ?thesis by (simp add: foot_slice_def)
next
  case (Some s)
  with v obtain xs vs where x: "fetch get h (Arr s) = Some xs"
      "map (view h) (elems get h s) = map Some vs"
    by (auto simp: view_slice_Some)
  have "foot h x \<subseteq> {..<Limit h}" if "x \<in> set (elems get h s)" for x
  proof -
    have "view h x \<in> set (map (view h) (elems get h s))" using that by simp
    then obtain w where "view h x = Some w" unfolding x(2) by auto
    with foot_live[OF sound] show ?thesis .
  qed
  with fetch_live[OF sound x(1)] Some show ?thesis by (auto simp: foot_slice_def)
qed

lemma items_copied:
  assumes sound: "sound h" and v: "view_slice get view h f = Some v"
    and c: "copy_items_field mk get zero copy f h = (f', h')"
  shows "sound h' \<and> extends h h' \<and> view_slice get view h' f' = Some v \<and>
    foot_slice get foot h' f' \<subseteq> {Limit h..<Limit h'}"
proof (cases f)
  case None
  with v c sound show ?thesis by (simp add: copy_items_field_def foot_slice_def)
next
  case (Some s)
  with v obtain xs vs where x: "fetch get h (Arr s) = Some xs" "Off s + Len s \<le> length xs"
      "v = Some vs" "map (view h) (elems get h s) = map Some vs"
    by (auto simp: view_slice_Some)
  have len: "length vs = Len s" using elems_length[OF x(1,2)] x(4) by (metis length_map)
  obtain t h1 where m: "make_slice mk zero (Len s) h = (t, h1)" by (cases "make_slice mk zero (Len s) h")
  note t = make_sliceD[OF m] and al = allocD[OF make_sliceD(2)[OF m]]
  have h': "f' = Some t" "h' = copy_items mk get copy s t [0..<0 + length vs] h1"
    using c Some m len by (simp_all add: copy_items_field_def)
  have "copied_upto h vs 0 h1"
    using al sound fetch_alloc[OF t(2)] len by (simp add: copied_upto_def)
  from copy_items_loop[OF this _ sound refl fetch_live[OF sound x(1)] x(4), of "length vs" t] t(1) len
  have all: "copied_upto h vs (length vs) h'" unfolding h'(2) by simp
  then obtain ys where y: "sound h'" "extends h h'" "Limit h < Limit h'" "fetch get h' (Limit h) = Some ys"
    "length ys = length vs"
    "\<And>j. j < length vs \<Longrightarrow> view h' (ys ! j) = Some (vs ! j) \<and> foot h' (ys ! j) \<subseteq> {Limit h<..<Limit h'}"
    unfolding copied_upto_def by blast
  have e: "elems get h' t = ys" using y(4,5) t(1) len by (simp add: elems_def array_at_def)
  have "view_slice get view h' f' = Some v"
    using h'(1) y(4-6) e t(1) len x(3) by (simp add: view_slice_Some map_view_nth)
  moreover have "foot h' x \<subseteq> {Limit h..<Limit h'}" if "x \<in> set ys" for x
  proof -
    from that obtain j where "j < length vs" "x = ys ! j" using y(5) by (auto simp: in_set_conv_nth)
    with y(6)[of j] show ?thesis by fastforce
  qed
  ultimately show ?thesis using y(1-3) h'(1) e t(1) by (auto simp: foot_slice_def)
qed

lemma copying_items:
  "copying (copy_items_field mk get zero copy) (view_slice get view) (foot_slice get foot)"
  by unfold_locales (rule items_kept items_live items_copied; assumption)+

end

section \<open>Copies of structs and of what a pointer points to\<close>

definition copy_pair ::
  "('x \<Rightarrow> 'k heap \<Rightarrow> 'x \<times> 'k heap) \<Rightarrow> ('y \<Rightarrow> 'k heap \<Rightarrow> 'y \<times> 'k heap) \<Rightarrow> 'x \<times> 'y \<Rightarrow> 'k heap \<Rightarrow> ('x \<times> 'y) \<times> 'k heap" where
  "copy_pair cx cy p h =
     (case cx (fst p) h of (x, h1) \<Rightarrow> (case cy (snd p) h1 of (y, h2) \<Rightarrow> ((x, y), h2)))"

definition view_pair ::
  "('k heap \<Rightarrow> 'x \<Rightarrow> 'v option) \<Rightarrow> ('k heap \<Rightarrow> 'y \<Rightarrow> 'u option) \<Rightarrow> 'k heap \<Rightarrow> 'x \<times> 'y \<Rightarrow> ('v \<times> 'u) option" where
  "view_pair vx vy h p =
     (case vx h (fst p) of None \<Rightarrow> None | Some v \<Rightarrow> (case vy h (snd p) of None \<Rightarrow> None | Some u \<Rightarrow> Some (v, u)))"

definition foot_pair ::
  "('k heap \<Rightarrow> 'x \<Rightarrow> nat set) \<Rightarrow> ('k heap \<Rightarrow> 'y \<Rightarrow> nat set) \<Rightarrow> 'k heap \<Rightarrow> 'x \<times> 'y \<Rightarrow> nat set" where
  "foot_pair fx fy h p = fx h (fst p) \<union> fy h (snd p)"

lemma view_pair_Some:
  "view_pair vx vy h p = Some v \<longleftrightarrow> vx h (fst p) = Some (fst v) \<and> vy h (snd p) = Some (snd v)"
  by (cases v) (auto simp: view_pair_def split: option.splits)

lemma copying_pair:
  assumes X: "copying cx vx fx" and Y: "copying cy vy fy"
  shows "copying (copy_pair cx cy) (view_pair vx vy) (foot_pair fx fy)"
proof
  fix h h' :: "'b heap" and p v 
  assume v: "view_pair vx vy h p = Some v" and s: "\<And>a. a \<in> foot_pair fx fy h p \<Longrightarrow> Cells h' a = Cells h a"
  have "vx h' (fst p) = Some (fst v) \<and> fx h' (fst p) = fx h (fst p)"
    by (rule copying.view_frame[OF X]) (use v s in \<open>auto simp: view_pair_Some foot_pair_def\<close>)
  moreover have "vy h' (snd p) = Some (snd v) \<and> fy h' (snd p) = fy h (snd p)"
    by (rule copying.view_frame[OF Y]) (use v s in \<open>auto simp: view_pair_Some foot_pair_def\<close>)
  ultimately show "view_pair vx vy h' p = Some v \<and> foot_pair fx fy h' p = foot_pair fx fy h p"
    by (simp add: view_pair_Some foot_pair_def)
next
  fix h :: "'b heap" and p v
  assume "sound h" "view_pair vx vy h p = Some v"
  then show "foot_pair fx fy h p \<subseteq> {..<Limit h}"
    using copying.foot_live[OF X, of h "fst p"] copying.foot_live[OF Y, of h "snd p"]
    by (auto simp: view_pair_Some foot_pair_def)
next
  fix h h' :: "'b heap" and p v p' 
  assume s: "sound h" and v: "view_pair vx vy h p = Some v" and c: "copy_pair cx cy p h = (p', h')"
  obtain x h1 where x: "cx (fst p) h = (x, h1)" by (cases "cx (fst p) h")
  obtain y h2 where y: "cy (snd p) h1 = (y, h2)" by (cases "cy (snd p) h1")
  from v have vs: "vx h (fst p) = Some (fst v)" "vy h (snd p) = Some (snd v)" by (simp_all add: view_pair_Some)
  note ox = copying.copy_ok[OF X s vs(1) x]
  have "vy h1 (snd p) = Some (snd v)" using copying.kept[OF Y s vs(2)] ox by blast
  note oy = copying.copy_ok[OF Y conjunct1[OF ox] this y]
  have "vx h2 x = Some (fst v) \<and> fx h2 x = fx h1 x"
    using copying.kept[OF X, of h1 x "fst v" h2] ox oy by blast
  moreover have "p' = (x, y)" "h' = h2" using c x y by (simp_all add: copy_pair_def)
  moreover have "Limit h \<le> Limit h1" "Limit h1 \<le> Limit h2" using ox oy by (simp_all add: extends_def)
  ultimately show "sound h' \<and> extends h h' \<and> view_pair vx vy h' p' = Some v \<and>
      foot_pair fx fy h' p' \<subseteq> {Limit h..<Limit h'}"
    using ox oy extends_trans[of h h1 h2] by (fastforce simp: view_pair_Some foot_pair_def)
qed

text \<open>
  A struct: \<open>parts\<close> are the fields that hold references, \<open>put\<close> writes them back, and \<open>rest\<close> is what
  the assignment \<open>*out = *in\<close> has copied for good.
\<close>

lemma copying_struct:
  assumes C: "copying copy view foot"
    and c: "\<And>y h. copy' y h = (case copy (parts y) h of (x, h') \<Rightarrow> (put x y, h'))"
    and v: "\<And>h y. view' h y = map_option (f (rest y)) (view h (parts y))"
    and ft: "\<And>h y. foot' h y = foot h (parts y)"
    and "\<And>x y. parts (put x y) = x" and "\<And>x y. rest (put x y) = rest y"
  shows "copying copy' view' foot'"
proof
  fix h h' :: "'b heap" and y w 
  assume "view' h y = Some w" "\<And>a. a \<in> foot' h y \<Longrightarrow> Cells h' a = Cells h a"
  then show "view' h' y = Some w \<and> foot' h' y = foot' h y"
    using copying.view_frame[OF C, of h "parts y" _ h'] by (auto simp: v ft)
next
  fix h :: "'b heap" and y w
  assume "sound h" "view' h y = Some w"
  then show "foot' h y \<subseteq> {..<Limit h}" using copying.foot_live[OF C, of h "parts y"] by (auto simp: v ft)
next
  fix h h' :: "'b heap" and y w y' 
  assume s: "sound h" and w: "view' h y = Some w" and y': "copy' y h = (y', h')"
  obtain x where x: "copy (parts y) h = (x, h')" "y' = put x y" using y' by (auto simp: c split: prod.splits)
  from w obtain u where u: "view h (parts y) = Some u" "w = f (rest y) u" by (auto simp: v)
  from copying.copy_ok[OF C s u(1) x(1)] show "sound h' \<and> extends h h' \<and> view' h' y' = Some w \<and>
      foot' h' y' \<subseteq> {Limit h..<Limit h'}"
    using x(2) u(2) assms(5,6) by (simp add: v ft)
qed

definition view_ptr :: "('k \<Rightarrow> 'x option) \<Rightarrow> ('k heap \<Rightarrow> 'x \<Rightarrow> 'v option) \<Rightarrow> 'k heap \<Rightarrow> nat option \<Rightarrow> 'v option option" where
  "view_ptr get view h p =
     (case p of None \<Rightarrow> Some None
      | Some a \<Rightarrow> (case fetch get h a of None \<Rightarrow> None | Some x \<Rightarrow> map_option Some (view h x)))"

definition foot_ptr :: "('k \<Rightarrow> 'x option) \<Rightarrow> ('k heap \<Rightarrow> 'x \<Rightarrow> nat set) \<Rightarrow> 'k heap \<Rightarrow> nat option \<Rightarrow> nat set" where
  "foot_ptr get foot h p =
     (case p of None \<Rightarrow> {}
      | Some a \<Rightarrow> insert a (case fetch get h a of None \<Rightarrow> {} | Some x \<Rightarrow> foot h x))"

lemma view_ptr_Some: "view_ptr get view h (Some a) = Some v \<longleftrightarrow>
    (\<exists>x u. fetch get h a = Some x \<and> view h x = Some u \<and> v = Some u)"
  by (auto simp: view_ptr_def split: option.splits)

locale boxed_kind = cell_kind mk get + copying copy view foot
  for mk :: "'x \<Rightarrow> 'k" and get :: "'k \<Rightarrow> 'x option"
    and copy :: "'x \<Rightarrow> 'k heap \<Rightarrow> 'x \<times> 'k heap" and view :: "'k heap \<Rightarrow> 'x \<Rightarrow> 'v option" and foot
begin

lemma new_frame:
  assumes v: "view_ptr get view h p = Some v" and s: "\<And>a. a \<in> foot_ptr get foot h p \<Longrightarrow> Cells h' a = Cells h a"
  shows "view_ptr get view h' p = Some v \<and> foot_ptr get foot h' p = foot_ptr get foot h p"
proof (cases p)
  case None
  with v show ?thesis by (simp add: view_ptr_def foot_ptr_def)
next
  case (Some a)
  with v obtain x u where x: "fetch get h a = Some x" "view h x = Some u" "v = Some u"
    by (auto simp: view_ptr_Some)
  with s Some have "fetch get h' a = Some x" by (simp add: foot_ptr_def fetch_def)
  moreover have "view h' x = Some u \<and> foot h' x = foot h x"
    by (rule view_frame[OF x(2)], rule s) (simp add: Some x foot_ptr_def)
  ultimately show ?thesis using x Some by (simp add: view_ptr_Some foot_ptr_def)
qed

lemma new_ok:
  assumes s: "sound h" and x: "fetch get h a = Some x" "view h x = Some u"
    and c: "new_copy mk get zero copy (Some a) h = (p', h')"
  shows "sound h' \<and> extends h h' \<and> view_ptr get view h' p' = Some (Some u) \<and> foot_ptr get foot h' p' \<subseteq> {Limit h..<Limit h'}"
proof -
  obtain b h1 where al: "alloc (mk zero) h = (b, h1)" by (cases "alloc (mk zero) h")
  note a1 = allocD[OF al]
  have "a < Limit h" using fetch_live[OF s x(1)] .
  then have "fetch get h1 a = Some x" using a1(3) x(1) by (simp add: fetch_def)
  then obtain x' h2 where cx: "copy x h1 = (x', h2)" and r: "p' = Some b" "h' = store b (mk x') h2"
    using c al by (auto simp: new_copy_def split: prod.splits)
  have "view h1 x = Some u" using kept[OF s x(2) a1(4)] by blast
  note o = copy_ok[OF a1(5)[OF s] this cx]
  have lim: "b < Limit h2" using o a1(1,2) by (simp add: extends_def)
  have "view h' x' = Some u \<and> foot h' x' = foot h2 x'"
    by (rule view_frame) (use o r(2) a1(1,2) in auto)
  moreover have "extends h h'" using extends_store[OF extends_trans[OF a1(4)], of h2 b] o r(2) a1(1) by simp
  moreover have "sound h'" using sound_store[OF _ lim] o r(2) by simp
  moreover have "foot h2 x' \<subseteq> {Limit h..<Limit h2}" using o a1(2) by force
  ultimately show ?thesis using r lim a1(1) by (simp add: view_ptr_Some foot_ptr_def)
qed

lemma copying_new: "copying (new_copy mk get zero copy) (view_ptr get view) (foot_ptr get foot)"
proof
  fix h :: "'k heap" and p v and h' :: "'k heap"
  assume "view_ptr get view h p = Some v" and "\<And>a. a \<in> foot_ptr get foot h p \<Longrightarrow> Cells h' a = Cells h a"
  then show "view_ptr get view h' p = Some v \<and> foot_ptr get foot h' p = foot_ptr get foot h p" by (rule new_frame)
next
  fix h :: "'k heap" and p v
  assume "sound h" "view_ptr get view h p = Some v"
  then show "foot_ptr get foot h p \<subseteq> {..<Limit h}"
    by (cases p) (auto simp: view_ptr_Some foot_ptr_def dest: fetch_live subsetD[OF foot_live])
next
  fix h :: "'k heap" and p v p' h'
  assume s: "sound h" and v: "view_ptr get view h p = Some v" and c: "new_copy mk get zero copy p h = (p', h')"
  show "sound h' \<and> extends h h' \<and> view_ptr get view h' p' = Some v \<and> foot_ptr get foot h' p' \<subseteq> {Limit h..<Limit h'}"
  proof (cases p)
    case None
    with v c s show ?thesis by (simp add: new_copy_def view_ptr_def foot_ptr_def)
  next
    case (Some a)
    with v obtain x u where x: "fetch get h a = Some x" "view h x = Some u" "v = Some u"
      by (auto simp: view_ptr_Some)
    from new_ok[OF s x(1,2) c[unfolded Some]] x(3) show ?thesis by simp
  qed
qed

end

section \<open>What a client may rely on\<close>

context copying
begin

text \<open>However the cells of the copy are overwritten, the original is still there.\<close>

lemma original_safe:
  assumes "sound h" and "view h x = Some v" and "copy x h = (x', h')"
    and "\<And>a. a \<notin> foot h' x' \<Longrightarrow> Cells h'' a = Cells h' a"
  shows "view h'' x = Some v"
proof -
  note o = copy_ok[OF assms(1-3)]
  have "view h'' x = Some v \<and> foot h'' x = foot h x"
  proof (rule view_frame[OF assms(2)])
    fix a assume "a \<in> foot h x"
    then have "a < Limit h" using foot_live[OF assms(1,2)] by auto
    moreover from this have "a \<notin> foot h' x'" using o by auto
    ultimately show "Cells h'' a = Cells h a" using o assms(4) by (simp add: extends_def)
  qed
  then show ?thesis ..
qed

text \<open>However anything that existed before is overwritten, the copy is still there.\<close>

lemma copy_safe:
  assumes "sound h" and "view h x = Some v" and "copy x h = (x', h')"
    and "\<And>a. Limit h \<le> a \<Longrightarrow> Cells h'' a = Cells h' a"
  shows "view h'' x' = Some v"
proof -
  note o = copy_ok[OF assms(1-3)]
  have "view h'' x' = Some v \<and> foot h'' x' = foot h' x'"
    by (rule view_frame) (use o assms(4) in auto)
  then show ?thesis ..
qed

end

end
