(* ===== verification/Deep_Copy.thy ===== *)
theory Deep_Copy
  imports Api_Types Go_Copies
begin

text \<open>
  The generated methods \<open>DeepCopyInto\<close>, \<open>DeepCopy\<close> and \<open>DeepCopyObject\<close> of both versions of the API,
  \<open>api/v1beta1/zz_generated.deepcopy.go\<close> and \<open>api/v1beta2/zz_generated.deepcopy.go\<close>, on a heap.

  The structs below are those of the API as they lie in memory: slices and maps are references, in
  contrast to \<open>Api_Types\<close>, where the same structs hold the values. \<open>DeepCopyInto\<close> takes the struct
  its receiver points to and answers with the one it leaves at \<open>out\<close>. \<open>ObjectMeta\<close> and \<open>ListMeta\<close>
  belong to apimachinery: their representation (\<open>'m\<close>, \<open>'l\<close>, and cells \<open>'c\<close> of their own) and their
  \<open>DeepCopyInto\<close> are parameters.
\<close>

section \<open>The structs in memory\<close>

record type_meta =
  ApiKind :: string
  ApiVersion :: string

record spec_h =
  Quotas_h :: "slice option"
  Applied_h :: bool

record status_h =
  State_h :: string
  StatusQuotas_h :: "slice option"

record 'm rl_h =
  Type_h :: type_meta
  Meta_h :: 'm
  Spec_h :: spec_h
  Status_h :: status_h

record 'l rl_list_h =
  ListType_h :: type_meta
  ListMeta_h :: 'l
  Items_h :: "slice option"

record spec1_h =
  Targets1_h :: "slice option"
  Types1_h :: "nat option"
  Applied1_h :: bool

record status1_h =
  State1_h :: string
  StatusQuotas1_h :: "nat option"

record 'm rl1_h =
  Type1_h :: type_meta
  Meta1_h :: 'm
  Spec1_h :: spec1_h
  Status1_h :: status1_h

record 'l rl_list1_h =
  ListType1_h :: type_meta
  ListMeta1_h :: 'l
  Items1_h :: "slice option"

datatype ('m, 'l, 'c) cell =
    QuotaArray "ResourceLimiterQuota list"
  | QuotaCell "ResourceLimiterQuota"
  | SpecCell "spec_h"
  | StatusCell "status_h"
  | RlCell "'m rl_h"
  | RlArray "'m rl_h list"
  | ListCell "'l rl_list_h"
  | TargetArray "string list"
  | TypesMap "(string, string) gomap"
  | QuotasMap "(string, ResourceLimiterQuotas1) gomap"
  | QuotasCell1 "ResourceLimiterQuotas1"
  | SpecCell1 "spec1_h"
  | StatusCell1 "status1_h"
  | RlCell1 "'m rl1_h"
  | RlArray1 "'m rl1_h list"
  | ListCell1 "'l rl_list1_h"
  | LibCell 'c

type_synonym ('m, 'l, 'c) memory = "('m, 'l, 'c) cell heap"

text \<open>What a pointer of each kind finds in its cell.\<close>

definition quota_array :: "('m, 'l, 'c) cell \<Rightarrow> (ResourceLimiterQuota list) option" where
  "quota_array c = (case c of QuotaArray x \<Rightarrow> Some x | _ \<Rightarrow> None)"
definition quota_cell :: "('m, 'l, 'c) cell \<Rightarrow> ResourceLimiterQuota option" where
  "quota_cell c = (case c of QuotaCell x \<Rightarrow> Some x | _ \<Rightarrow> None)"
definition spec_cell :: "('m, 'l, 'c) cell \<Rightarrow> spec_h option" where
  "spec_cell c = (case c of SpecCell x \<Rightarrow> Some x | _ \<Rightarrow> None)"
definition status_cell :: "('m, 'l, 'c) cell \<Rightarrow> status_h option" where
  "status_cell c = (case c of StatusCell x \<Rightarrow> Some x | _ \<Rightarrow> None)"
definition rl_cell :: "('m, 'l, 'c) cell \<Rightarrow> ('m rl_h) option" where
  "rl_cell c = (case c of RlCell x \<Rightarrow> Some x | _ \<Rightarrow> None)"
definition rl_array :: "('m, 'l, 'c) cell \<Rightarrow> ('m rl_h list) option" where
  "rl_array c = (case c of RlArray x \<Rightarrow> Some x | _ \<Rightarrow> None)"
definition list_cell :: "('m, 'l, 'c) cell \<Rightarrow> ('l rl_list_h) option" where
  "list_cell c = (case c of ListCell x \<Rightarrow> Some x | _ \<Rightarrow> None)"
definition target_array :: "('m, 'l, 'c) cell \<Rightarrow> (string list) option" where
  "target_array c = (case c of TargetArray x \<Rightarrow> Some x | _ \<Rightarrow> None)"
definition types_map :: "('m, 'l, 'c) cell \<Rightarrow> ((string, string) gomap) option" where
  "types_map c = (case c of TypesMap x \<Rightarrow> Some x | _ \<Rightarrow> None)"
definition quotas_map :: "('m, 'l, 'c) cell \<Rightarrow> ((string, ResourceLimiterQuotas1) gomap) option" where
  "quotas_map c = (case c of QuotasMap x \<Rightarrow> Some x | _ \<Rightarrow> None)"
definition quotas_cell1 :: "('m, 'l, 'c) cell \<Rightarrow> ResourceLimiterQuotas1 option" where
  "quotas_cell1 c = (case c of QuotasCell1 x \<Rightarrow> Some x | _ \<Rightarrow> None)"
definition spec_cell1 :: "('m, 'l, 'c) cell \<Rightarrow> spec1_h option" where
  "spec_cell1 c = (case c of SpecCell1 x \<Rightarrow> Some x | _ \<Rightarrow> None)"
definition status_cell1 :: "('m, 'l, 'c) cell \<Rightarrow> status1_h option" where
  "status_cell1 c = (case c of StatusCell1 x \<Rightarrow> Some x | _ \<Rightarrow> None)"
definition rl_cell1 :: "('m, 'l, 'c) cell \<Rightarrow> ('m rl1_h) option" where
  "rl_cell1 c = (case c of RlCell1 x \<Rightarrow> Some x | _ \<Rightarrow> None)"
definition rl_array1 :: "('m, 'l, 'c) cell \<Rightarrow> ('m rl1_h list) option" where
  "rl_array1 c = (case c of RlArray1 x \<Rightarrow> Some x | _ \<Rightarrow> None)"
definition list_cell1 :: "('m, 'l, 'c) cell \<Rightarrow> ('l rl_list1_h) option" where
  "list_cell1 c = (case c of ListCell1 x \<Rightarrow> Some x | _ \<Rightarrow> None)"

text \<open>The methods of apimachinery, and the zero values of its structs.\<close>

record ('m, 'l, 'c) meta_lib =
  CopyMeta :: "'m \<Rightarrow> ('m, 'l, 'c) memory \<Rightarrow> 'm \<times> ('m, 'l, 'c) memory"
  CopyListMeta :: "'l \<Rightarrow> ('m, 'l, 'c) memory \<Rightarrow> 'l \<times> ('m, 'l, 'c) memory"
  ZeroMeta :: 'm
  ZeroListMeta :: 'l

text \<open>The zero values \<open>new\<close> and \<open>make\<close> start from.\<close>

definition zero_type :: type_meta where "zero_type = \<lparr>ApiKind = '''', ApiVersion = ''''\<rparr>"
definition zero_spec :: spec_h where "zero_spec = \<lparr>Quotas_h = None, Applied_h = False\<rparr>"
definition zero_status :: status_h where "zero_status = \<lparr>State_h = '''', StatusQuotas_h = None\<rparr>"
definition zero_rl :: "('m, 'l, 'c) meta_lib \<Rightarrow> 'm rl_h" where
  "zero_rl M = \<lparr>Type_h = zero_type, Meta_h = ZeroMeta M, Spec_h = zero_spec, Status_h = zero_status\<rparr>"
definition zero_list :: "('m, 'l, 'c) meta_lib \<Rightarrow> 'l rl_list_h" where
  "zero_list M = \<lparr>ListType_h = zero_type, ListMeta_h = ZeroListMeta M, Items_h = None\<rparr>"
definition zero_quotas1 :: ResourceLimiterQuotas1 where
  "zero_quotas1 = \<lparr>Namespace1 = '''', CpuRequests1 = '''', MemRequests1 = '''', CpuLimits1 = '''', MemLimits1 = ''''\<rparr>"
definition zero_spec1 :: spec1_h where "zero_spec1 = \<lparr>Targets1_h = None, Types1_h = None, Applied1_h = False\<rparr>"
definition zero_status1 :: status1_h where "zero_status1 = \<lparr>State1_h = '''', StatusQuotas1_h = None\<rparr>"
definition zero_rl1 :: "('m, 'l, 'c) meta_lib \<Rightarrow> 'm rl1_h" where
  "zero_rl1 M = \<lparr>Type1_h = zero_type, Meta1_h = ZeroMeta M, Spec1_h = zero_spec1, Status1_h = zero_status1\<rparr>"
definition zero_list1 :: "('m, 'l, 'c) meta_lib \<Rightarrow> 'l rl_list1_h" where
  "zero_list1 M = \<lparr>ListType1_h = zero_type, ListMeta1_h = ZeroListMeta M, Items1_h = None\<rparr>"

section \<open>v1beta2\<close>

type_synonym ('x, 'm, 'l, 'c) copier = "'x \<Rightarrow> ('m, 'l, 'c) memory \<Rightarrow> 'x \<times> ('m, 'l, 'c) memory"

definition DeepCopyInto_quota :: "(ResourceLimiterQuota, 'm, 'l, 'c) copier" where
  "DeepCopyInto_quota x h = (let out = x in (out, h))"

definition DeepCopy_quota :: "(nat option, 'm, 'l, 'c) copier" where
  "DeepCopy_quota = new_copy QuotaCell quota_cell empty_quota DeepCopyInto_quota"

definition DeepCopyInto_spec :: "(spec_h, 'm, 'l, 'c) copier" where
  "DeepCopyInto_spec x h =
     (let out = x
      in case copy_slice_field QuotaArray quota_array empty_quota (Quotas_h x) h of
           (qs, h1) \<Rightarrow> (out\<lparr>Quotas_h := qs\<rparr>, h1))"

definition DeepCopy_spec :: "(nat option, 'm, 'l, 'c) copier" where
  "DeepCopy_spec = new_copy SpecCell spec_cell zero_spec DeepCopyInto_spec"

definition DeepCopyInto_status :: "(status_h, 'm, 'l, 'c) copier" where
  "DeepCopyInto_status x h =
     (let out = x
      in case copy_slice_field QuotaArray quota_array empty_quota (StatusQuotas_h x) h of
           (qs, h1) \<Rightarrow> (out\<lparr>StatusQuotas_h := qs\<rparr>, h1))"

definition DeepCopy_status :: "(nat option, 'm, 'l, 'c) copier" where
  "DeepCopy_status = new_copy StatusCell status_cell zero_status DeepCopyInto_status"

definition DeepCopyInto_rl :: "('m, 'l, 'c) meta_lib \<Rightarrow> ('m rl_h, 'm, 'l, 'c) copier" where
  "DeepCopyInto_rl M x h =
     (let out = x; out = out\<lparr>Type_h := Type_h x\<rparr>
      in case CopyMeta M (Meta_h x) h of (m, h1) \<Rightarrow>
         (case DeepCopyInto_spec (Spec_h x) h1 of (s, h2) \<Rightarrow>
         (case DeepCopyInto_status (Status_h x) h2 of (t, h3) \<Rightarrow>
            (out\<lparr>Meta_h := m, Spec_h := s, Status_h := t\<rparr>, h3))))"

definition DeepCopy_rl :: "('m, 'l, 'c) meta_lib \<Rightarrow> (nat option, 'm, 'l, 'c) copier" where
  "DeepCopy_rl M = new_copy RlCell rl_cell (zero_rl M) (DeepCopyInto_rl M)"

text \<open>\<open>DeepCopyObject\<close> must not put a nil pointer into the interface it returns.\<close>

definition DeepCopyObject_rl :: "('m, 'l, 'c) meta_lib \<Rightarrow> (nat option, 'm, 'l, 'c) copier" where
  "DeepCopyObject_rl M p h =
     (case DeepCopy_rl M p h of (Some c, h1) \<Rightarrow> (Some c, h1) | (None, h1) \<Rightarrow> (None, h1))"

definition DeepCopyInto_list :: "('m, 'l, 'c) meta_lib \<Rightarrow> ('l rl_list_h, 'm, 'l, 'c) copier" where
  "DeepCopyInto_list M x h =
     (let out = x; out = out\<lparr>ListType_h := ListType_h x\<rparr>
      in case CopyListMeta M (ListMeta_h x) h of (m, h1) \<Rightarrow>
         (case copy_items_field RlArray rl_array (zero_rl M) (DeepCopyInto_rl M) (Items_h x) h1 of (is, h2) \<Rightarrow>
            (out\<lparr>ListMeta_h := m, Items_h := is\<rparr>, h2)))"

definition DeepCopy_list :: "('m, 'l, 'c) meta_lib \<Rightarrow> (nat option, 'm, 'l, 'c) copier" where
  "DeepCopy_list M = new_copy ListCell list_cell (zero_list M) (DeepCopyInto_list M)"

definition DeepCopyObject_list :: "('m, 'l, 'c) meta_lib \<Rightarrow> (nat option, 'm, 'l, 'c) copier" where
  "DeepCopyObject_list M p h =
     (case DeepCopy_list M p h of (Some c, h1) \<Rightarrow> (Some c, h1) | (None, h1) \<Rightarrow> (None, h1))"

section \<open>v1beta1\<close>

definition DeepCopyInto_quotas1 :: "(ResourceLimiterQuotas1, 'm, 'l, 'c) copier" where
  "DeepCopyInto_quotas1 x h = (let out = x in (out, h))"

definition DeepCopy_quotas1 :: "(nat option, 'm, 'l, 'c) copier" where
  "DeepCopy_quotas1 = new_copy QuotasCell1 quotas_cell1 zero_quotas1 DeepCopyInto_quotas1"

definition DeepCopyInto_spec1 :: "(spec1_h, 'm, 'l, 'c) copier" where
  "DeepCopyInto_spec1 x h =
     (let out = x
      in case copy_slice_field TargetArray target_array '''' (Targets1_h x) h of (ts, h1) \<Rightarrow>
         (case copy_map_field TypesMap types_map (Types1_h x) h1 of (ty, h2) \<Rightarrow>
            (out\<lparr>Targets1_h := ts, Types1_h := ty\<rparr>, h2)))"

definition DeepCopy_spec1 :: "(nat option, 'm, 'l, 'c) copier" where
  "DeepCopy_spec1 = new_copy SpecCell1 spec_cell1 zero_spec1 DeepCopyInto_spec1"

definition DeepCopyInto_status1 :: "(status1_h, 'm, 'l, 'c) copier" where
  "DeepCopyInto_status1 x h =
     (let out = x
      in case copy_map_field QuotasMap quotas_map (StatusQuotas1_h x) h of
           (qs, h1) \<Rightarrow> (out\<lparr>StatusQuotas1_h := qs\<rparr>, h1))"

definition DeepCopy_status1 :: "(nat option, 'm, 'l, 'c) copier" where
  "DeepCopy_status1 = new_copy StatusCell1 status_cell1 zero_status1 DeepCopyInto_status1"

definition DeepCopyInto_rl1 :: "('m, 'l, 'c) meta_lib \<Rightarrow> ('m rl1_h, 'm, 'l, 'c) copier" where
  "DeepCopyInto_rl1 M x h =
     (let out = x; out = out\<lparr>Type1_h := Type1_h x\<rparr>
      in case CopyMeta M (Meta1_h x) h of (m, h1) \<Rightarrow>
         (case DeepCopyInto_spec1 (Spec1_h x) h1 of (s, h2) \<Rightarrow>
         (case DeepCopyInto_status1 (Status1_h x) h2 of (t, h3) \<Rightarrow>
            (out\<lparr>Meta1_h := m, Spec1_h := s, Status1_h := t\<rparr>, h3))))"

definition DeepCopy_rl1 :: "('m, 'l, 'c) meta_lib \<Rightarrow> (nat option, 'm, 'l, 'c) copier" where
  "DeepCopy_rl1 M = new_copy RlCell1 rl_cell1 (zero_rl1 M) (DeepCopyInto_rl1 M)"

definition DeepCopyObject_rl1 :: "('m, 'l, 'c) meta_lib \<Rightarrow> (nat option, 'm, 'l, 'c) copier" where
  "DeepCopyObject_rl1 M p h =
     (case DeepCopy_rl1 M p h of (Some c, h1) \<Rightarrow> (Some c, h1) | (None, h1) \<Rightarrow> (None, h1))"

definition DeepCopyInto_list1 :: "('m, 'l, 'c) meta_lib \<Rightarrow> ('l rl_list1_h, 'm, 'l, 'c) copier" where
  "DeepCopyInto_list1 M x h =
     (let out = x; out = out\<lparr>ListType1_h := ListType1_h x\<rparr>
      in case CopyListMeta M (ListMeta1_h x) h of (m, h1) \<Rightarrow>
         (case copy_items_field RlArray1 rl_array1 (zero_rl1 M) (DeepCopyInto_rl1 M) (Items1_h x) h1 of (is, h2) \<Rightarrow>
            (out\<lparr>ListMeta1_h := m, Items1_h := is\<rparr>, h2)))"

definition DeepCopy_list1 :: "('m, 'l, 'c) meta_lib \<Rightarrow> (nat option, 'm, 'l, 'c) copier" where
  "DeepCopy_list1 M = new_copy ListCell1 list_cell1 (zero_list1 M) (DeepCopyInto_list1 M)"

definition DeepCopyObject_list1 :: "('m, 'l, 'c) meta_lib \<Rightarrow> (nat option, 'm, 'l, 'c) copier" where
  "DeepCopyObject_list1 M p h =
     (case DeepCopy_list1 M p h of (Some c, h1) \<Rightarrow> (Some c, h1) | (None, h1) \<Rightarrow> (None, h1))"

section \<open>Each kind of cell\<close>

text \<open>The constructors and selectors of cells keep the contract of the builtins.\<close>

interpretation k_quota_array: array_kind QuotaArray quota_array by unfold_locales (simp add: quota_array_def)
interpretation k_quota_cell: cell_kind QuotaCell quota_cell by unfold_locales (simp add: quota_cell_def)
interpretation k_spec_cell: cell_kind SpecCell spec_cell by unfold_locales (simp add: spec_cell_def)
interpretation k_status_cell: cell_kind StatusCell status_cell by unfold_locales (simp add: status_cell_def)
interpretation k_rl_cell: cell_kind RlCell rl_cell by unfold_locales (simp add: rl_cell_def)
interpretation k_rl_array: array_kind RlArray rl_array by unfold_locales (simp add: rl_array_def)
interpretation k_list_cell: cell_kind ListCell list_cell by unfold_locales (simp add: list_cell_def)
interpretation k_target_array: array_kind TargetArray target_array by unfold_locales (simp add: target_array_def)
interpretation k_types_map: map_kind TypesMap types_map by unfold_locales (simp add: types_map_def)
interpretation k_quotas_map: map_kind QuotasMap quotas_map by unfold_locales (simp add: quotas_map_def)
interpretation k_quotas_cell1: cell_kind QuotasCell1 quotas_cell1 by unfold_locales (simp add: quotas_cell1_def)
interpretation k_spec_cell1: cell_kind SpecCell1 spec_cell1 by unfold_locales (simp add: spec_cell1_def)
interpretation k_status_cell1: cell_kind StatusCell1 status_cell1 by unfold_locales (simp add: status_cell1_def)
interpretation k_rl_cell1: cell_kind RlCell1 rl_cell1 by unfold_locales (simp add: rl_cell1_def)
interpretation k_rl_array1: array_kind RlArray1 rl_array1 by unfold_locales (simp add: rl_array1_def)
interpretation k_list_cell1: cell_kind ListCell1 list_cell1 by unfold_locales (simp add: list_cell1_def)

end
