(* ===== verification/Deep_Copy_Laws.thy ===== *)
theory Deep_Copy_Laws
  imports Deep_Copy
begin

text \<open>
  The values that the structs in memory denote, and the proof that every generated method keeps the
  contract of a deep copy. \<open>nil\<close> and empty slices are told apart, since they are different JSON.
  What apimachinery's own methods have to promise is the contract \<open>meta_copies\<close>; it is interpreted on a
  representation of the metadata in which the finalizers are a slice.
\<close>

section \<open>Values\<close>

definition view_spec :: "('m, 'l, 'c) memory \<Rightarrow> spec_h \<Rightarrow> (ResourceLimiterQuota list option \<times> bool) option" where
  "view_spec h x = map_option (\<lambda>qs. (qs, Applied_h x)) (view_flat quota_array h (Quotas_h x))"

definition foot_spec :: "('m, 'l, 'c) memory \<Rightarrow> spec_h \<Rightarrow> nat set" where
  "foot_spec h x = foot_flat quota_array h (Quotas_h x)"

definition view_status :: "('m, 'l, 'c) memory \<Rightarrow> status_h \<Rightarrow> (string \<times> ResourceLimiterQuota list option) option" where
  "view_status h x = map_option (\<lambda>qs. (State_h x, qs)) (view_flat quota_array h (StatusQuotas_h x))"

definition foot_status :: "('m, 'l, 'c) memory \<Rightarrow> status_h \<Rightarrow> nat set" where
  "foot_status h x = foot_flat quota_array h (StatusQuotas_h x)"

definition rl_parts :: "'m rl_h \<Rightarrow> 'm \<times> spec_h \<times> status_h" where
  "rl_parts x = (Meta_h x, Spec_h x, Status_h x)"

definition view_rl :: "(('m, 'l, 'c) memory \<Rightarrow> 'm \<Rightarrow> 'v option) \<Rightarrow> ('m, 'l, 'c) memory \<Rightarrow> 'm rl_h \<Rightarrow>
    (type_meta \<times> 'v \<times> (ResourceLimiterQuota list option \<times> bool) \<times> (string \<times> ResourceLimiterQuota list option)) option" where
  "view_rl vm h x = map_option (Pair (Type_h x)) (view_pair vm (view_pair view_spec view_status) h (rl_parts x))"

definition foot_rl :: "(('m, 'l, 'c) memory \<Rightarrow> 'm \<Rightarrow> nat set) \<Rightarrow> ('m, 'l, 'c) memory \<Rightarrow> 'm rl_h \<Rightarrow> nat set" where
  "foot_rl fm h x = foot_pair fm (foot_pair foot_spec foot_status) h (rl_parts x)"

definition view_list where
  "view_list vm vl h x = map_option (Pair (ListType_h x))
     (view_pair vl (view_slice rl_array (view_rl vm)) h (ListMeta_h x, Items_h x))"

definition foot_list where
  "foot_list fm fl h x = foot_pair fl (foot_slice rl_array (foot_rl fm)) h (ListMeta_h x, Items_h x)"

definition view_spec1 :: "('m, 'l, 'c) memory \<Rightarrow> spec1_h \<Rightarrow>
    ((string list option \<times> (string \<rightharpoonup> string) option) \<times> bool) option" where
  "view_spec1 h x = map_option (\<lambda>v. (v, Applied1_h x))
     (view_pair (view_flat target_array) (view_map types_map) h (Targets1_h x, Types1_h x))"

definition foot_spec1 :: "('m, 'l, 'c) memory \<Rightarrow> spec1_h \<Rightarrow> nat set" where
  "foot_spec1 h x = foot_pair (foot_flat target_array) foot_map h (Targets1_h x, Types1_h x)"

definition view_status1 :: "('m, 'l, 'c) memory \<Rightarrow> status1_h \<Rightarrow>
    (string \<times> (string \<rightharpoonup> ResourceLimiterQuotas1) option) option" where
  "view_status1 h x = map_option (\<lambda>qs. (State1_h x, qs)) (view_map quotas_map h (StatusQuotas1_h x))"

definition foot_status1 :: "('m, 'l, 'c) memory \<Rightarrow> status1_h \<Rightarrow> nat set" where
  "foot_status1 h x = foot_map h (StatusQuotas1_h x)"

definition rl1_parts :: "'m rl1_h \<Rightarrow> 'm \<times> spec1_h \<times> status1_h" where
  "rl1_parts x = (Meta1_h x, Spec1_h x, Status1_h x)"

definition view_rl1 where
  "view_rl1 vm h x = map_option (Pair (Type1_h x)) (view_pair vm (view_pair view_spec1 view_status1) h (rl1_parts x))"

definition foot_rl1 where
  "foot_rl1 fm h x = foot_pair fm (foot_pair foot_spec1 foot_status1) h (rl1_parts x)"

definition view_list1 where
  "view_list1 vm vl h x = map_option (Pair (ListType1_h x))
     (view_pair vl (view_slice rl_array1 (view_rl1 vm)) h (ListMeta1_h x, Items1_h x))"

definition foot_list1 where
  "foot_list1 fm fl h x = foot_pair fl (foot_slice rl_array1 (foot_rl1 fm)) h (ListMeta1_h x, Items1_h x)"

section \<open>The methods keep the contract\<close>

interpretation c_quota: copying DeepCopyInto_quota "\<lambda>_. Some" "\<lambda>_ _. {}"
  by unfold_locales (auto simp: DeepCopyInto_quota_def)

interpretation c_spec: copying DeepCopyInto_spec view_spec foot_spec
  by (rule copying_struct[where parts = Quotas_h and put = "\<lambda>q x. x\<lparr>Quotas_h := q\<rparr>" and rest = Applied_h
        and f = "\<lambda>a q. (q, a)", OF k_quota_array.copying_flat])
    (simp_all add: DeepCopyInto_spec_def view_spec_def foot_spec_def)

interpretation c_status: copying DeepCopyInto_status view_status foot_status
  by (rule copying_struct[where parts = StatusQuotas_h and put = "\<lambda>q x. x\<lparr>StatusQuotas_h := q\<rparr>"
        and rest = State_h and f = Pair, OF k_quota_array.copying_flat])
    (simp_all add: DeepCopyInto_status_def view_status_def foot_status_def)

interpretation c_quotas1: copying DeepCopyInto_quotas1 "\<lambda>_. Some" "\<lambda>_ _. {}"
  by unfold_locales (auto simp: DeepCopyInto_quotas1_def)

interpretation c_spec1: copying DeepCopyInto_spec1 view_spec1 foot_spec1
  by (rule copying_struct[where parts = "\<lambda>x. (Targets1_h x, Types1_h x)"
        and put = "\<lambda>p x. x\<lparr>Targets1_h := fst p, Types1_h := snd p\<rparr>" and rest = Applied1_h and f = "\<lambda>a v. (v, a)",
        OF copying_pair[OF k_target_array.copying_flat[where zero = "''''"] k_types_map.copying_map]])
    (simp_all add: DeepCopyInto_spec1_def view_spec1_def foot_spec1_def copy_pair_def split: prod.splits)

interpretation c_status1: copying DeepCopyInto_status1 view_status1 foot_status1
  by (rule copying_struct[where parts = StatusQuotas1_h and put = "\<lambda>q x. x\<lparr>StatusQuotas1_h := q\<rparr>"
        and rest = State1_h and f = Pair, OF k_quotas_map.copying_map])
    (simp_all add: DeepCopyInto_status1_def view_status1_def foot_status1_def)

interpretation b_quota: boxed_kind QuotaCell quota_cell DeepCopyInto_quota "\<lambda>_. Some" "\<lambda>_ _. {}" ..
interpretation b_spec: boxed_kind SpecCell spec_cell DeepCopyInto_spec view_spec foot_spec ..
interpretation b_status: boxed_kind StatusCell status_cell DeepCopyInto_status view_status foot_status ..
interpretation b_quotas1: boxed_kind QuotasCell1 quotas_cell1 DeepCopyInto_quotas1 "\<lambda>_. Some" "\<lambda>_ _. {}" ..
interpretation b_spec1: boxed_kind SpecCell1 spec_cell1 DeepCopyInto_spec1 view_spec1 foot_spec1 ..
interpretation b_status1: boxed_kind StatusCell1 status_cell1 DeepCopyInto_status1 view_status1 foot_status1 ..

locale meta_copies =
  m: copying "CopyMeta M" vm fm + l: copying "CopyListMeta M" vl fl
  for M :: "('m, 'l, 'c) meta_lib" and vm :: "('m, 'l, 'c) memory \<Rightarrow> 'm \<Rightarrow> 'mv option" and fm
    and vl :: "('m, 'l, 'c) memory \<Rightarrow> 'l \<Rightarrow> 'lv option" and fl
begin

lemma copying_rl: "copying (DeepCopyInto_rl M) (view_rl vm) (foot_rl fm)"
  by (rule copying_struct[where parts = rl_parts
        and put = "\<lambda>p x. x\<lparr>Meta_h := fst p, Spec_h := fst (snd p), Status_h := snd (snd p)\<rparr>" and rest = Type_h and f = Pair,
        OF copying_pair[OF m.copying_axioms copying_pair[OF c_spec.copying_axioms c_status.copying_axioms]]])
    (simp_all add: DeepCopyInto_rl_def view_rl_def foot_rl_def rl_parts_def copy_pair_def Let_def split: prod.splits)

lemma copying_rl1: "copying (DeepCopyInto_rl1 M) (view_rl1 vm) (foot_rl1 fm)"
  by (rule copying_struct[where parts = rl1_parts
        and put = "\<lambda>p x. x\<lparr>Meta1_h := fst p, Spec1_h := fst (snd p), Status1_h := snd (snd p)\<rparr>" and rest = Type1_h and f = Pair,
        OF copying_pair[OF m.copying_axioms copying_pair[OF c_spec1.copying_axioms c_status1.copying_axioms]]])
    (simp_all add: DeepCopyInto_rl1_def view_rl1_def foot_rl1_def rl1_parts_def copy_pair_def Let_def split: prod.splits)

end

sublocale meta_copies \<subseteq> rl: item_kind RlArray rl_array "DeepCopyInto_rl M" "view_rl vm" "foot_rl fm"
  by (intro item_kind.intro k_rl_array.array_kind_axioms copying_rl)

sublocale meta_copies \<subseteq> rl1: item_kind RlArray1 rl_array1 "DeepCopyInto_rl1 M" "view_rl1 vm" "foot_rl1 fm"
  by (intro item_kind.intro k_rl_array1.array_kind_axioms copying_rl1)

context meta_copies
begin

lemma copying_list: "copying (DeepCopyInto_list M) (view_list vm vl) (foot_list fm fl)"
  by (rule copying_struct[where parts = "\<lambda>x. (ListMeta_h x, Items_h x)"
        and put = "\<lambda>p x. x\<lparr>ListMeta_h := fst p, Items_h := snd p\<rparr>" and rest = ListType_h and f = Pair,
        OF copying_pair[OF l.copying_axioms rl.copying_items[where zero = "zero_rl M"]]])
    (simp_all add: DeepCopyInto_list_def view_list_def foot_list_def copy_pair_def Let_def split: prod.splits)

lemma copying_list1: "copying (DeepCopyInto_list1 M) (view_list1 vm vl) (foot_list1 fm fl)"
  by (rule copying_struct[where parts = "\<lambda>x. (ListMeta1_h x, Items1_h x)"
        and put = "\<lambda>p x. x\<lparr>ListMeta1_h := fst p, Items1_h := snd p\<rparr>" and rest = ListType1_h and f = Pair,
        OF copying_pair[OF l.copying_axioms rl1.copying_items[where zero = "zero_rl1 M"]]])
    (simp_all add: DeepCopyInto_list1_def view_list1_def foot_list1_def copy_pair_def Let_def split: prod.splits)

lemma copying_object: "copying (DeepCopyObject_list M) (view_ptr list_cell (view_list vm vl)) (foot_ptr list_cell (foot_list fm fl))"
proof -
  have "DeepCopyObject_list M = DeepCopy_list M"
    by (simp add: DeepCopyObject_list_def fun_eq_iff split: prod.splits option.splits)
  then show ?thesis
    using boxed_kind.copying_new[OF boxed_kind.intro[OF k_list_cell.cell_kind_axioms copying_list], of "zero_list M"]
    by (simp add: DeepCopy_list_def)
qed

lemma copying_object1: "copying (DeepCopyObject_list1 M) (view_ptr list_cell1 (view_list1 vm vl)) (foot_ptr list_cell1 (foot_list1 fm fl))"
proof -
  have "DeepCopyObject_list1 M = DeepCopy_list1 M"
    by (simp add: DeepCopyObject_list1_def fun_eq_iff split: prod.splits option.splits)
  then show ?thesis
    using boxed_kind.copying_new[OF boxed_kind.intro[OF k_list_cell1.cell_kind_axioms copying_list1], of "zero_list1 M"]
    by (simp add: DeepCopy_list1_def)
qed
text \<open>The methods that \<open>Reconcile\<close> and \<open>updateStatus\<close> call, \<open>rl.DeepCopy()\<close>.\<close>

lemma copying_DeepCopy_rl: "copying (DeepCopy_rl M) (view_ptr rl_cell (view_rl vm)) (foot_ptr rl_cell (foot_rl fm))"
  unfolding DeepCopy_rl_def
  by (rule boxed_kind.copying_new[OF boxed_kind.intro[OF k_rl_cell.cell_kind_axioms copying_rl]])

lemma copying_DeepCopy_rl1: "copying (DeepCopy_rl1 M) (view_ptr rl_cell1 (view_rl1 vm)) (foot_ptr rl_cell1 (foot_rl1 fm))"
  unfolding DeepCopy_rl1_def
  by (rule boxed_kind.copying_new[OF boxed_kind.intro[OF k_rl_cell1.cell_kind_axioms copying_rl1]])

end

end
