(* ===== verification/Deep_Copy_Props.thy ===== *)
theory Deep_Copy_Props
  imports Deep_Copy_Laws
begin

text \<open>
  What the deep copies of the program's objects promise, an instance of the metadata methods, and the
  property of the generated code.
\<close>

section \<open>Metadata with finalizers in a slice\<close>

record meta_h =
  Name_h :: string
  Finalizers_h :: "slice option"
  Deletion_h :: "string option"

definition string_array :: "('m, 'l, string list) cell \<Rightarrow> string list option" where
  "string_array c = (case c of LibCell xs \<Rightarrow> Some xs | _ \<Rightarrow> None)"

definition mem_meta_lib :: "(meta_h, string, string list) meta_lib" where
  "mem_meta_lib =
     \<lparr>CopyMeta = \<lambda>x h. (case copy_slice_field LibCell string_array '''' (Finalizers_h x) h of
         (fs, h') \<Rightarrow> (x\<lparr>Finalizers_h := fs\<rparr>, h')),
      CopyListMeta = Pair,
      ZeroMeta = \<lparr>Name_h = '''', Finalizers_h = None, Deletion_h = None\<rparr>, ZeroListMeta = ''''\<rparr>"

definition view_meta :: "(meta_h, string, string list) memory \<Rightarrow> meta_h \<Rightarrow>
    ((string \<times> string option) \<times> string list option) option" where
  "view_meta h x = map_option (Pair (Name_h x, Deletion_h x)) (view_flat string_array h (Finalizers_h x))"

definition foot_meta :: "(meta_h, string, string list) memory \<Rightarrow> meta_h \<Rightarrow> nat set" where
  "foot_meta h x = foot_flat string_array h (Finalizers_h x)"

interpretation k_string_array: array_kind LibCell string_array by unfold_locales (simp add: string_array_def)

lemma copying_mem_meta: "copying (CopyMeta mem_meta_lib) view_meta foot_meta"
  by (rule copying_struct[where parts = Finalizers_h and put = "\<lambda>q x. x\<lparr>Finalizers_h := q\<rparr>"
        and rest = "\<lambda>x. (Name_h x, Deletion_h x)" and f = Pair, OF k_string_array.copying_flat[where zero = "''''"]])
    (simp_all add: mem_meta_lib_def view_meta_def foot_meta_def)

lemma copying_mem_list_meta: "copying (CopyListMeta mem_meta_lib) (\<lambda>_. Some) (\<lambda>_ _. {})"
  by unfold_locales (auto simp: mem_meta_lib_def)

interpretation memcopy: meta_copies mem_meta_lib view_meta foot_meta "\<lambda>_. Some" "\<lambda>_ _. {}"
  by (intro meta_copies.intro copying_mem_meta copying_mem_list_meta)

section \<open>Separate copies\<close>

text \<open>
  The promise, for every argument that is well-typed (denotes a value \<open>v\<close>) in a heap without stray cells:
  copy and original denote \<open>v\<close>; the original survives any change of the cells the copy reaches, and
  the copy any change of the cells that existed before.
\<close>

definition deep_copy ::
  "('x \<Rightarrow> 'k heap \<Rightarrow> 'x \<times> 'k heap) \<Rightarrow> ('k heap \<Rightarrow> 'x \<Rightarrow> 'v option) \<Rightarrow> ('k heap \<Rightarrow> 'x \<Rightarrow> nat set) \<Rightarrow> bool" where
  "deep_copy copy view foot \<longleftrightarrow> (\<forall>h x v x' h'. sound h \<longrightarrow> view h x = Some v \<longrightarrow> copy x h = (x', h') \<longrightarrow>
     sound h' \<and> view h' x' = Some v \<and> view h' x = Some v \<and>
     (\<forall>h''. (\<forall>a. a \<notin> foot h' x' \<longrightarrow> Cells h'' a = Cells h' a) \<longrightarrow> view h'' x = Some v) \<and>
     (\<forall>h''. (\<forall>a. Limit h \<le> a \<longrightarrow> Cells h'' a = Cells h' a) \<longrightarrow> view h'' x' = Some v))"

lemma copying_deep:
  assumes C: "copying copy view foot"
  shows "deep_copy copy view foot"
  unfolding deep_copy_def
proof (intro allI impI conjI)
  fix h :: "'b heap" and x v x' and h' :: "'b heap"
  assume a: "sound h" "view h x = Some v" "copy x h = (x', h')"
  note c = copying.copy_ok[OF C a]
  show "sound h'" "view h' x' = Some v" using c by blast+
  show "view h' x = Some v" using copying.kept[OF C a(1,2)] c by blast
  show "view h'' x = Some v" if "\<forall>a. a \<notin> foot h' x' \<longrightarrow> Cells h'' a = Cells h' a" for h'' :: "'b heap"
    by (rule copying.original_safe[OF C a]) (use that in blast)
  show "view h'' x' = Some v" if "\<forall>a. Limit h \<le> a \<longrightarrow> Cells h'' a = Cells h' a" for h'' :: "'b heap"
    by (rule copying.copy_safe[OF C a]) (use that in blast)
qed

text \<open>C21: the deep copies of lists of resource limiters, and with them of all they contain, are separate
  copies, in both versions of the API, provided the copies of the metadata are.\<close>

theorem DeepCopyObject_separate:
  assumes "meta_copies M vm fm vl fl"
  shows "deep_copy (DeepCopyObject_list M) (view_ptr list_cell (view_list vm vl)) (foot_ptr list_cell (foot_list fm fl)) \<and>
    deep_copy (DeepCopyObject_list1 M) (view_ptr list_cell1 (view_list1 vm vl)) (foot_ptr list_cell1 (foot_list1 fm fl))"
  by (intro conjI copying_deep meta_copies.copying_object[OF assms] meta_copies.copying_object1[OF assms])

text \<open>A list at address 3 with one object: its finalizers at 0, its quotas at 1.\<close>

definition ex_heap :: "(meta_h, string, string list) memory" where
  "ex_heap =
     \<lparr>Limit = 4, Cells = [
       0 \<mapsto> LibCell [DefaultFinalizer],
       1 \<mapsto> QuotaArray [empty_quota, empty_quota\<lparr>NamespaceName := ''ns''\<rparr>],
       2 \<mapsto> RlArray [\<lparr>Type_h = zero_type,
          Meta_h = \<lparr>Name_h = ''rl'', Finalizers_h = Some \<lparr>Arr = 0, Off = 0, Len = 1\<rparr>, Deletion_h = None\<rparr>,
          Spec_h = \<lparr>Quotas_h = Some \<lparr>Arr = 1, Off = 1, Len = 1\<rparr>, Applied_h = True\<rparr>, Status_h = zero_status\<rparr>],
       3 \<mapsto> ListCell \<lparr>ListType_h = zero_type, ListMeta_h = '''', Items_h = Some \<lparr>Arr = 2, Off = 0, Len = 1\<rparr>\<rparr>]\<rparr>"

abbreviation ex_view where
  "ex_view \<equiv> view_ptr list_cell (view_list view_meta (\<lambda>_ :: (meta_h, string, string list) memory. Some :: string \<Rightarrow> _))"

text \<open>The original outlives a copy that is erased, and the copy an original that is erased.\<close>

theorem DeepCopyObject_separate_witness:
  "\<exists>v p h. ex_view ex_heap (Some 3) = Some (Some v) \<and> DeepCopyObject_list mem_meta_lib (Some 3) ex_heap = (p, h) \<and>
     p = Some 4 \<and>
     ex_view (h\<lparr>Cells := Cells h |` (- foot_ptr list_cell (foot_list foot_meta (\<lambda>_ _. {})) h p)\<rparr>) (Some 3) = Some (Some v) \<and>
     ex_view (h\<lparr>Cells := Cells h |` {4..}\<rparr>) p = Some (Some v)"
proof -
  have "ex_view ex_heap (Some 3) \<noteq> None \<and> ex_view ex_heap (Some 3) \<noteq> Some None" by code_simp
  then obtain v where v: "ex_view ex_heap (Some 3) = Some (Some v)" by auto
  have s: "sound ex_heap" by (auto simp: sound_def ex_heap_def split: if_splits)
  obtain p h where c: "DeepCopyObject_list mem_meta_lib (Some 3) ex_heap = (p, h)"
    by (cases "DeepCopyObject_list mem_meta_lib (Some 3) ex_heap")
  have "fst (DeepCopyObject_list mem_meta_lib (Some 3) ex_heap) = Some 4" by code_simp
  then have p: "p = Some 4" using c by simp
  note d = DeepCopyObject_separate[OF memcopy.meta_copies_axioms, THEN conjunct1, unfolded deep_copy_def, rule_format, OF s v c]
  have "ex_view (h\<lparr>Cells := Cells h |` (- foot_ptr list_cell (foot_list foot_meta (\<lambda>_ _. {})) h p)\<rparr>) (Some 3) = Some (Some v)"
    by (rule d[THEN conjunct2, THEN conjunct2, THEN conjunct2, THEN conjunct1, rule_format]) simp
  moreover have "ex_view (h\<lparr>Cells := Cells h |` {4..}\<rparr>) p = Some (Some v)"
    by (rule d[THEN conjunct2, THEN conjunct2, THEN conjunct2, THEN conjunct2, rule_format]) (simp add: ex_heap_def)
  ultimately show ?thesis using v c p by blast
qed

end
