(* ===== verification/Startup_Props.thy ===== *)
theory Startup_Props
  imports Startup Config_Props
begin

text \<open>
  A certificate authority in memory, on which the contracts of the start-up are interpreted - PEM texts
  are written and read back with a small codec - and the property of the start-up.
\<close>

section \<open>Writing and reading values as text\<close>

locale codec =
  fixes put :: "'a \<Rightarrow> string" and get :: "string \<Rightarrow> 'a \<times> string"
  assumes get_put: "get (put x @ r) = (x, r)"

definition put_nat :: "nat \<Rightarrow> string" where "put_nat n = replicate n CHR ''1'' @ ''0''"

fun get_nat :: "string \<Rightarrow> nat \<times> string" where
  "get_nat (c # s) = (if c = CHR ''1'' then (case get_nat s of (n, r) \<Rightarrow> (Suc n, r)) else (0, s))"
| "get_nat [] = (0, [])"

definition put_pair :: "('a \<Rightarrow> string) \<Rightarrow> ('b \<Rightarrow> string) \<Rightarrow> 'a \<times> 'b \<Rightarrow> string" where
  "put_pair f g p = f (fst p) @ g (snd p)"

definition get_pair :: "(string \<Rightarrow> 'a \<times> string) \<Rightarrow> (string \<Rightarrow> 'b \<times> string) \<Rightarrow> string \<Rightarrow> ('a \<times> 'b) \<times> string" where
  "get_pair f g s = (case f s of (a, r) \<Rightarrow> (case g r of (b, r') \<Rightarrow> ((a, b), r')))"

definition put_list :: "('a \<Rightarrow> string) \<Rightarrow> 'a list \<Rightarrow> string" where
  "put_list f xs = put_nat (length xs) @ concat (map f xs)"

fun get_many :: "(string \<Rightarrow> 'a \<times> string) \<Rightarrow> nat \<Rightarrow> string \<Rightarrow> 'a list \<times> string" where
  "get_many f 0 s = ([], s)"
| "get_many f (Suc n) s = (case f s of (x, r) \<Rightarrow> (case get_many f n r of (xs, r') \<Rightarrow> (x # xs, r')))"

definition get_list :: "(string \<Rightarrow> 'a \<times> string) \<Rightarrow> string \<Rightarrow> 'a list \<times> string" where
  "get_list f s = (case get_nat s of (n, r) \<Rightarrow> get_many f n r)"

definition put_char :: "char \<Rightarrow> string" where "put_char c = [c]"
definition get_char :: "string \<Rightarrow> char \<times> string" where
  "get_char s = (case s of c # r \<Rightarrow> (c, r) | [] \<Rightarrow> (CHR 0x00, []))"

lemma codec_nat: "codec put_nat get_nat"
proof
  fix n r
  show "get_nat (put_nat n @ r) = (n, r)" by (induction n) (simp_all add: put_nat_def)
qed

lemma codec_char: "codec put_char get_char"
  by unfold_locales (simp add: put_char_def get_char_def)

lemma codec_pair: "codec f f' \<Longrightarrow> codec g g' \<Longrightarrow> codec (put_pair f g) (get_pair f' g')"
  by (auto simp: codec_def put_pair_def get_pair_def)

lemma codec_list:
  assumes "codec f f'"
  shows "codec (put_list f) (get_list f')"
proof
  fix xs r
  have "get_many f' (length xs) (concat (map f xs) @ r) = (xs, r)"
    by (induction xs) (simp_all add: codec.get_put[OF assms])
  then show "get_list f' (put_list f xs @ r) = (xs, r)"
    by (simp add: get_list_def put_list_def codec.get_put[OF codec_nat])
qed

lemma codec_via: "codec f g \<Longrightarrow> (\<And>x. out_of (into x) = x) \<Longrightarrow> codec (\<lambda>x. f (into x)) (\<lambda>s. map_prod out_of id (g s))"
  by (simp add: codec_def)

section \<open>Certificates as text\<close>

definition int_parts :: "int \<Rightarrow> nat \<times> nat" where "int_parts i = (nat i, nat (- i))"
definition of_int_parts :: "nat \<times> nat \<Rightarrow> int" where "of_int_parts p = int (fst p) - int (snd p)"

definition bit_of :: "bool \<Rightarrow> nat" where "bit_of b = (if b then 1 else 0)"

abbreviation put_string :: "string \<Rightarrow> string" where "put_string \<equiv> put_list put_char"
abbreviation get_string :: "string \<Rightarrow> string \<times> string" where "get_string \<equiv> get_list get_char"

type_synonym cert_parts = "(nat \<times> nat) \<times> string \<times> string list \<times> string list \<times> nat \<times> nat \<times> nat \<times> nat list \<times> nat list \<times> nat"

definition cert_parts :: "nat certificate \<Rightarrow> cert_parts" where
  "cert_parts c = (int_parts (SerialNumber c), CommonName c, Organization c, DNSNames c, NotBefore c, NotAfter c,
     bit_of (IsCA c), map (\<lambda>u. bit_of (u = ExtKeyUsageServerAuth)) (ExtKeyUsage c),
     map (\<lambda>u. bit_of (u = KeyUsageCertSign)) (KeyUsage c), bit_of (BasicConstraintsValid c))"

definition of_cert_parts :: "cert_parts \<Rightarrow> nat certificate" where
  "of_cert_parts p = (case p of (i, cn, orgs, dns, t1, t2, ca, eku, ku, bc) \<Rightarrow>
     \<lparr>SerialNumber = of_int_parts i, CommonName = cn, Organization = orgs, DNSNames = dns,
      NotBefore = t1, NotAfter = t2, IsCA = (ca = 1),
      ExtKeyUsage = map (\<lambda>n. if n = 1 then ExtKeyUsageServerAuth else ExtKeyUsageClientAuth) eku,
      KeyUsage = map (\<lambda>n. if n = 1 then KeyUsageCertSign else KeyUsageDigitalSignature) ku,
      BasicConstraintsValid = (bc = 1)\<rparr>)"

lemma cert_parts_inverse: "of_cert_parts (cert_parts c) = c"
proof -
  have e: "map (\<lambda>n. if n = 1 then ExtKeyUsageServerAuth else ExtKeyUsageClientAuth)
      (map (\<lambda>u. bit_of (u = ExtKeyUsageServerAuth)) us) = us" for us
  proof (induction us)
    case (Cons u us)
    then show ?case by (cases u) (simp_all add: bit_of_def)
  qed simp
  have k: "map (\<lambda>n. if n = 1 then KeyUsageCertSign else KeyUsageDigitalSignature)
      (map (\<lambda>u. bit_of (u = KeyUsageCertSign)) us) = us" for us
  proof (induction us)
    case (Cons u us)
    then show ?case by (cases u) (simp_all add: bit_of_def)
  qed simp
  show ?thesis
    by (cases c) (simp only: cert_parts_def of_cert_parts_def prod.case e k certificate.select_convs,
      simp add: of_int_parts_def int_parts_def bit_of_def)
qed

definition issued_parts where
  "issued_parts i = (cert_parts (Contents i), SubjectKey i, Issuer i, SigningKey i)"

definition of_issued_parts :: "cert_parts \<times> nat \<times> (string \<times> string list) \<times> nat \<Rightarrow> (nat, nat) issued" where
  "of_issued_parts p = (case p of (c, k, i, s) \<Rightarrow>
     \<lparr>Contents = of_cert_parts c, SubjectKey = k, Issuer = i, SigningKey = s\<rparr>)"

abbreviation "put_strings \<equiv> put_list put_string"
abbreviation "get_strings \<equiv> get_list get_string"
abbreviation "put_nats \<equiv> put_list put_nat"
abbreviation "get_nats \<equiv> get_list get_nat"

definition put_issued :: "(nat, nat) issued \<Rightarrow> string" where
  "put_issued i = put_pair
     (put_pair (put_pair put_nat put_nat) (put_pair put_string (put_pair put_strings (put_pair put_strings
       (put_pair put_nat (put_pair put_nat (put_pair put_nat (put_pair put_nats (put_pair put_nats put_nat)))))))))
     (put_pair put_nat (put_pair (put_pair put_string put_strings) put_nat)) (issued_parts i)"

definition get_issued :: "string \<Rightarrow> (nat, nat) issued \<times> string" where
  "get_issued s = map_prod of_issued_parts id (get_pair
     (get_pair (get_pair get_nat get_nat) (get_pair get_string (get_pair get_strings (get_pair get_strings
       (get_pair get_nat (get_pair get_nat (get_pair get_nat (get_pair get_nats (get_pair get_nats get_nat)))))))))
     (get_pair get_nat (get_pair (get_pair get_string get_strings) get_nat)) s)"

lemma codec_issued: "codec put_issued get_issued"
  unfolding put_issued_def get_issued_def
  by (rule codec_via[where into = issued_parts and out_of = of_issued_parts])
    (intro codec_pair codec_list codec_nat codec_char,
     simp add: issued_parts_def of_issued_parts_def cert_parts_inverse)

interpretation nat_text: codec put_nat get_nat by (rule codec_nat)
interpretation cert_text: codec put_issued get_issued by (rule codec_issued)

section \<open>A process in memory\<close>

record proc =
  ProcM :: "string \<rightharpoonup> WebhookConfiguration"
  ProcV :: "string \<rightharpoonup> WebhookConfiguration"
  NextKey :: nat

definition mem_crypto :: "(nat, nat, nat, proc) crypto" where
  "mem_crypto =
     \<lparr>Now = \<lambda>w. (0, w), AddDate = \<lambda>t y m d. t + nat (365 * y + 30 * m + d),
      GenerateKey = \<lambda>bits w. (Inr (NextKey w), w\<lparr>NextKey := Suc (NextKey w)\<rparr>),
      PublicKey = \<lambda>k. k,
      CreateCertificate = \<lambda>c parent pub k w.
        (Inr (put_issued \<lparr>Contents = c, SubjectKey = pub, Issuer = subject parent, SigningKey = k\<rparr>), w),
      MarshalPKCS1PrivateKey = put_nat,
      PemBlock = \<lambda>kind bytes. put_string kind @ bytes\<rparr>"

definition mem_read_cert :: "string \<Rightarrow> (nat, nat) issued option" where
  "mem_read_cert s = (case get_string s of (kind, bytes) \<Rightarrow>
     if kind = ''CERTIFICATE'' then Some (fst (get_issued bytes)) else None)"

definition mem_read_key :: "string \<Rightarrow> nat option" where
  "mem_read_key s = (case get_string s of (kind, bytes) \<Rightarrow>
     if kind = ''RSA PRIVATE KEY'' then Some (fst (get_nat bytes)) else None)"

interpretation memx: x509 mem_crypto mem_read_cert mem_read_key
proof
  note cs = codec.get_put[OF codec_list[OF codec_char]]
  show "mem_read_cert (PemBlock mem_crypto ''CERTIFICATE'' der) =
      Some \<lparr>Contents = c, SubjectKey = pub, Issuer = subject parent, SigningKey = PublicKey mem_crypto k\<rparr>"
    if "CreateCertificate mem_crypto c parent pub k w = (Inr der, w')" for c parent pub k w der w'
    using that codec.get_put[OF codec_issued, of _ "[]"] by (auto simp: mem_crypto_def mem_read_cert_def cs)
  show "mem_read_key (PemBlock mem_crypto ''RSA PRIVATE KEY'' (MarshalPKCS1PrivateKey mem_crypto k)) = Some k" for k
    using codec.get_put[OF codec_nat, of k "[]"] by (simp add: mem_crypto_def mem_read_key_def cs)
qed

definition proc_clientset :: "proc clientset" where
  "proc_clientset = \<lparr>Mutating = mem_hook_client ProcM (\<lambda>m w. w\<lparr>ProcM := m\<rparr>),
     Validating = mem_hook_client ProcV (\<lambda>m w. w\<lparr>ProcV := m\<rparr>)\<rparr>"

definition mem_process :: "(nat, nat, nat, proc, string \<times> string, unit, string) process" where
  "mem_process =
     \<lparr>Crypto = mem_crypto, X509KeyPair = \<lambda>c k. Inr (c, k),
      Getenv = \<lambda>v. if v = ''POD_NAMESPACE'' then ''rl-system'' else '''',
      InClusterConfig = \<lambda>w. (Inr (), w), BuildConfigFromFlags = \<lambda>u k w. (Inr (), w),
      NewForConfig = \<lambda>cfg w. (Inr proc_clientset, w),
      Open = \<lambda>f w. (Inr f, w), ReadAll = \<lambda>f w. (Inr f, w)\<rparr>"

interpretation memproc: webhook_process mem_process mem_read_cert mem_read_key proc_clientset ProcM ProcV fill_in fst
proof (intro webhook_process.intro webhook_process_axioms.intro)
  show "x509 (Crypto mem_process) mem_read_cert mem_read_key"
    using memx.x509_axioms by (simp add: mem_process_def)
  show "webhook_api proc_clientset ProcM ProcV fill_in"
    by unfold_locales (auto simp: proc_clientset_def mem_hook_client_def fill_in_essence split: option.splits if_splits)
qed (auto simp: mem_process_def)

section \<open>Properties\<close>

definition fresh_proc :: proc where
  "fresh_proc = \<lparr>ProcM = Map.empty, ProcV = Map.empty, NextKey = 0\<rparr>"

text \<open>When \<open>generateCert\<close> succeeds, a client that trusts the CA it returns accepts the certificate it returns
  for each of the DNS names, the private key it returns is the one of that certificate, and both certificates
  last two years (the comments in the code say one).\<close>

theorem generateCert_trusted:
  assumes "x509 X read_cert read_key"
    and "generateCert X orgs dnsNames commonName w = (Inr (ca, cert, key), w')"
  shows "(\<forall>h \<in> set dnsNames. trusted read_cert ca cert h) \<and>
    (\<exists>c s k. read_cert ca = Some c \<and> read_cert cert = Some s \<and> read_key key = Some k \<and>
       SubjectKey s = PublicKey X k \<and> two_years_from X w c \<and> (\<exists>u. two_years_from X u s))"
proof (rule x509.generateCert_cases[OF assms])
  fix c s k
  assume "read_cert ca = Some c" "read_cert cert = Some s" "read_key key = Some k"
    "SubjectKey s = PublicKey X k" "two_years_from X w c" "\<exists>u. two_years_from X u s" "\<And>h. h \<in> set dnsNames \<Longrightarrow> chain_ok c s h"
  then show ?thesis by (auto simp: trusted_def)
qed

theorem generateCert_trusted_witness:
  "\<exists>ca cert key w'. generateCert mem_crypto [''org''] [''svc'', ''svc.ns.svc''] ''svc.ns.svc'' fresh_proc = (Inr (ca, cert, key), w') \<and>
     trusted mem_read_cert ca cert ''svc.ns.svc''"
proof -
  obtain ca cert key w' where g: "generateCert mem_crypto [''org''] [''svc'', ''svc.ns.svc''] ''svc.ns.svc'' fresh_proc =
      (Inr (ca, cert, key), w')"
    by (simp add: generateCert_def mem_crypto_def fresh_proc_def Let_def)
  have "''svc.ns.svc'' \<in> set [''svc'', ''svc.ns.svc'']" by simp
  with generateCert_trusted[OF memx.x509_axioms g] have "trusted mem_read_cert ca cert ''svc.ns.svc''" by blast
  with g show ?thesis by blast
qed

text \<open>C25: a webhook server that gets as far as serving can be called. Both webhook configurations are stored, with
  one webhook each; the service it names has a path that the server routes to the right handler, and
  the certificate the server presents is trusted, under the CA bundle of the webhook, for the host
  name of that service.\<close>

theorem webhook_main_callable:
  assumes "webhook_process P read_cert read_key CS mstored vstored dflt pair_cert"
    and "webhook_main P port_flag service_flag w = (Serving srv, w')"
  shows "(\<exists>c h. mstored w' ''resourcelimiter-checker-mutate'' = Some c \<and> Webhooks c = [h] \<and>
      callable read_cert pair_cert srv h HandleMutate) \<and>
    (\<exists>c h. vstored w' ''resourcelimiter-checker-mutate-validate'' = Some c \<and> Webhooks c = [h] \<and>
      callable read_cert pair_cert srv h HandleValidate)"
  using webhook_process.main_callable[OF assms] by (simp add: initialConfigName_def)

lemma listen_8443: "listen_addr 8443 = '':8443''"
  by (simp add: listen_addr_def char_of_def bit_0)

lemma ex_started: "\<exists>srv w'. webhook_main mem_process None None fresh_proc = (Serving srv, w') \<and> Addr srv = '':8443''"
  by (simp add: webhook_main_def kube_client_def generateCert_def register_webhooks_def
    createOrUpdateWebhookConfiguration_def mem_process_def mem_crypto_def proc_clientset_def mem_hook_client_def
    fresh_proc_def mutatingConfig_def validatingConfig_def initialConfigName_def flag_value_def listen_8443 Let_def)

theorem webhook_main_callable_witness:
  "\<exists>srv w' c h. webhook_main mem_process None None fresh_proc = (Serving srv, w') \<and> Addr srv = '':8443'' \<and>
     ProcV w' ''resourcelimiter-checker-mutate-validate'' = Some c \<and> Webhooks c = [h] \<and>
     callable mem_read_cert fst srv h HandleValidate"
proof -
  obtain srv w' where r: "webhook_main mem_process None None fresh_proc = (Serving srv, w')" "Addr srv = '':8443''"
    using ex_started by blast
  from webhook_main_callable[OF memproc.webhook_process_axioms r(1)] r show ?thesis by blast
qed

end
