(* ===== verification/Server_Lifetime.thy ===== *)
theory Server_Lifetime
  imports Prelude
begin

text \<open>
  The end of \<open>main\<close> of \<open>pkg/cmd/main.go\<close> and, word for word the same, of \<open>pkg/conversion/main.go\<close>: a
  goroutine serves, the main goroutine waits for a signal of the operating system and then shuts the
  server down. A step is a step of one of the two goroutines, of the HTTP server (a request comes in or is
  done) or of the operating system; \<open>Exit\<close> is the status the process has ended with, and after that there
  are no steps. While the server drains, a request can still come in on a connection that has been accepted
  (\<open>late\<close>). Of the library: \<open>ListenAndServeTLS\<close> returns an error when it cannot listen, and
  \<open>ErrServerClosed\<close> as soon as \<open>Shutdown\<close> is called; \<open>Shutdown\<close> returns when no request is left.
\<close>

definition ErrServerClosed :: go_error where "ErrServerClosed = Failure ''http: Server closed''"

datatype main_at = AwaitingSignal | Draining | Finished
datatype serve_at = Listening | ListenReturned go_error

record life =
  MainAt :: main_at
  ServeAt :: serve_at
  InFlight :: nat
  Exit :: "nat option"

definition started :: life where
  "started = \<lparr>MainAt = AwaitingSignal, ServeAt = Listening, InFlight = 0, Exit = None\<rparr>"

inductive life_step :: "life \<Rightarrow> life \<Rightarrow> bool" where
  accept: "Exit s = None \<Longrightarrow> MainAt s = AwaitingSignal \<Longrightarrow> ServeAt s = Listening \<Longrightarrow>
    life_step s (s\<lparr>InFlight := Suc (InFlight s)\<rparr>)"
| late: "Exit s = None \<Longrightarrow> MainAt s = Draining \<Longrightarrow> life_step s (s\<lparr>InFlight := Suc (InFlight s)\<rparr>)"
| answer: "Exit s = None \<Longrightarrow> InFlight s = Suc n \<Longrightarrow> life_step s (s\<lparr>InFlight := n\<rparr>)"
| listen_fails: "Exit s = None \<Longrightarrow> MainAt s = AwaitingSignal \<Longrightarrow> ServeAt s = Listening \<Longrightarrow> e \<noteq> ErrServerClosed \<Longrightarrow>
    life_step s (s\<lparr>ServeAt := ListenReturned e\<rparr>)"
| signal: "Exit s = None \<Longrightarrow> MainAt s = AwaitingSignal \<Longrightarrow> life_step s (s\<lparr>MainAt := Draining\<rparr>)"
| listen_closes: "Exit s = None \<Longrightarrow> MainAt s = Draining \<Longrightarrow> ServeAt s = Listening \<Longrightarrow>
    life_step s (s\<lparr>ServeAt := ListenReturned ErrServerClosed\<rparr>)"
| fatal: "Exit s = None \<Longrightarrow> ServeAt s = ListenReturned e \<Longrightarrow> life_step s (s\<lparr>Exit := Some 1\<rparr>)"
| drained: "Exit s = None \<Longrightarrow> MainAt s = Draining \<Longrightarrow> InFlight s = 0 \<Longrightarrow> life_step s (s\<lparr>MainAt := Finished\<rparr>)"
| main_returns: "Exit s = None \<Longrightarrow> MainAt s = Finished \<Longrightarrow> life_step s (s\<lparr>Exit := Some 0\<rparr>)"

definition conversion_life_step :: "life \<Rightarrow> life \<Rightarrow> bool" where
  "conversion_life_step = life_step"

inductive_cases life_stepE: "life_step s s'"

inductive lives :: "life \<Rightarrow> bool" where
  start: "lives started"
| step: "lives s \<Longrightarrow> life_step s s' \<Longrightarrow> lives s'"

section \<open>How a process can end\<close>

definition life_ok :: "life \<Rightarrow> bool" where
  "life_ok s \<longleftrightarrow> (MainAt s = Finished \<longrightarrow> InFlight s = 0) \<and> (Exit s = Some 0 \<longrightarrow> MainAt s = Finished) \<and>
     (Exit s \<noteq> None \<longrightarrow> Exit s = Some 0 \<or> Exit s = Some 1 \<and> ServeAt s \<noteq> Listening) \<and>
     (ServeAt s = ListenReturned ErrServerClosed \<longrightarrow> MainAt s \<noteq> AwaitingSignal)"

lemma lives_ok: "lives s \<Longrightarrow> life_ok s"
proof (induction rule: lives.induct)
  case start
  show ?case by (simp add: life_ok_def started_def)
next
  case (step s s')
  from step.hyps(2) step.IH show ?case by (elim life_stepE) (auto simp: life_ok_def)
qed

lemma busy: "lives (started\<lparr>InFlight := n\<rparr>)"
proof (induction n)
  case 0
  have "started\<lparr>InFlight := 0\<rparr> = started" by (simp add: started_def)
  then show ?case using lives.start by simp
next
  case (Suc n)
  from lives.step[OF Suc life_step.accept] show ?case by (simp add: started_def)
qed

lemma cut_off: "lives (started\<lparr>InFlight := n, MainAt := Draining, ServeAt := ListenReturned ErrServerClosed, Exit := Some 1\<rparr>)"
proof -
  have "lives (started\<lparr>InFlight := n, MainAt := Draining\<rparr>)"
    using lives.step[OF busy life_step.signal] by (simp add: started_def)
  from lives.step[OF this life_step.listen_closes]
  have "lives (started\<lparr>InFlight := n, MainAt := Draining, ServeAt := ListenReturned ErrServerClosed\<rparr>)"
    by (simp add: started_def)
  from lives.step[OF this life_step.fatal[where e = ErrServerClosed]] show ?thesis by (simp add: started_def)
qed

text \<open>C38: the process exits with status 0 only after a signal and with every request answered, and with status 1 only
  when \<open>ListenAndServeTLS\<close> has returned. But it returns an error on a shutdown too (so the library documents, and so
  the step \<open>listen_closes\<close> models it), and \<open>main\<close> takes any error for fatal: a signal can end the process with status 1 with any
  number of requests in flight, though listening never failed.\<close>

theorem shutdown_not_graceful:
  "(\<forall>s. lives s \<and> Exit s = Some 0 \<longrightarrow> MainAt s = Finished \<and> InFlight s = 0) \<and>
   (\<forall>s. lives s \<and> Exit s = Some 1 \<longrightarrow> (\<exists>e. ServeAt s = ListenReturned e \<and> (e = ErrServerClosed \<longrightarrow> MainAt s \<noteq> AwaitingSignal))) \<and>
   (\<forall>n. \<exists>s. lives s \<and> ServeAt s = ListenReturned ErrServerClosed \<and> InFlight s = n \<and> Exit s = Some 1)"
proof (intro conjI allI)
  show "lives s \<and> Exit s = Some 0 \<longrightarrow> MainAt s = Finished \<and> InFlight s = 0" for s
    using lives_ok[of s] by (auto simp: life_ok_def)
  show "lives s \<and> Exit s = Some 1 \<longrightarrow> (\<exists>e. ServeAt s = ListenReturned e \<and> (e = ErrServerClosed \<longrightarrow> MainAt s \<noteq> AwaitingSignal))" for s
    using lives_ok[of s] by (cases "ServeAt s") (auto simp: life_ok_def)
  show "\<exists>s. lives s \<and> ServeAt s = ListenReturned ErrServerClosed \<and> InFlight s = n \<and> Exit s = Some 1" for n
    by (rule exI, rule conjI, rule cut_off) simp
qed

theorem shutdown_not_graceful_witness:
  "\<exists>s. lives s \<and> InFlight s = 2 \<and> Exit s = Some 1 \<and> (\<exists>e. ServeAt s = ListenReturned e \<and> MainAt s \<noteq> AwaitingSignal)"
proof -
  from shutdown_not_graceful obtain s where "lives s" "InFlight s = 2" "Exit s = Some 1" "ServeAt s = ListenReturned ErrServerClosed"
    by blast
  with shutdown_not_graceful show ?thesis by (metis serve_at.inject)
qed

end
