(* ===== verification/Spec2Isabelle.thy ===== *)
theory Spec2Isabelle
  imports End_To_End Controller_Stable Controller_Calls Controller_Refines Many_Limiters_Props
    Interference_Props Outside_Changes Validate_Ends Deep_Copy_Props Startup_Props Server_Lifetime
begin

text \<open>
  \<^bold>\<open>A model of resourcelimiter\<close>

  The program limits the resources of namespaces of a Kubernetes cluster. A cluster-scoped custom
  resource, \<open>ResourceLimiter\<close>, lists namespaces with quantities for CPU and memory. Three processes
  work on it:

    \<^item> the \<^emph>\<open>controller\<close> (\<open>controllers/resourcelimiter_controller.go\<close>) labels the listed namespaces
      and keeps one \<open>ResourceQuota\<close>, \<open>rl-quota-<namespace>\<close>, in each of them;
    \<^item> the \<^emph>\<open>webhook server\<close> (\<open>pkg/cmd\<close>) registers itself with the API server
      (\<open>webhookconfig.go\<close>), mutates resource limiters on their way in and validates them and the
      workloads of the labelled namespaces (\<open>webhook.go\<close>);
    \<^item> the \<^emph>\<open>conversion server\<close> (\<open>pkg/conversion\<close>) converts between the versions v1beta1 and
      v1beta2 of the resource, with the hub conversion of \<open>api/v1beta1\<close>.

  \<^bold>\<open>Theories\<close>

  Shared:
    \<^item> \<open>Prelude\<close>: errors, Go maps (association lists whose order is the order in which a range loop
      visits them), outcomes, and \<open>for_loop\<close>, the loop that returns early, with its invariant rules.
    \<^item> \<open>Api_Types\<close>: \<open>pkg/constants\<close> and the structs of \<open>api/v1beta1\<close> and \<open>api/v1beta2\<close>.
    \<^item> \<open>Json\<close>, \<open>Api_Json\<close>: JSON values; what \<open>encoding/json\<close> does with the structs by their tags
      (contracts \<open>json_struct\<close> and \<open>json_field\<close>, interpreted on every decoder); the \<open>add\<close> operation of
      JSON patch.

  Conversion:
    \<^item> \<open>Hub_Conversion\<close>: \<open>ConvertTo\<close> and \<open>ConvertFrom\<close>, what they compute and the two round trips.
    \<^item> \<open>Conversion_Service\<close>, \<open>Conversion_Props\<close>: \<open>doConversion\<close> with its panicking type assertions,
      the serializers, the handler; which objects it converts and to what, and when it panics.

  Controller:
    \<^item> \<open>Kube_Client\<close>: the client of the API server and the helpers of controllerutil as parameters,
      the cluster they act on, the effect of each write.
    \<^item> \<open>Api_Laws\<close>: their contracts as locales (\<open>kube_api\<close>: every call may fail, and a failed write
      may still have happened; \<open>reliable_api\<close>: no call fails without a reason; \<open>kube_lib\<close>;
      \<open>quantity_lib\<close>), interpreted on an in-memory API server.
    \<^item> \<open>Reconciler\<close>: the code, function by function: \<open>Reconcile\<close> (\<open>register_finalizer\<close> is its first
      part), \<open>reconcile\<close> (\<open>reconcile_quota\<close> is its loop body, with \<open>apply_quota\<close>, \<open>create_quota\<close>,
      \<open>update_quota\<close>, \<open>remove_quota\<close>), \<open>reconcileDelete\<close> (\<open>delete_quota\<close>, \<open>remove_our_finalizer\<close>),
      \<open>updateStatus\<close>, \<open>setHard\<close>, \<open>eventPredicate\<close>.
    \<^item> \<open>Reconciler_Spec\<close>: what the controller is to achieve, on the cluster alone (\<open>converged\<close>), and
      what a pass may touch (\<open>only_touches\<close>, \<open>run_frame\<close>; the contract \<open>quota_pass\<close> of a loop body).
    \<^item> \<open>Reconciler_Laws\<close>, \<open>Reconciler_Live\<close>, \<open>Reconciler_Delete\<close>, \<open>Reconciler_Correct\<close>: the locale
      \<open>reconciler\<close> (\<open>kube_api\<close> and \<open>kube_lib\<close>) with the lemmas on rounds, loops, passes and runs.
    \<^item> \<open>Controller_Safety\<close>: one run, whatever fails. \<open>Reconciler_Progress\<close>,
      \<open>Controller_Progress\<close>: repeated runs when nothing fails without a reason; the measure is
      the number of missing quotas, and no fuel is needed. \<open>Reconciler_Stable\<close>, \<open>Controller_Stable\<close>:
      the clusters that runs leave as they are, call by call (\<open>calm_reconciler\<close>).
    \<^item> \<open>Call_Trace\<close>, \<open>Call_Contents\<close>, \<open>Call_Grammar\<close>, \<open>Controller_Calls\<close>: the log of the calls of a run, for any
      client whatever: the protocol it follows towards the object read last (\<open>may_follow\<close>, \<open>ends_with\<close>), its length, the shape of everything that is sent, and a grammar of the
      logs of runs that return no error (\<open>complete_log\<close>). \<open>Call_Steps\<close>:
      every function of the controller as a sequence of steps, and clients with a tap.
    \<^item> \<open>Controller_Machine\<close>, \<open>Controller_Refines\<close>: the specification of the controller as an abstract machine
      with guarded atomic steps on the cluster (\<open>controller_step\<close>), the refinement - every call of a run is one
      step or none - and an invariant that all steps keep.
    \<^item> \<open>Manager\<close>: the schemes, \<open>SetupWithManager\<close> and \<open>main.go\<close>. \<open>Event_Loop\<close>, \<open>Event_Loop_Props\<close>: the
      controller woken up by the events of its own calls, through \<open>controller_builder\<close> and
      \<open>eventPredicate\<close>; when the loop comes to rest, and when it never does. The number of runs
      \<open>k\<close> is a bound; two more than there are missing quotas are enough.
    \<^item> \<open>Many_Limiters\<close>, \<open>Many_Limiters_Props\<close>: a queue of several objects as a step relation (\<open>manager_step\<close>), taken
      in any order. Objects with namespaces of their own all come to rest; the sum of what each still has to
      do is the measure. Objects that share a namespace undo each other's work unnoticed.
    \<^item> \<open>Interference\<close>, \<open>Interference_Props\<close>: other writers. \<open>amid env\<close> is the client with an environment that may
      change the cluster before every call, and a log of the clusters around each call; a run keeps to its scope
      among them (\<open>in_scope\<close>, and \<open>run_frame\<close> where stale writes are refused). Between runs, what the watches report is put right and nothing else is.
    \<^item> \<open>Outside_Changes\<close>: the queue and other writers together (\<open>shared_step\<close>: a run of the controller, or a change by
      others): whatever others ask for between runs, once they pause everything comes to its effect.

  Webhooks:
    \<^item> \<open>Admission\<close>: the admission API, the HTTP side of the handlers, the record \<open>wire\<close> of the code
      outside they call.
    \<^item> \<open>Mutate\<close>, \<open>Mutate_Laws\<close>, \<open>Mutate_Props\<close>: the patches, and what they do to the object when
      they are applied to its JSON and the result is decoded again.
    \<^item> \<open>Validate\<close>, \<open>Validate_Props\<close>: the decisions, with \<open>MustParse\<close> panicking and \<open>recordR\<close> turning the
      panic into \<open>resFormErr\<close>; the three workload branches keep one contract (\<open>workload_branch\<close>).
    \<^item> \<open>Validate_Race\<close>: any number of handlers interleaving on \<open>resFormErr\<close>, as a step relation;
      safety of every reachable state, and what can go wrong. \<open>Validate_Ends\<close>: requests
      that make no handler panic are all answered, in bounded time, as if each were alone.
    \<^item> \<open>Webhook_Config\<close>, \<open>Config_Props\<close>: the registration at start-up, first and repeated.

  Processes:
    \<^item> \<open>Certificates\<close>: \<open>generateCert\<close> (\<open>cert.go\<close>), with keys, signatures and PEM under the contract
      \<open>x509\<close>. \<open>Startup\<close>, \<open>Startup_Props\<close>: \<open>main\<close> of the two servers (\<open>pkg/cmd/main.go\<close>,
      \<open>pkg/conversion/main.go\<close>) as pipelines of calls that can fail; a server that gets as far as
      serving can be called. \<open>Server_Lifetime\<close>: serving, signals and shutdown, as a step relation.

  Copies in memory:
    \<^item> \<open>Go_Heap\<close>, \<open>Go_Copies\<close>: a heap of typed cells with slices, maps and pointers; what it means that
      a method copies (\<open>copying\<close>: equal value, disjoint cells, nothing else written), closed under
      slices, maps and boxes. \<open>Deep_Copy\<close>, \<open>Deep_Copy_Laws\<close>, \<open>Deep_Copy_Props\<close>: every generated method
      of \<open>zz_generated.deepcopy.go\<close>, in both versions, each an instance of the contract.

  \<open>Pipeline\<close> and \<open>End_To_End\<close> relate the components: an admitted object cannot make the controller panic, and comes
  to its effect in namespaces that the webhooks are then called for; a converted one cannot be reconciled; what
  the mutating webhook completes, the validating one decides.

  \<^bold>\<open>How code is modelled\<close>

  Structs are records with the field names of the source, stateful calls thread a world of any type,
  an \<open>err != nil\<close> is a branch, a panic is a value. Quantities are a type parameter: parsing and
  printing them is library code. In the store of \<open>register_finalizer\<close> and \<open>remove_our_finalizer\<close>
  objects have addresses, since there a pointer is shared with a patch.

  \<^bold>\<open>What the properties assume\<close>

  The contracts of the parameters are hypotheses of the properties, by the names of their locales. What a run
  achieves (\<open>Reconcile_applied\<close>, \<open>Reconcile_refines\<close> and the like) is shown for runs during which no one else
  writes; what a run sends, the protocol it follows and the scope it keeps to hold among other writers as well.
  That the API server refuses to overwrite what has changed since it was read is a hypothesis on the log
  (\<open>optimistic\<close>), which only the part of \<open>Reconcile_among_others\<close> rests on that says that no change of others to a
  namespace is lost. Reads are not stale, a read overwrites the object it is given; the text of library errors is a
  parameter. Handlers interleave at single accesses to the shared variable, which are atomic.

  \<^bold>\<open>Not modelled\<close>

  Log output and the loggers set up in the \<open>init\<close> functions; the options of the zap logger; the
  marker method \<open>Hub\<close>, which has no body; constants no code uses; the deployment manifests. Library
  code (client-go, controller-runtime, \<open>encoding/json\<close>, \<open>crypto/x509\<close>, \<open>net/http\<close>) is a parameter with
  its contract. The queue has one worker (\<open>concurrentWorkers\<close>) and forgets how often a name was put into it; the
  delays after which a failed run is repeated are left out. That the controller catches up with other writers is
  shown for changes between its runs; of a run that others disturb it is shown that it keeps to its scope and, when it
  ends without an error, which calls it has made and had acknowledged, not that their effects last.
\<close>

end
